theory Spec2Isabelle
  imports Complex_Main "HOL-Library.Multiset"
begin

section \<open>Numbers of the host language\<close>

text \<open>
  The benchmark is TypeScript; every \<^verbatim>\<open>number\<close> is an IEEE binary64 value. A finite value is
  kept as the real number it denotes, beside the three special values. Every arithmetic
  operation computes the exact real result and rounds it to binary64 (\<open>round64\<close>): to the
  nearest value, to the one with an even significand when two are equally near, and to an
  infinity when the rounded magnitude reaches \<open>2^1024\<close>. The one simplification is the sign
  of zero: a zero is the positive zero (the sums and quotients below never produce a
  negative zero from non-negative durations).
\<close>

datatype jsnum = Finite real | PosInf | NegInf | NaN

datatype jserror = RangeError

text \<open>The integer nearest to \<open>y\<close>, the even one of two.\<close>

definition roundHalfEven :: "real \<Rightarrow> int" where
  "roundHalfEven y =
     (let f = \<lfloor>y\<rfloor>; d = y - of_int f
      in if d < 1 / 2 then f else if 1 / 2 < d then f + 1 else if even f then f else f + 1)"

text \<open>The spacing of the binary64 values around a magnitude \<open>a > 0\<close>: \<open>2^(e - 52)\<close> for
  \<open>2^e \<le> a < 2^(e + 1)\<close>, and \<open>2^(- 1074)\<close> throughout the subnormal range below
  \<open>2^(- 1022)\<close>.\<close>

definition ulp64 :: "real \<Rightarrow> real" where
  "ulp64 a = 2 powr (real_of_int (max \<lfloor>log 2 a\<rfloor> (- 1022)) - 52)"

definition round64 :: "real \<Rightarrow> jsnum" where
  "round64 x =
     (if x = 0 then Finite 0
      else
        let a = \<bar>x\<bar>;
            r = of_int (roundHalfEven (a / ulp64 a)) * ulp64 a
        in if 2 ^ 1024 \<le> r then (if x < 0 then NegInf else PosInf)
           else Finite (if x < 0 then - r else r))"

fun js_add :: "jsnum \<Rightarrow> jsnum \<Rightarrow> jsnum" where
  "js_add (Finite a) (Finite b) = round64 (a + b)"
| "js_add NaN y = NaN"
| "js_add x NaN = NaN"
| "js_add PosInf NegInf = NaN"
| "js_add NegInf PosInf = NaN"
| "js_add PosInf y = PosInf"
| "js_add x PosInf = PosInf"
| "js_add NegInf y = NegInf"
| "js_add x NegInf = NegInf"

fun js_neg :: "jsnum \<Rightarrow> jsnum" where
  "js_neg (Finite a) = Finite (- a)"
| "js_neg PosInf = NegInf"
| "js_neg NegInf = PosInf"
| "js_neg NaN = NaN"

definition js_sub :: "jsnum \<Rightarrow> jsnum \<Rightarrow> jsnum" where
  "js_sub x y = js_add x (js_neg y)"

text \<open>The sign of a value, for the sign rules of products and quotients; zero counts as
  positive (see above).\<close>

fun js_negative :: "jsnum \<Rightarrow> bool" where
  "js_negative (Finite a) = (a < 0)"
| "js_negative NegInf = True"
| "js_negative x = False"

definition js_inf :: "bool \<Rightarrow> jsnum" where
  "js_inf negative = (if negative then NegInf else PosInf)"

fun js_mul :: "jsnum \<Rightarrow> jsnum \<Rightarrow> jsnum" where
  "js_mul (Finite a) (Finite b) = round64 (a * b)"
| "js_mul NaN y = NaN"
| "js_mul x NaN = NaN"
| "js_mul (Finite a) y = (if a = 0 then NaN else js_inf ((a < 0) \<noteq> js_negative y))"
| "js_mul x (Finite b) = (if b = 0 then NaN else js_inf (js_negative x \<noteq> (b < 0)))"
| "js_mul x y = js_inf (js_negative x \<noteq> js_negative y)"

fun js_div :: "jsnum \<Rightarrow> jsnum \<Rightarrow> jsnum" where
  "js_div (Finite a) (Finite b) =
     (if b \<noteq> 0 then round64 (a / b)
      else if a = 0 then NaN
      else js_inf (a < 0))"
| "js_div NaN y = NaN"
| "js_div x NaN = NaN"
| "js_div (Finite a) y = Finite 0"
| "js_div x (Finite b) = js_inf (js_negative x \<noteq> (b < 0))"
| "js_div x y = NaN"

text \<open>The relational operators: every comparison with \<open>NaN\<close> is false.\<close>

fun js_lt :: "jsnum \<Rightarrow> jsnum \<Rightarrow> bool" where
  "js_lt (Finite a) (Finite b) = (a < b)"
| "js_lt NaN y = False"
| "js_lt x NaN = False"
| "js_lt x NegInf = False"
| "js_lt PosInf y = False"
| "js_lt NegInf y = True"
| "js_lt x PosInf = True"

definition js_ge :: "jsnum \<Rightarrow> jsnum \<Rightarrow> bool" where
  "js_ge x y = (x = y \<and> x \<noteq> NaN \<or> js_lt y x)"

text \<open>\<^verbatim>\<open>Math.min(...values)\<close> and \<^verbatim>\<open>Math.max(...values)\<close>: \<open>NaN\<close> as soon as one argument
  is \<open>NaN\<close>; otherwise the fold starts from \<open>+Infinity\<close> (from \<open>-Infinity\<close>), which is the
  result for no argument at all. Nothing is rounded.\<close>

definition Math_min :: "jsnum list \<Rightarrow> jsnum" where
  "Math_min values =
     (if NaN \<in> set values then NaN
      else foldl (\<lambda>lowest number. if js_lt number lowest then number else lowest) PosInf values)"

definition Math_max :: "jsnum list \<Rightarrow> jsnum" where
  "Math_max values =
     (if NaN \<in> set values then NaN
      else foldl (\<lambda>highest number. if js_lt highest number then number else highest) NegInf values)"

text \<open>\<^verbatim>\<open>Math.pow(base, e)\<close> for an exponent that is a natural number. The program calls it
  with the exponent 2 only, where the engine returns the rounded product of the base
  with itself.\<close>

fun Math_pow :: "jsnum \<Rightarrow> nat \<Rightarrow> jsnum" where
  "Math_pow x 0 = Finite 1"
| "Math_pow (Finite a) e = round64 (a ^ e)"
| "Math_pow NaN e = NaN"
| "Math_pow PosInf e = PosInf"
| "Math_pow NegInf e = (if odd e then NegInf else PosInf)"

text \<open>\<^verbatim>\<open>Math.sqrt\<close>, correctly rounded.\<close>

fun Math_sqrt :: "jsnum \<Rightarrow> jsnum" where
  "Math_sqrt (Finite a) = (if a < 0 then NaN else round64 (sqrt a))"
| "Math_sqrt PosInf = PosInf"
| "Math_sqrt NegInf = NaN"
| "Math_sqrt NaN = NaN"

section \<open>The statistics calculator\<close>

text \<open>\<^verbatim>\<open>interface Stats { avg; min; max; sd }\<close>; the fields \<open>min\<close> and \<open>max\<close> carry
  a suffix here, their names being constants of the logic.\<close>

record Stats =
  avg :: jsnum
  min_stat :: jsnum
  max_stat :: jsnum
  sd :: jsnum

text \<open>\<^verbatim>\<open>calculateStats(values)\<close>: no guard on the length, no exception; the two
  \<^verbatim>\<open>reduce\<close> calls are left folds from \<open>0\<close>.\<close>

definition calculateStats :: "jsnum list \<Rightarrow> Stats" where
  "calculateStats values =
     (let n = Finite (real (length values));
          avg = js_div (foldl (\<lambda>a b. js_add a b) (Finite 0) values) n;
          min = Math_min values;
          max = Math_max values;
          variance =
            js_div (foldl (\<lambda>sum val. js_add sum (Math_pow (js_sub val avg) 2)) (Finite 0) values) n;
          sd = Math_sqrt variance
      in \<lparr>avg = avg, min_stat = min, max_stat = max, sd = sd\<rparr>)"

section \<open>Printing numbers\<close>

definition digitChar :: "nat \<Rightarrow> char" where
  "digitChar d = ''0123456789'' ! d"

text \<open>The decimal digits of a non-negative integer, most significant first; \<open>0\<close> is
  \<open>''0''\<close>.\<close>

fun natToString :: "nat \<Rightarrow> string" where
  "natToString n = (if n < 10 then [digitChar n] else natToString (n div 10) @ [digitChar (n mod 10)])"

declare natToString.simps [simp del]

text \<open>\<^verbatim>\<open>Number::toString\<close> at a finite value \<open>x\<close> of at least \<open>10^21\<close> (an integer, as every
  binary64 value from \<open>2^53\<close> on): scientific notation with the fewest significant digits
  that still read back as \<open>x\<close>. With \<open>n\<close> the number of digits of \<open>x\<close>, a digit string \<open>s\<close>
  of \<open>k\<close> digits stands for \<open>s * 10^(n - k)\<close>; \<open>k\<close> is the least length for which some \<open>s\<close>
  rounds to \<open>x\<close>, and of two such \<open>s\<close> the one nearer to \<open>x\<close> is taken. The power \<open>10^n\<close>
  itself, when it rounds to \<open>x\<close>, is the one-digit answer with the exponent \<open>n\<close>.\<close>

definition roundTrips :: "real \<Rightarrow> nat \<Rightarrow> nat \<Rightarrow> bool" where
  "roundTrips x s p = (round64 (real s * 10 ^ p) = Finite x)"

definition digitsOfLength :: "real \<Rightarrow> nat \<Rightarrow> nat \<Rightarrow> nat option" where
  "digitsOfLength x n k =
     (let p = n - k;
          y = x / 10 ^ p;
          lo = nat \<lfloor>y\<rfloor>;
          hi = lo + 1
      in if roundTrips x lo p then
           (if hi < 10 ^ k \<and> roundTrips x hi p \<and>
               (real hi - y < y - real lo \<or> real hi - y = y - real lo \<and> odd lo)
            then Some hi else Some lo)
         else if hi < 10 ^ k \<and> roundTrips x hi p then Some hi
         else None)"

fun firstDigits :: "real \<Rightarrow> nat \<Rightarrow> nat list \<Rightarrow> nat option" where
  "firstDigits x n [] = None"
| "firstDigits x n (k # ks) =
     (case digitsOfLength x n k of Some s \<Rightarrow> Some s | None \<Rightarrow> firstDigits x n ks)"

definition numberToStringLarge :: "real \<Rightarrow> string" where
  "numberToStringLarge x =
     (let n = length (natToString (nat \<lfloor>x\<rfloor>))
      in if roundTrips x 1 n then ''1e+'' @ natToString n
         else
           let s = (case firstDigits x n [1..<18] of Some s \<Rightarrow> s | None \<Rightarrow> nat \<lfloor>x\<rfloor>);
               ds = natToString s;
               e = ''e+'' @ natToString (n - 1)
           in if length ds = 1 then ds @ e else hd ds # CHR ''.'' # tl ds @ e)"

text \<open>\<^verbatim>\<open>x.toFixed(fractionDigits)\<close>, in the order of the language definition: the range
  check on \<open>fractionDigits\<close> (the only exception), the non-finite values, the sign, the
  switch to \<^verbatim>\<open>Number::toString\<close> at \<open>10^21\<close>, and otherwise the integer \<open>n\<close> with
  \<open>n / 10^f\<close> nearest to \<open>x\<close> (the larger one of two), printed with \<open>f\<close> digits after the
  point, zero-padded on the left up to \<open>f + 1\<close> digits. The integer \<open>n\<close> is found from the
  exact value of \<open>x\<close>; nothing is rounded to binary64 here.\<close>

definition toFixedDigits :: "real \<Rightarrow> nat \<Rightarrow> string" where
  "toFixedDigits x f =
     (let n = nat \<lfloor>x * 10 ^ f + 1 / 2\<rfloor>;
          m = natToString n
      in if f = 0 then m
         else
           let m' = (if length m \<le> f then replicate (f + 1 - length m) CHR ''0'' @ m else m);
               k = length m'
           in take (k - f) m' @ ''.'' @ drop (k - f) m')"

definition toFixed :: "jsnum \<Rightarrow> nat \<Rightarrow> jserror + string" where
  "toFixed x fractionDigits =
     (if fractionDigits > 100 then Inl RangeError
      else case x of
        NaN \<Rightarrow> Inr ''NaN''
      | PosInf \<Rightarrow> Inr ''Infinity''
      | NegInf \<Rightarrow> Inr ''-Infinity''
      | Finite r \<Rightarrow>
          (let s = (if r < 0 then ''-'' else '''');
               x' = (if r < 0 then - r else r)
           in if x' \<ge> 10 ^ 21 then Inr (s @ numberToStringLarge x')
              else Inr (s @ toFixedDigits x' fractionDigits)))"

section \<open>Formatting a duration\<close>

text \<open>A template literal \<^verbatim>\<open>`${e}suffix`\<close> around a call that can throw.\<close>

definition withSuffix :: "jserror + string \<Rightarrow> string \<Rightarrow> jserror + string" where
  "withSuffix r suffix = (case r of Inl e \<Rightarrow> Inl e | Inr s \<Rightarrow> Inr (s @ suffix))"

definition formatDuration :: "jsnum \<Rightarrow> jserror + string" where
  "formatDuration ms =
     (if js_ge ms (Finite 1000) then withSuffix (toFixed (js_div ms (Finite 1000)) 2) ''s''
      else withSuffix (toFixed ms 0) ''ms'')"

section \<open>The insights of the benchmark runner\<close>

text \<open>The object \<^verbatim>\<open>stats\<close> of \<^verbatim>\<open>runBenchmark\<close>, with its four keys in the order of the
  object literal, and \<^verbatim>\<open>Object.entries(stats)\<close>.\<close>

record BenchStats =
  Lightweight :: Stats
  Medium :: Stats
  Heavy :: Stats
  Total :: Stats

definition entries :: "BenchStats \<Rightarrow> (string \<times> Stats) list" where
  "entries stats =
     [(''Lightweight'', Lightweight stats), (''Medium'', Medium stats),
      (''Heavy'', Heavy stats), (''Total'', Total stats)]"

text \<open>The multiplier of the first insight line,
  \<^verbatim>\<open>`${(stats.Heavy.avg / stats.Lightweight.avg).toFixed(1)}x faster than Heavy queries`\<close>,
  up to and including the \<open>x\<close>.\<close>

definition insightRatio :: "BenchStats \<Rightarrow> jserror + string" where
  "insightRatio stats =
     withSuffix (toFixed (js_div (avg (Heavy stats)) (avg (Lightweight stats))) 1) ''x''"

text \<open>The percentage of the second insight line,
  \<^verbatim>\<open>`${((stats.Heavy.sd / stats.Heavy.avg) * 100).toFixed(1)}%`\<close>.\<close>

definition insightHeavyCV :: "BenchStats \<Rightarrow> jserror + string" where
  "insightHeavyCV stats =
     withSuffix (toFixed (js_mul (js_div (sd (Heavy stats)) (avg (Heavy stats))) (Finite 100)) 1) ''%''"

text \<open>\<^verbatim>\<open>mostConsistentKey\<close>, as a function of the entries it filters: the \<^verbatim>\<open>reduce\<close>
  starts from \<^verbatim>\<open>filtered[0]\<close> and visits every element of \<^verbatim>\<open>filtered\<close>, the first one
  included. The quotient \<^verbatim>\<open>sd / avg\<close> it compares is the rounded one.\<close>

definition cv :: "string \<times> Stats \<Rightarrow> jsnum" where
  "cv entry = js_div (sd (snd entry)) (avg (snd entry))"

definition mostConsistentKey :: "(string \<times> Stats) list \<Rightarrow> string" where
  "mostConsistentKey es =
     (let filtered = filter (\<lambda>(key, _). key \<noteq> ''Total'') es
      in case filtered of
           [] \<Rightarrow> ''N/A''
         | first # _ \<Rightarrow>
             fst (foldl (\<lambda>min cur. if js_lt (cv cur) (cv min) then cur else min) first filtered))"

section \<open>The vocabulary of the specification\<close>

text \<open>The \<^verbatim>\<open><=\<close> of the language, false as soon as one side is \<open>NaN\<close>.\<close>

definition js_le :: "jsnum \<Rightarrow> jsnum \<Rightarrow> bool" where
  "js_le x y = (x = y \<and> x \<noteq> NaN \<or> js_lt x y)"

text \<open>Durations as the program collects them: whole numbers of milliseconds, the
  differences of two readings of the clock.\<close>

definition integerDurations :: "nat list \<Rightarrow> jsnum list" where
  "integerDurations ks = map (\<lambda>k. Finite (real k)) ks"

text \<open>The statistics as the specification words them, over the reals: the arithmetic
  mean and the population variance (the mean of the squared deviations from the mean, the
  divisor being the number of values), whose square root is the population standard
  deviation.\<close>

definition arithmeticMean :: "real list \<Rightarrow> real" where
  "arithmeticMean xs = sum_list xs / real (length xs)"


text \<open>A decimal numeral with exactly \<open>f\<close> digits after the point (no point at all when
  \<open>f = 0\<close>) and at least one digit before it, without a leading zero unless that digit
  is the only one; and the number it denotes.\<close>

definition isDigit :: "char \<Rightarrow> bool" where
  "isDigit c = (c \<in> set ''0123456789'')"

definition digitsValue :: "string \<Rightarrow> nat" where
  "digitsValue ds = foldl (\<lambda>a c. 10 * a + (of_char c - 48)) 0 ds"

definition hasFixedShape :: "nat \<Rightarrow> string \<Rightarrow> bool" where
  "hasFixedShape f s =
     (let ip = takeWhile isDigit s; rest = dropWhile isDigit s
      in ip \<noteq> [] \<and> (length ip = 1 \<or> hd ip \<noteq> CHR ''0'') \<and>
         (if f = 0 then rest = []
          else rest \<noteq> [] \<and> hd rest = CHR ''.'' \<and> length (tl rest) = f \<and> list_all isDigit (tl rest)))"

definition fixedValue :: "nat \<Rightarrow> string \<Rightarrow> real" where
  "fixedValue f s = real (digitsValue (filter isDigit s)) / 10 ^ f"

section \<open>Nearest integers and the spacing of the binary64 values\<close>

lemma roundHalfEven_of_int: "roundHalfEven (of_int k) = k"
  by (simp add: roundHalfEven_def)

lemma roundHalfEven_ge: "of_int k \<le> y \<Longrightarrow> k \<le> roundHalfEven y"
proof -
  assume "of_int k \<le> y"
  then have "k \<le> \<lfloor>y\<rfloor>"
    by (simp add: le_floor_iff)
  then show ?thesis
    by (auto simp: roundHalfEven_def Let_def)
qed

lemma roundHalfEven_le: "y \<le> of_int k \<Longrightarrow> roundHalfEven y \<le> k"
proof -
  assume y: "y \<le> of_int k"
  show ?thesis
  proof (cases "y = of_int k")
    case True
    then show ?thesis by (simp add: roundHalfEven_of_int)
  next
    case False
    with y have "y < of_int k" by simp
    then have "\<lfloor>y\<rfloor> < k"
      by (simp add: floor_less_iff)
    then have "\<lfloor>y\<rfloor> + 1 \<le> k" by simp
    then show ?thesis
      by (auto simp: roundHalfEven_def Let_def)
  qed
qed

lemma roundHalfEven_error: "\<bar>y - of_int (roundHalfEven y)\<bar> \<le> 1 / 2"
proof -
  define f where "f = \<lfloor>y\<rfloor>"
  have "of_int f \<le> y" "y < of_int f + 1"
    unfolding f_def by linarith+
  then show ?thesis
    unfolding roundHalfEven_def Let_def f_def [symmetric]
    by (auto simp: abs_if)
qed

text \<open>ulp\<close>

lemma ulp64_pos: "0 < ulp64 a"
  by (simp add: ulp64_def)

lemma ulp64_normal:
  assumes "2 powr real_of_int e \<le> a" and "a < 2 powr (real_of_int e + 1)" and "- 1022 \<le> e"
  shows "ulp64 a = 2 powr (real_of_int e - 52)"
proof -
  have "0 < a"
    using assms(1) by (rule less_le_trans [rotated]) simp
  then have "\<lfloor>log 2 a\<rfloor> = e"
    using assms by (simp add: floor_log_eq_powr_iff)
  then show ?thesis
    using assms(3) by (simp add: ulp64_def max_def)
qed

lemma ulp64_subnormal:
  assumes "0 < a" and "a < 2 powr (- 1022)"
  shows "ulp64 a = 2 powr (- 1074)"
proof -
  have "log 2 a < - 1022"
    using assms by (simp add: log_less_iff)
  then have "\<lfloor>log 2 a\<rfloor> < - 1022"
    by (simp add: floor_less_iff)
  then show ?thesis
    by (simp add: ulp64_def max_def)
qed

lemma ulp64_cases:
  assumes "0 < a"
  obtains t :: int where "ulp64 a = 2 powr real_of_int t" and "- 1074 \<le> t"
    and "a / ulp64 a < 2 ^ 53" and "2 ^ 52 \<le> a / ulp64 a \<or> t = - 1074"
proof (cases "a < 2 powr (- 1022)")
  case True
  have u: "ulp64 a = 2 powr real_of_int (- 1074)"
    using ulp64_subnormal [OF assms True] by simp
  have "a / 2 powr (- 1074) < 2 powr (- 1022) / 2 powr (- 1074)"
    using True by (simp add: divide_strict_right_mono)
  also have "\<dots> = 2 powr 52"
    by (simp flip: powr_diff)
  finally have "a / ulp64 a < 2 ^ 53"
    using u by (simp add: powr_numeral) 
  with u show ?thesis
    using that [of "- 1074"] by simp
next
  case False
  define e where "e = \<lfloor>log 2 a\<rfloor>"
  have b: "2 powr real_of_int e \<le> a" "a < 2 powr (real_of_int e + 1)"
    using assms floor_log_eq_powr_iff [of a 2 e] by (simp_all add: e_def)
  have "2 powr (- 1022) < 2 powr (real_of_int e + 1)"
    using False b(2) by linarith
  then have "- 1022 < real_of_int e + 1"
    by (simp only: powr_less_cancel_iff one_less_numeral_iff semiring_norm)
  then have e: "- 1022 \<le> e"
    by linarith
  have u: "ulp64 a = 2 powr real_of_int (e - 52)"
    using ulp64_normal [OF b e] by simp
  have "a / ulp64 a < 2 powr (real_of_int e + 1) / 2 powr (real_of_int e - 52)"
    using b(2) u by (simp add: divide_strict_right_mono)
  also have "\<dots> = 2 powr 53"
    by (simp flip: powr_diff)
  finally have hi: "a / ulp64 a < 2 ^ 53"
    by (simp add: powr_numeral)
  have "2 powr real_of_int e / 2 powr (real_of_int e - 52) \<le> a / ulp64 a"
    using b(1) u by (simp add: divide_right_mono)
  moreover have "2 powr real_of_int e / 2 powr (real_of_int e - 52) = 2 powr 52"
    by (simp flip: powr_diff)
  ultimately have lo: "2 ^ 52 \<le> a / ulp64 a"
    by (simp add: powr_numeral)
  from u e hi lo show ?thesis
    using that [of "e - 52"] by simp
qed

lemma ulp64_below_2_53:
  assumes "0 < a" and "a < 2 ^ 53"
  obtains j :: nat where "ulp64 a = 1 / 2 ^ j"
proof -
  obtain t :: int where u: "ulp64 a = 2 powr real_of_int t" and "- 1074 \<le> t"
    and "a / ulp64 a < 2 ^ 53" and c: "2 ^ 52 \<le> a / ulp64 a \<or> t = - 1074"
    using ulp64_cases [OF assms(1)] by blast
  have "t \<le> 0"
  proof (rule ccontr)
    assume "\<not> t \<le> 0"
    then have t: "1 \<le> t" by simp
    with c have "2 ^ 52 \<le> a / ulp64 a" by auto
    then have "2 ^ 52 * 2 powr real_of_int t \<le> a"
      using u by (simp add: pos_le_divide_eq)
    moreover have "2 powr 1 \<le> 2 powr real_of_int t"
      using t by (intro powr_mono) simp_all
    then have "(2 :: real) ^ 52 * 2 \<le> 2 ^ 52 * 2 powr real_of_int t"
      by simp
    ultimately have "(2 :: real) ^ 52 * 2 \<le> a"
      by linarith
    with assms(2) show False by simp
  qed
  then have "real_of_int t = - real (nat (- t))"
    by simp
  then have "ulp64 a = 1 / 2 ^ nat (- t)"
    using u by (simp add: powr_minus_divide powr_realpow del: of_nat_nat)
  then show ?thesis
    using that by blast
qed

lemma ulp64_from_2_53:
  assumes "2 ^ 53 \<le> a"
  shows "2 \<le> ulp64 a" and "2 ^ 52 \<le> a / ulp64 a"
proof -
  have pos: "0 < a"
    using assms by (rule less_le_trans [rotated]) simp
  obtain t :: int where u: "ulp64 a = 2 powr real_of_int t" and "- 1074 \<le> t"
    and hi: "a / ulp64 a < 2 ^ 53" and c: "2 ^ 52 \<le> a / ulp64 a \<or> t = - 1074"
    using ulp64_cases [OF pos] by blast
  have "a < 2 ^ 53 * ulp64 a"
    using hi ulp64_pos [of a] by (simp add: pos_divide_less_eq)
  with assms have "2 ^ 53 * 1 < (2 :: real) ^ 53 * ulp64 a"
    by simp
  then have "1 < ulp64 a"
    by (simp only: mult_less_cancel_left_pos zero_less_power zero_less_numeral)
  then have "2 powr 0 < 2 powr real_of_int t"
    using u by simp
  then have "0 < real_of_int t"
    by (simp only: powr_less_cancel_iff one_less_numeral_iff semiring_norm)
  then have t: "1 \<le> t"
    by linarith
  then have "2 powr 1 \<le> 2 powr real_of_int t"
    by (intro powr_mono) simp_all
  then show "2 \<le> ulp64 a"
    using u by simp
  from c t show "2 ^ 52 \<le> a / ulp64 a"
    by auto
qed

section \<open>Rounding to binary64: integers are exact\<close>

lemma round64_zero: "round64 0 = Finite 0"
  by (simp add: round64_def)

lemma round64_pos:
  "0 < a \<Longrightarrow> round64 a =
     (if 2 ^ 1024 \<le> of_int (roundHalfEven (a / ulp64 a)) * ulp64 a then PosInf
      else Finite (of_int (roundHalfEven (a / ulp64 a)) * ulp64 a))"
  by (simp add: round64_def Let_def)


text \<open>Integers up to \<open>2^53\<close> are binary64 values.\<close>

lemma real_le_2_53: "n \<le> 2 ^ 53 \<Longrightarrow> real n \<le> 2 ^ 53"
proof -
  assume "n \<le> 2 ^ 53"
  then have "real n \<le> real (2 ^ 53)"
    by (simp only: of_nat_le_iff)
  then show ?thesis
    by simp
qed

lemma real_less_2_1024: "n \<le> 2 ^ 53 \<Longrightarrow> real n < 2 ^ 1024"
proof -
  assume "n \<le> 2 ^ 53"
  then have "real n \<le> 2 ^ 53"
    by (rule real_le_2_53)
  also have "(2 :: real) ^ 53 < 2 ^ 1024"
    by (rule power_strict_increasing) simp_all
  finally show ?thesis .
qed

lemma rounded_nat:
  assumes "0 < n" and "n \<le> 2 ^ 53"
  shows "of_int (roundHalfEven (real n / ulp64 (real n))) * ulp64 (real n) = real n"
proof (cases "real n = 2 ^ 53")
  case True
  have "ulp64 (2 ^ 53) = 2 powr (real_of_int 53 - 52)"
    by (rule ulp64_normal) (simp_all add: powr_numeral powr_add)
  then have u: "ulp64 (2 ^ 53) = 2"
    by simp
  have "(2 :: real) ^ 53 / 2 = of_int (2 ^ 52)"
    by simp
  then have "roundHalfEven (2 ^ 53 / 2) = 2 ^ 52"
    by (simp only: roundHalfEven_of_int)
  then have "of_int (roundHalfEven (2 ^ 53 / 2)) * 2 = (2 :: real) ^ 53"
    by simp
  then show ?thesis
    by (simp only: True u)
next
  case False
  with real_le_2_53 [OF assms(2)] have "real n < 2 ^ 53"
    by simp
  moreover have "0 < real n"
    using assms by simp
  ultimately obtain j :: nat where u: "ulp64 (real n) = 1 / 2 ^ j"
    using ulp64_below_2_53 by blast
  have "real n / (1 / 2 ^ j) = of_int (int n * 2 ^ j)"
    by simp
  then have "roundHalfEven (real n / (1 / 2 ^ j)) = int n * 2 ^ j"
    by (simp only: roundHalfEven_of_int)
  then show ?thesis
    by (simp add: u)
qed

lemma round64_nat: "n \<le> 2 ^ 53 \<Longrightarrow> round64 (real n) = Finite (real n)"
proof (cases "n = 0")
  case True
  then show ?thesis by (simp add: round64_zero)
next
  case False
  assume le: "n \<le> 2 ^ 53"
  from False have pos: "0 < n" by simp
  have "\<not> 2 ^ 1024 \<le> real n"
    using real_less_2_1024 [OF le] by simp
  then show ?thesis
    using pos by (simp only: round64_pos rounded_nat [OF pos le] of_nat_0_less_iff if_False)
qed


section \<open>Rounding does not cross an integer\<close>

lemma js_le_Finite [simp]: "js_le (Finite a) (Finite b) = (a \<le> b)"
  by (auto simp: js_le_def)

lemma js_le_PosInf [simp]: "js_le (Finite a) PosInf"
  by (simp add: js_le_def)

text \<open>Rounding does not cross an integer of magnitude up to \<open>2^53\<close>.\<close>

lemma round64_ge_nat:
  assumes "n \<le> 2 ^ 53" and "real n \<le> x"
  shows "js_le (Finite (real n)) (round64 x)"
proof (cases "x = 0")
  case True
  with assms(2) show ?thesis
    by (simp add: round64_zero)
next
  case False
  with assms(2) have pos: "0 < x"
    by (smt (verit) of_nat_0_le_iff)
  define m where "m = roundHalfEven (x / ulp64 x)"
  have "real n \<le> of_int m * ulp64 x"
  proof (cases "x < 2 ^ 53")
    case True
    then obtain j :: nat where u: "ulp64 x = 1 / 2 ^ j"
      using ulp64_below_2_53 [OF pos] by blast
    have "of_int (int n * 2 ^ j) \<le> x / ulp64 x"
      using assms(2) by (simp add: u)
    then have "int n * 2 ^ j \<le> m"
      unfolding m_def by (rule roundHalfEven_ge)
    then have "real_of_int (int n * 2 ^ j) \<le> of_int m"
      by (simp only: of_int_le_iff)
    then have "real n * 2 ^ j \<le> of_int m"
      by simp
    then show ?thesis
      by (simp add: u pos_le_divide_eq)
  next
    case False
    then have big: "2 ^ 53 \<le> x"
      by simp
    have "of_int (2 ^ 52) \<le> x / ulp64 x"
      using ulp64_from_2_53(2) [OF big] by simp
    then have "2 ^ 52 \<le> m"
      unfolding m_def by (rule roundHalfEven_ge)
    then have "real_of_int (2 ^ 52) \<le> of_int m"
      by (simp only: of_int_le_iff)
    then have "(2 :: real) ^ 52 \<le> of_int m"
      by simp
    then have "(2 :: real) ^ 52 * 2 \<le> of_int m * ulp64 x"
      using ulp64_from_2_53(1) [OF big] by (intro mult_mono) simp_all
    with real_le_2_53 [OF assms(1)] show ?thesis
      by simp
  qed
  then show ?thesis
    using pos by (simp add: round64_pos m_def)
qed

lemma round64_le_nat:
  assumes "n \<le> 2 ^ 53" and "0 \<le> x" and "x \<le> real n"
  shows "js_le (round64 x) (Finite (real n))"
proof (cases "x = 0")
  case True
  then show ?thesis
    by (simp add: round64_zero)
next
  case False
  with assms(2) have pos: "0 < x"
    by simp
  show ?thesis
  proof (cases "x < 2 ^ 53")
    case True
    define m where "m = roundHalfEven (x / ulp64 x)"
    obtain j :: nat where u: "ulp64 x = 1 / 2 ^ j"
      using ulp64_below_2_53 [OF pos True] by blast
    have "x / ulp64 x \<le> of_int (int n * 2 ^ j)"
      using assms(3) by (simp add: u)
    then have "m \<le> int n * 2 ^ j"
      unfolding m_def by (rule roundHalfEven_le)
    then have "of_int m \<le> real_of_int (int n * 2 ^ j)"
      by (simp only: of_int_le_iff)
    then have "of_int m \<le> real n * 2 ^ j"
      by simp
    then have le: "of_int m * ulp64 x \<le> real n"
      by (simp add: u pos_divide_le_eq)
    with real_less_2_1024 [OF assms(1)] have "\<not> 2 ^ 1024 \<le> of_int m * ulp64 x"
      by simp
    with le show ?thesis
      using pos by (simp add: round64_pos m_def)
  next
    case False
    with assms(3) real_le_2_53 [OF assms(1)] have "x = real n"
      by simp
    then show ?thesis
      using round64_nat [OF assms(1)] by simp
  qed
qed

text \<open>The rounding error is at most half a unit in the last place.\<close>

lemma round64_error:
  assumes "round64 x = Finite r" and "x \<noteq> 0"
  shows "\<bar>r - x\<bar> \<le> ulp64 \<bar>x\<bar> / 2"
proof -
  define a where "a = \<bar>x\<bar>"
  define m where "m = roundHalfEven (a / ulp64 a)"
  have pos: "0 < a"
    using assms(2) by (simp add: a_def)
  have "\<bar>a / ulp64 a - of_int m\<bar> \<le> 1 / 2"
    unfolding m_def by (rule roundHalfEven_error)
  then have "\<bar>a / ulp64 a - of_int m\<bar> * ulp64 a \<le> 1 / 2 * ulp64 a"
    using ulp64_pos [of a] by (intro mult_right_mono) simp_all
  moreover have "\<bar>a / ulp64 a - of_int m\<bar> * ulp64 a = \<bar>a - of_int m * ulp64 a\<bar>"
  proof -
    have "\<bar>a / ulp64 a - of_int m\<bar> * ulp64 a = \<bar>(a / ulp64 a - of_int m) * ulp64 a\<bar>"
      using ulp64_pos [of a] by (simp add: abs_mult)
    also have "(a / ulp64 a - of_int m) * ulp64 a = a - of_int m * ulp64 a"
      using ulp64_pos [of a] by (simp add: left_diff_distrib)
    finally show ?thesis .
  qed
  ultimately have e: "\<bar>a - of_int m * ulp64 a\<bar> \<le> ulp64 a / 2"
    by simp
  have "r = (if x < 0 then - (of_int m * ulp64 a) else of_int m * ulp64 a)"
    using assms by (simp add: round64_def Let_def a_def m_def split: if_splits)
  with e show ?thesis
    by (auto simp: a_def abs_if split: if_splits)
qed

section \<open>Evaluating a rounding\<close>

lemma round64_minus: "round64 (- x) = js_neg (round64 x)"
proof (cases "x = 0")
  case True
  then show ?thesis by (simp add: round64_zero)
next
  case False
  then show ?thesis
    by (cases "x < 0") (simp_all add: round64_def Let_def)
qed

text \<open>Rounding a concrete value: the scaling that brings it into \<open>[2^52, 2^53)\<close> is given,
  the significand is rounded there.\<close>

lemma round64_scaled_up:
  assumes "0 < a" and "j \<le> 1074" and "2 ^ 52 \<le> a * 2 ^ j" and "a * 2 ^ j < 2 ^ 53"
  shows "round64 a = Finite (of_int (roundHalfEven (a * 2 ^ j)) / 2 ^ j)"
proof -
  have p: "2 powr real_of_int (52 - int j) = 2 ^ 52 / 2 ^ j"
    by (simp add: powr_diff powr_realpow)
  have q: "2 powr (real_of_int (52 - int j) + 1) = 2 ^ 53 / 2 ^ j"
    by (simp add: powr_diff powr_add powr_realpow)
  have "ulp64 a = 2 powr (real_of_int (52 - int j) - 52)"
  proof (rule ulp64_normal)
    show "2 powr real_of_int (52 - int j) \<le> a"
      unfolding p using assms(3) by (simp add: pos_divide_le_eq)
    show "a < 2 powr (real_of_int (52 - int j) + 1)"
      unfolding q using assms(4) by (simp add: pos_less_divide_eq)
    show "- 1022 \<le> 52 - int j"
      using assms(2) by simp
  qed
  also have "\<dots> = 1 / 2 ^ j"
    by (simp add: powr_minus_divide powr_realpow)
  finally have u: "ulp64 a = 1 / 2 ^ j" .
  define m where "m = roundHalfEven (a * 2 ^ j)"
  have "a * 2 ^ j \<le> of_int (2 ^ 53)"
    using assms(4) by simp
  then have "m \<le> 2 ^ 53"
    unfolding m_def by (rule roundHalfEven_le)
  then have "real_of_int m \<le> real_of_int (2 ^ 53)"
    by (simp only: of_int_le_iff)
  then have "real_of_int m \<le> 2 ^ 53"
    by simp
  moreover have "(1 :: real) \<le> 2 ^ j"
    by simp
  ultimately have "real_of_int m / 2 ^ j \<le> 2 ^ 53"
    by (smt (verit) divide_le_eq_1_pos frac_le zero_less_power div_by_1)
  also have "(2 :: real) ^ 53 < 2 ^ 1024"
    by (rule power_strict_increasing) simp_all
  finally have "\<not> 2 ^ 1024 \<le> real_of_int m / 2 ^ j"
    by simp
  then show ?thesis
    using assms(1) by (simp add: round64_pos u m_def)
qed

lemma round64_scaled_down:
  assumes "0 < a" and "j \<le> 971" and "2 ^ 52 \<le> a / 2 ^ j" and "a / 2 ^ j < 2 ^ 53"
    and "of_int (roundHalfEven (a / 2 ^ j)) * 2 ^ j < (2 :: real) ^ 1024"
  shows "round64 a = Finite (of_int (roundHalfEven (a / 2 ^ j)) * 2 ^ j)"
proof -
  have p: "2 powr real_of_int (52 + int j) = 2 ^ 52 * 2 ^ j"
    by (simp add: powr_add powr_realpow)
  have q: "2 powr (real_of_int (52 + int j) + 1) = 2 ^ 53 * 2 ^ j"
    by (simp add: powr_add powr_realpow)
  have "ulp64 a = 2 powr (real_of_int (52 + int j) - 52)"
  proof (rule ulp64_normal)
    show "2 powr real_of_int (52 + int j) \<le> a"
      unfolding p using assms(3) by (simp add: pos_le_divide_eq)
    show "a < 2 powr (real_of_int (52 + int j) + 1)"
      unfolding q using assms(4) by (simp add: pos_divide_less_eq)
    show "- 1022 \<le> 52 + int j"
      by simp
  qed
  also have "\<dots> = 2 ^ j"
    by (simp add: powr_realpow)
  finally have u: "ulp64 a = 2 ^ j" .
  show ?thesis
    using assms(1, 5) by (simp add: round64_pos u)
qed

section \<open>Decimal digits and fixed notation\<close>

lemma digitChar_cases:
  assumes "d < 10"
  shows "isDigit (digitChar d)" and "of_char (digitChar d) = (48 :: nat) + d"
proof -
  from assms have "d \<in> {0, 1, 2, 3, 4, 5, 6, 7, 8, 9}"
    by auto
  then show "isDigit (digitChar d)" and "of_char (digitChar d) = (48 :: nat) + d"
    by (auto simp: digitChar_def isDigit_def)
qed

lemma natToString_nonempty: "natToString n \<noteq> []"
  by (subst natToString.simps) simp

lemma natToString_digits: "list_all isDigit (natToString n)"
proof (induction n rule: natToString.induct)
  case (1 n)
  show ?case
  proof (cases "n < 10")
    case True
    then show ?thesis
      by (subst natToString.simps) (simp add: digitChar_cases)
  next
    case False
    with 1 show ?thesis
      by (subst natToString.simps) (simp add: digitChar_cases)
  qed
qed

lemma digitsValue_snoc: "digitsValue (ds @ [c]) = 10 * digitsValue ds + (of_char c - 48)"
  by (simp add: digitsValue_def)

lemma digitsValue_natToString: "digitsValue (natToString n) = n"
proof (induction n rule: natToString.induct)
  case (1 n)
  show ?case
  proof (cases "n < 10")
    case True
    then show ?thesis
      by (subst natToString.simps) (simp add: digitsValue_def digitChar_cases)
  next
    case False
    with 1 show ?thesis
      by (subst natToString.simps) (simp add: digitsValue_snoc digitChar_cases)
  qed
qed

lemma foldl_zeros:
  "foldl (\<lambda>a c. 10 * a + (of_char c - 48)) (0 :: nat) (replicate z CHR ''0'') = 0"
  by (induction z) simp_all

lemma digitsValue_zeros: "digitsValue (replicate z CHR ''0'' @ ds) = digitsValue ds"
  by (simp add: digitsValue_def foldl_zeros)

lemma isDigit_zero: "isDigit CHR ''0''"
  by (simp add: isDigit_def)

lemma not_isDigit_point: "\<not> isDigit CHR ''.''"
  by (simp add: isDigit_def)

lemma filter_digits: "list_all isDigit ds \<Longrightarrow> filter isDigit ds = ds"
  by (induction ds) simp_all

lemma natToString_zero: "natToString 0 = ''0''"
  by (simp add: natToString.simps digitChar_def)

lemma digitChar_not_zero: "0 < d \<Longrightarrow> d < 10 \<Longrightarrow> digitChar d \<noteq> CHR ''0''"
proof -
  assume "0 < d" and "d < 10"
  then have "d \<in> {1, 2, 3, 4, 5, 6, 7, 8, 9}"
    by auto
  then show ?thesis
    by (auto simp: digitChar_def)
qed

lemma natToString_leading: "0 < n \<Longrightarrow> hd (natToString n) \<noteq> CHR ''0''"
proof (induction n rule: natToString.induct)
  case (1 n)
  show ?case
  proof (cases "n < 10")
    case True
    with "1.prems" show ?thesis
      by (subst natToString.simps) (simp add: digitChar_not_zero)
  next
    case False
    then have "0 < n div 10"
      by simp
    with 1 False have "hd (natToString (n div 10)) \<noteq> CHR ''0''"
      by simp
    with False show ?thesis
      by (subst natToString.simps) (simp add: natToString_nonempty)
  qed
qed

lemma natToString_no_leading_zero:
  "length (natToString n) = 1 \<or> hd (natToString n) \<noteq> CHR ''0''"
  by (cases "n = 0") (simp_all add: natToString_zero natToString_leading)

text \<open>The numeral built from a digit string of more than \<open>f\<close> digits by a point before the
  last \<open>f\<close> ones.\<close>

lemma point_filter:
  assumes "list_all isDigit m"
  shows "filter isDigit (take k m @ ''.'' @ drop k m) = m"
proof -
  have "list_all isDigit (take k m)" and "list_all isDigit (drop k m)"
    using assms by (auto simp: list_all_iff dest: in_set_takeD in_set_dropD)
  then have "filter isDigit (take k m @ ''.'' @ drop k m) = take k m @ drop k m"
    by (simp add: filter_digits not_isDigit_point)
  then show ?thesis
    by simp
qed

lemma point_shape:
  assumes "list_all isDigit m" and "f < length m" and "f \<noteq> 0"
    and "length m - f = 1 \<or> hd m \<noteq> CHR ''0''"
  shows "hasFixedShape f (take (length m - f) m @ ''.'' @ drop (length m - f) m)"
proof -
  let ?a = "take (length m - f) m" and ?b = "drop (length m - f) m"
  have a: "list_all isDigit ?a" and b: "list_all isDigit ?b"
    using assms(1) by (auto simp: list_all_iff dest: in_set_takeD in_set_dropD)
  have ne: "?a \<noteq> []"
    using assms(2) by auto
  have tw: "takeWhile isDigit (?a @ ''.'' @ ?b) = ?a"
    using a by (simp add: takeWhile_append2 list_all_iff not_isDigit_point)
  have dw: "dropWhile isDigit (?a @ ''.'' @ ?b) = ''.'' @ ?b"
    using a by (simp add: dropWhile_append2 list_all_iff not_isDigit_point)
  have len: "length ?b = f"
    using assms(2) by simp
  have "hd ?a = hd m"
    using assms(2) by (cases m) (simp_all add: take_Cons')
  moreover have "length ?a = length m - f"
    by simp
  ultimately have lead: "length ?a = 1 \<or> hd ?a \<noteq> CHR ''0''"
    using assms(4) by metis
  show "hasFixedShape f (?a @ ''.'' @ ?b)"
    unfolding hasFixedShape_def Let_def tw dw
    using ne b len assms(3) lead by simp
qed

lemma whole_shape:
  assumes "list_all isDigit m" and "m \<noteq> []" and "length m = 1 \<or> hd m \<noteq> CHR ''0''"
  shows "hasFixedShape 0 m"
proof -
  have tw: "takeWhile isDigit m = m" and dw: "dropWhile isDigit m = []"
    using assms(1) by (simp_all add: list_all_iff)
  show ?thesis
    unfolding hasFixedShape_def Let_def tw dw
    using assms(2, 3) by simp
qed

lemma toFixedDigits_shape: "hasFixedShape f (toFixedDigits x f)"
proof (cases "f = 0")
  case True
  have "hasFixedShape 0 (natToString (nat \<lfloor>x * 10 ^ f + 1 / 2\<rfloor>))"
    by (rule whole_shape [OF natToString_digits natToString_nonempty natToString_no_leading_zero])
  then show ?thesis
    using True by (simp add: toFixedDigits_def)
next
  case False
  define m where "m = natToString (nat \<lfloor>x * 10 ^ f + 1 / 2\<rfloor>)"
  define m' where "m' = (if length m \<le> f then replicate (f + 1 - length m) CHR ''0'' @ m else m)"
  have d: "list_all isDigit m'"
    using natToString_digits [of "nat \<lfloor>x * 10 ^ f + 1 / 2\<rfloor>"]
    by (simp add: m'_def m_def isDigit_zero list_all_iff)
  have l: "f < length m'"
    by (auto simp: m'_def)
  have lead: "length m' - f = 1 \<or> hd m' \<noteq> CHR ''0''"
  proof (cases "length m \<le> f")
    case True
    then have "length m' = f + 1"
      by (simp add: m'_def)
    then show ?thesis by simp
  next
    case long: False
    then have same: "m' = m"
      by (simp add: m'_def)
    have "length m = 1 \<or> hd m \<noteq> CHR ''0''"
      unfolding m_def by (rule natToString_no_leading_zero)
    then show ?thesis
    proof
      assume "length m = 1"
      with long False show ?thesis by simp
    next
      assume "hd m \<noteq> CHR ''0''"
      then show ?thesis by (simp add: same)
    qed
  qed
  have "toFixedDigits x f = take (length m' - f) m' @ ''.'' @ drop (length m' - f) m'"
    using False by (simp add: toFixedDigits_def Let_def m'_def m_def)
  with point_shape [OF d l False lead] show ?thesis
    by simp
qed

lemma toFixedDigits_value:
  "fixedValue f (toFixedDigits x f) = real (nat \<lfloor>x * 10 ^ f + 1 / 2\<rfloor>) / 10 ^ f"
proof (cases "f = 0")
  case True
  then show ?thesis
    by (simp add: toFixedDigits_def fixedValue_def filter_digits natToString_digits
        digitsValue_natToString)
next
  case False
  define m where "m = natToString (nat \<lfloor>x * 10 ^ f + 1 / 2\<rfloor>)"
  define m' where "m' = (if length m \<le> f then replicate (f + 1 - length m) CHR ''0'' @ m else m)"
  have d: "list_all isDigit m'"
    using natToString_digits [of "nat \<lfloor>x * 10 ^ f + 1 / 2\<rfloor>"]
    by (simp add: m'_def m_def isDigit_zero list_all_iff)
  have l: "f < length m'"
    by (auto simp: m'_def)
  have fi: "filter isDigit (take (length m' - f) m' @ ''.'' @ drop (length m' - f) m') = m'"
    by (rule point_filter [OF d])
  have v: "digitsValue m' = nat \<lfloor>x * 10 ^ f + 1 / 2\<rfloor>"
    by (simp add: m'_def m_def digitsValue_zeros digitsValue_natToString)
  have "toFixedDigits x f = take (length m' - f) m' @ ''.'' @ drop (length m' - f) m'"
    using False by (simp add: toFixedDigits_def Let_def m'_def m_def)
  with fi v show ?thesis
    by (simp add: fixedValue_def)
qed

text \<open>The numeral printed is a nearest one.\<close>

lemma toFixedDigits_nearest:
  assumes "0 \<le> x"
  shows "\<bar>fixedValue f (toFixedDigits x f) - x\<bar> \<le> 1 / (2 * 10 ^ f)"
proof -
  define y where "y = x * 10 ^ f"
  define n where "n = \<lfloor>y + 1 / 2\<rfloor>"
  have "0 \<le> y"
    using assms by (simp add: y_def)
  then have "0 \<le> n"
    by (simp add: n_def)
  then have v: "fixedValue f (toFixedDigits x f) = of_int n / 10 ^ f"
    by (simp add: toFixedDigits_value n_def y_def)
  have "of_int n \<le> y + 1 / 2" "y + 1 / 2 < of_int n + 1"
    unfolding n_def by linarith+
  then have "\<bar>of_int n - y\<bar> \<le> 1 / 2"
    by (simp add: abs_if)
  then have "\<bar>of_int n - y\<bar> / 10 ^ f \<le> (1 / 2) / 10 ^ f"
    by (intro divide_right_mono) simp_all
  moreover have "\<bar>of_int n - y\<bar> / 10 ^ f = \<bar>of_int n / 10 ^ f - x\<bar>"
  proof -
    have "\<bar>of_int n - y\<bar> / 10 ^ f = \<bar>(of_int n - y) / 10 ^ f\<bar>"
      by simp
    also have "(of_int n - y) / 10 ^ f = of_int n / 10 ^ f - x"
      by (simp add: y_def diff_divide_distrib)
    finally show ?thesis .
  qed
  ultimately show ?thesis
    by (simp add: v)
qed

section \<open>Folds over finite values\<close>

lemma NaN_notin_Finite: "NaN \<notin> set (map Finite xs)"
  by auto

lemma foldl_lowest_Finite:
  "foldl (\<lambda>lowest number. if js_lt number lowest then number else lowest) (Finite a) (map Finite xs)
     = Finite (fold min xs a)"
proof (induction xs arbitrary: a)
  case Nil
  show ?case by simp
next
  case (Cons x xs)
  have "(if x < a then x else a) = min x a"
    by (simp add: min_def)
  with Cons show ?case by simp
qed

lemma foldl_highest_Finite:
  "foldl (\<lambda>highest number. if js_lt highest number then number else highest) (Finite a) (map Finite xs)
     = Finite (fold max xs a)"
proof (induction xs arbitrary: a)
  case Nil
  show ?case by simp
next
  case (Cons x xs)
  have "(if a < x then x else a) = max x a"
    by (simp add: max_def)
  with Cons show ?case by simp
qed

lemma Math_min_Finite: "xs \<noteq> [] \<Longrightarrow> Math_min (map Finite xs) = Finite (Min (set xs))"
proof (cases xs)
  case Nil
  assume "xs \<noteq> []"
  with Nil show ?thesis by simp
next
  case (Cons x ys)
  have "Math_min (map Finite xs)
      = foldl (\<lambda>lowest number. if js_lt number lowest then number else lowest) PosInf (map Finite xs)"
    unfolding Math_min_def using NaN_notin_Finite [of xs] by simp
  also have "\<dots> = Finite (fold min ys x)"
    by (simp add: Cons foldl_lowest_Finite)
  also have "fold min ys x = Min (set xs)"
    by (simp only: Cons Min.set_eq_fold)
  finally show ?thesis .
qed

lemma Math_max_Finite: "xs \<noteq> [] \<Longrightarrow> Math_max (map Finite xs) = Finite (Max (set xs))"
proof (cases xs)
  case Nil
  assume "xs \<noteq> []"
  with Nil show ?thesis by simp
next
  case (Cons x ys)
  have "Math_max (map Finite xs)
      = foldl (\<lambda>highest number. if js_lt highest number then number else highest) NegInf (map Finite xs)"
    unfolding Math_max_def using NaN_notin_Finite [of xs] by simp
  also have "\<dots> = Finite (fold max ys x)"
    by (simp add: Cons foldl_highest_Finite)
  also have "fold max ys x = Max (set xs)"
    by (simp only: Cons Max.set_eq_fold)
  finally show ?thesis .
qed

lemma sum_list_le_length_times:
  "(\<And>x. x \<in> set xs \<Longrightarrow> x \<le> M) \<Longrightarrow> sum_list xs \<le> real (length xs) * M" for M :: real
  by (induction xs) (simp_all add: algebra_simps add_mono)

lemma sum_list_ge_length_times:
  "(\<And>x. x \<in> set xs \<Longrightarrow> m \<le> x) \<Longrightarrow> real (length xs) * m \<le> sum_list xs" for m :: real
  by (induction xs) (simp_all add: algebra_simps add_mono)

lemma arithmeticMean_bounds:
  assumes "xs \<noteq> []"
  shows "Min (set xs) \<le> arithmeticMean xs" and "arithmeticMean xs \<le> Max (set xs)"
proof -
  have n: "0 < real (length xs)"
    using assms by simp
  have "real (length xs) * Min (set xs) \<le> sum_list xs"
    by (rule sum_list_ge_length_times) simp
  then show "Min (set xs) \<le> arithmeticMean xs"
    using n by (simp add: arithmeticMean_def pos_le_divide_eq mult.commute)
  have "sum_list xs \<le> real (length xs) * Max (set xs)"
    by (rule sum_list_le_length_times) simp
  then show "arithmeticMean xs \<le> Max (set xs)"
    using n by (simp add: arithmeticMean_def pos_divide_le_eq mult.commute)
qed


text \<open>The fields of the record, one by one.\<close>

lemma avg_calculateStats:
  "avg (calculateStats vs) = js_div (foldl (\<lambda>a b. js_add a b) (Finite 0) vs) (Finite (real (length vs)))"
  by (simp add: calculateStats_def Let_def)

lemma min_calculateStats: "min_stat (calculateStats vs) = Math_min vs"
  by (simp add: calculateStats_def Let_def)

lemma max_calculateStats: "max_stat (calculateStats vs) = Math_max vs"
  by (simp add: calculateStats_def Let_def)

lemma sd_calculateStats:
  "sd (calculateStats vs) =
     Math_sqrt (js_div (foldl (\<lambda>sum val. js_add sum (Math_pow (js_sub val (avg (calculateStats vs))) 2))
        (Finite 0) vs) (Finite (real (length vs))))"
  by (simp add: calculateStats_def Let_def)

text \<open>Sums of integers stay exact up to \<open>2^53\<close>.\<close>

lemma foldl_js_add_nat:
  "a + sum_list ks \<le> 2 ^ 53 \<Longrightarrow>
     foldl (\<lambda>a b. js_add a b) (Finite (real a)) (map (\<lambda>k. Finite (real k)) ks)
       = Finite (real (a + sum_list ks))"
proof (induction ks arbitrary: a)
  case Nil
  show ?case by simp
next
  case (Cons k ks)
  have "a + k \<le> 2 ^ 53"
    using Cons.prems by simp
  then have "round64 (real (a + k)) = Finite (real (a + k))"
    by (rule round64_nat)
  then have step: "js_add (Finite (real a)) (Finite (real k)) = Finite (real (a + k))"
    by simp
  have "(a + k) + sum_list ks \<le> 2 ^ 53"
    using Cons.prems by (simp add: add.assoc)
  then have "foldl (\<lambda>a b. js_add a b) (Finite (real (a + k))) (map (\<lambda>k. Finite (real k)) ks)
      = Finite (real ((a + k) + sum_list ks))"
    by (rule Cons.IH)
  then show ?case
    by (simp only: list.map foldl_Cons step sum_list.Cons add.assoc)
qed

lemma sum_integerDurations:
  "sum_list ks \<le> 2 ^ 53 \<Longrightarrow>
     foldl (\<lambda>a b. js_add a b) (Finite 0) (integerDurations ks) = Finite (real (sum_list ks))"
  using foldl_js_add_nat [of 0 ks] by (simp add: integerDurations_def)

lemma integerDurations_map: "integerDurations ks = map Finite (map real ks)"
  by (simp add: integerDurations_def)

lemma avg_integerDurations:
  assumes "ks \<noteq> []" and "sum_list ks \<le> 2 ^ 53"
  shows "avg (calculateStats (integerDurations ks)) = round64 (arithmeticMean (map real ks))"
proof -
  have "real (sum_list ks) = sum_list (map real ks)"
    by (induction ks) simp_all
  then show ?thesis
    using assms by (simp add: avg_calculateStats sum_integerDurations arithmeticMean_def)
      (simp add: integerDurations_def)
qed

section \<open>Integer durations\<close>

lemma Min_real: "ks \<noteq> [] \<Longrightarrow> Min (set (map real ks)) = real (Min (set ks))"
  by (simp add: mono_Min_commute [symmetric] mono_def)

lemma Max_real: "ks \<noteq> [] \<Longrightarrow> Max (set (map real ks)) = real (Max (set ks))"
  by (simp add: mono_Max_commute [symmetric] mono_def)

lemma min_integerDurations:
  "ks \<noteq> [] \<Longrightarrow> min_stat (calculateStats (integerDurations ks)) = Finite (real (Min (set ks)))"
  using Math_min_Finite [of "map real ks"]
  by (simp add: min_calculateStats integerDurations_map Min_real del: map_map set_map)

lemma max_integerDurations:
  "ks \<noteq> [] \<Longrightarrow> max_stat (calculateStats (integerDurations ks)) = Finite (real (Max (set ks)))"
  using Math_max_Finite [of "map real ks"]
  by (simp add: max_calculateStats integerDurations_map Max_real del: map_map set_map)

lemma member_le_2_53:
  fixes ks :: "nat list"
  assumes "sum_list ks \<le> 2 ^ 53" and "k \<in> set ks"
  shows "k \<le> 2 ^ 53"
proof -
  have "k \<le> sum_list ks"
    by (rule member_le_sum_list [OF assms(2)]) simp
  with assms(1) show ?thesis by simp
qed

lemma average_between:
  assumes "ks \<noteq> []" and "sum_list ks \<le> 2 ^ 53"
  shows "js_le (Finite (real (Min (set ks)))) (round64 (arithmeticMean (map real ks)))"
    and "js_le (round64 (arithmeticMean (map real ks))) (Finite (real (Max (set ks))))"
proof -
  have ne: "map real ks \<noteq> []"
    using assms(1) by simp
  have lo: "real (Min (set ks)) \<le> arithmeticMean (map real ks)"
    using arithmeticMean_bounds(1) [OF ne] by (simp only: Min_real [OF assms(1)])
  have hi: "arithmeticMean (map real ks) \<le> real (Max (set ks))"
    using arithmeticMean_bounds(2) [OF ne] by (simp only: Max_real [OF assms(1)])
  have "Min (set ks) \<in> set ks" and "Max (set ks) \<in> set ks"
    using assms(1) by simp_all
  then have a: "Min (set ks) \<le> 2 ^ 53" and b: "Max (set ks) \<le> 2 ^ 53"
    using member_le_2_53 [OF assms(2)] by blast+
  show "js_le (Finite (real (Min (set ks)))) (round64 (arithmeticMean (map real ks)))"
    by (rule round64_ge_nat [OF a lo])
  have "0 \<le> arithmeticMean (map real ks)"
    using lo by (rule order_trans [rotated]) simp
  then show "js_le (round64 (arithmeticMean (map real ks))) (Finite (real (Max (set ks))))"
    by (rule round64_le_nat [OF b _ hi])
qed

text \<open>A constant sequence of integers.\<close>

lemma constant_deviations:
  "foldl (\<lambda>sum val. js_add sum (Math_pow (js_sub val (Finite v)) 2)) (Finite 0)
     (replicate n (Finite v)) = Finite 0"
  by (induction n) (simp_all add: js_sub_def round64_zero numeral_2_eq_2)

lemma constant_integerDurations:
  assumes "0 < n" and "n * v \<le> 2 ^ 53"
  shows "avg (calculateStats (integerDurations (replicate n v))) = Finite (real v)"
    and "sd (calculateStats (integerDurations (replicate n v))) = Finite 0"
proof -
  have ne: "replicate n v \<noteq> []"
    using assms(1) by simp
  have s: "sum_list (replicate n v) \<le> 2 ^ 53"
    using assms(2) by (simp add: sum_list_replicate)
  have "arithmeticMean (map real (replicate n v)) = real v"
    using assms(1) by (simp add: arithmeticMean_def sum_list_replicate)
  moreover have "v \<le> 2 ^ 53"
  proof -
    have "1 * v \<le> n * v"
      using assms(1) by (intro mult_right_mono) simp_all
    with assms(2) show ?thesis by linarith
  qed
  ultimately show a: "avg (calculateStats (integerDurations (replicate n v))) = Finite (real v)"
    by (simp add: avg_integerDurations [OF ne s] round64_nat)
  have d: "integerDurations (replicate n v) = replicate n (Finite (real v))"
    by (simp add: integerDurations_def)
  have "sd (calculateStats (integerDurations (replicate n v)))
      = Math_sqrt (js_div (Finite 0) (Finite (real n)))"
    unfolding sd_calculateStats a unfolding d constant_deviations by simp
  also have "\<dots> = Finite 0"
    using assms(1) by (simp add: round64_zero)
  finally show "sd (calculateStats (integerDurations (replicate n v))) = Finite 0" .
qed

section \<open>Integer durations with an integer mean\<close>


lemma Math_pow_2: "Math_pow (Finite a) 2 = round64 (a\<^sup>2)"
  unfolding numeral_2_eq_2 by simp





section \<open>Rounded square roots\<close>

lemma roundHalfEven_unique: "\<bar>y - of_int m\<bar> < 1 / 2 \<Longrightarrow> roundHalfEven y = m"
proof -
  assume a: "\<bar>y - of_int m\<bar> < 1 / 2"
  define f where "f = \<lfloor>y\<rfloor>"
  have f: "of_int f \<le> y" "y < of_int f + 1"
    unfolding f_def by linarith+
  from a have "of_int m - 1 / 2 < y" "y < of_int m + 1 / 2"
    by linarith+
  with f have "real_of_int m < of_int f + 3 / 2" "real_of_int f < of_int m + 1 / 2"
    by linarith+
  then have "real_of_int m < of_int (f + 2)" "real_of_int f < of_int (m + 1)"
    by simp_all
  then have "m < f + 2" "f < m + 1"
    by (simp_all only: of_int_less_iff)
  then have "m = f \<or> m = f + 1"
    by linarith
  then show ?thesis
    unfolding roundHalfEven_def Let_def f_def [symmetric]
    using a by (auto simp: abs_less_iff)
qed

text \<open>The square root of a concrete value, rounded: the significand \<open>M\<close> is checked by
  squaring.\<close>

lemma round64_sqrt_scaled_up:
  assumes "0 < q" and "j \<le> 1074" and "2 ^ 104 \<le> q * 4 ^ j" and "q * 4 ^ j < 2 ^ 106"
    and "(2 * real_of_int M - 1)\<^sup>2 < 4 * (q * 4 ^ j)" and "4 * (q * 4 ^ j) < (2 * real_of_int M + 1)\<^sup>2"
    and "0 < M"
  shows "round64 (sqrt q) = Finite (of_int M / 2 ^ j)"
proof -
  have s: "sqrt q * 2 ^ j = sqrt (q * 4 ^ j)"
  proof -
    have "(4 :: real) ^ j = (2\<^sup>2) ^ j"
      by simp
    also have "\<dots> = (2 ^ j)\<^sup>2"
      by (simp only: power_mult [symmetric] mult.commute)
    finally have "(4 :: real) ^ j = (2 ^ j)\<^sup>2" .
    then show ?thesis
      by (simp add: real_sqrt_mult)
  qed
  have lo: "2 ^ 52 \<le> sqrt q * 2 ^ j"
  proof -
    have "sqrt ((2 ^ 52)\<^sup>2) \<le> sqrt (q * 4 ^ j)"
      using assms(3) by (simp only: real_sqrt_le_iff) simp
    then show ?thesis
      unfolding s by simp
  qed
  have hi: "sqrt q * 2 ^ j < 2 ^ 53"
  proof -
    have "sqrt (q * 4 ^ j) < sqrt ((2 ^ 53)\<^sup>2)"
      using assms(4) by (simp only: real_sqrt_less_iff) simp
    then show ?thesis
      unfolding s by simp
  qed
  have "0 \<le> 2 * real_of_int M - 1"
    using assms(7) by simp
  then have "sqrt ((2 * real_of_int M - 1)\<^sup>2) = 2 * real_of_int M - 1"
    by simp
  moreover have "sqrt ((2 * real_of_int M - 1)\<^sup>2) < sqrt (4 * (q * 4 ^ j))"
    using assms(5) by (simp only: real_sqrt_less_iff)
  moreover have "sqrt (4 * (q * 4 ^ j)) = 2 * sqrt (q * 4 ^ j)"
    by (simp add: real_sqrt_mult)
  ultimately have below: "real_of_int M - 1 / 2 < sqrt (q * 4 ^ j)"
    by simp
  have "sqrt ((2 * real_of_int M + 1)\<^sup>2) = 2 * real_of_int M + 1"
    using assms(7) by simp
  moreover have "sqrt (4 * (q * 4 ^ j)) < sqrt ((2 * real_of_int M + 1)\<^sup>2)"
    using assms(6) by (simp only: real_sqrt_less_iff)
  moreover have "sqrt (4 * (q * 4 ^ j)) = 2 * sqrt (q * 4 ^ j)"
    by (simp add: real_sqrt_mult)
  ultimately have above: "sqrt (q * 4 ^ j) < real_of_int M + 1 / 2"
    by simp
  from below above have "\<bar>sqrt q * 2 ^ j - of_int M\<bar> < 1 / 2"
    unfolding s by linarith
  then have "roundHalfEven (sqrt q * 2 ^ j) = M"
    by (rule roundHalfEven_unique)
  moreover have "0 < sqrt q"
    using assms(1) by simp
  ultimately show ?thesis
    using round64_scaled_up [OF _ assms(2) lo hi] by simp
qed

section \<open>Powers of two and the branches of toFixed\<close>

lemma round64_pow2:
  assumes "k \<le> 1023"
  shows "round64 (2 ^ k) = Finite (2 ^ k)"
proof -
  have "ulp64 (2 ^ k) = 2 powr (real_of_int (int k) - 52)"
    by (rule ulp64_normal) (simp_all add: powr_realpow powr_add)
  then have u: "ulp64 (2 ^ k) = 2 ^ k / 2 ^ 52"
    by (simp add: powr_diff powr_realpow)
  have "(2 :: real) ^ k / (2 ^ k / 2 ^ 52) = of_int (2 ^ 52)"
    by simp
  then have "roundHalfEven (2 ^ k / (2 ^ k / 2 ^ 52)) = 2 ^ 52"
    by (simp only: roundHalfEven_of_int)
  then have r: "of_int (roundHalfEven (2 ^ k / ulp64 (2 ^ k))) * ulp64 (2 ^ k) = (2 :: real) ^ k"
    by (simp add: u)
  have "(2 :: real) ^ k < 2 ^ 1024"
    using assms by (intro power_strict_increasing) simp_all
  then show ?thesis
    by (simp add: round64_pos r)
qed

text \<open>Rounding does not cross a power of two from below.\<close>

lemma round64_le_pow2:
  assumes "0 \<le> x" and "x \<le> 2 ^ k" and "k \<le> 1023"
  shows "js_le (round64 x) (Finite (2 ^ k))"
proof (cases "x = 0 \<or> x = 2 ^ k")
  case True
  then show ?thesis
    using round64_pow2 [OF assms(3)] by (auto simp: round64_zero)
next
  case False
  with assms have pos: "0 < x" and less: "x < 2 ^ k"
    by simp_all
  obtain t :: int where u: "ulp64 x = 2 powr real_of_int t" and "- 1074 \<le> t"
    and "x / ulp64 x < 2 ^ 53" and c: "2 ^ 52 \<le> x / ulp64 x \<or> t = - 1074"
    using ulp64_cases [OF pos] by blast
  have t: "t \<le> int k"
  proof (rule ccontr)
    assume "\<not> t \<le> int k"
    then have gt: "int k < t" by simp
    then have "t \<noteq> - 1074" by simp
    with c have "2 ^ 52 \<le> x / ulp64 x" by simp
    then have "2 ^ 52 * ulp64 x \<le> x"
      using ulp64_pos [of x] by (simp add: pos_le_divide_eq)
    moreover have "2 powr real_of_int (int k) \<le> 2 powr real_of_int t"
      using gt by (intro powr_mono) simp_all
    then have "(2 :: real) ^ k \<le> ulp64 x"
      using u by (simp add: powr_realpow)
    moreover have "1 * ulp64 x \<le> 2 ^ 52 * ulp64 x"
      using ulp64_pos [of x] by (intro mult_right_mono) simp_all
    ultimately show False
      using less by linarith
  qed
  define i where "i = nat (int k - t)"
  have "real_of_int (int k) - real_of_int t = real i"
    using t by (simp add: i_def)
  then have "2 powr (real_of_int (int k) - real_of_int t) = 2 ^ i"
    by (simp only: powr_realpow zero_less_numeral)
  then have g: "2 ^ k / ulp64 x = of_int (2 ^ i)"
    using u by (simp add: powr_diff powr_realpow)
  define m where "m = roundHalfEven (x / ulp64 x)"
  have "x / ulp64 x \<le> 2 ^ k / ulp64 x"
    using less ulp64_pos [of x] by (intro divide_right_mono) simp_all
  then have "x / ulp64 x \<le> of_int (2 ^ i)"
    by (simp only: g)
  then have "m \<le> 2 ^ i"
    unfolding m_def by (rule roundHalfEven_le)
  then have "real_of_int m \<le> real_of_int (2 ^ i)"
    by (simp only: of_int_le_iff)
  then have "real_of_int m \<le> 2 ^ k / ulp64 x"
    by (simp only: g)
  then have le: "real_of_int m * ulp64 x \<le> 2 ^ k"
    using ulp64_pos [of x] by (simp add: pos_le_divide_eq)
  have "(2 :: real) ^ k < 2 ^ 1024"
    using assms(3) by (intro power_strict_increasing) simp_all
  with le have "\<not> 2 ^ 1024 \<le> real_of_int m * ulp64 x"
    by linarith
  with le show ?thesis
    using pos by (simp add: round64_pos m_def)
qed

lemma round64_nonneg:
  assumes "0 \<le> x" and "round64 x = Finite q"
  shows "0 \<le> q"
  using round64_ge_nat [of 0 x] assms by simp

lemma toFixed_small:
  "0 \<le> r \<Longrightarrow> r < 10 ^ 21 \<Longrightarrow> f \<le> 100 \<Longrightarrow> toFixed (Finite r) f = Inr (toFixedDigits r f)"
  by (simp add: toFixed_def)

lemma toFixed_negative:
  "r < 0 \<Longrightarrow> - r < 10 ^ 21 \<Longrightarrow> f \<le> 100 \<Longrightarrow>
     toFixed (Finite r) f = Inr (''-'' @ toFixedDigits (- r) f)"
  by (simp add: toFixed_def)

lemma toFixed_large:
  "10 ^ 21 \<le> r \<Longrightarrow> f \<le> 100 \<Longrightarrow> toFixed (Finite r) f = Inr (numberToStringLarge r)"
  by (simp add: toFixed_def Let_def) 

lemma toFixed_returns: "f \<le> 100 \<Longrightarrow> \<exists>t. toFixed x f = Inr t"
  by (cases x) (simp_all add: toFixed_def Let_def)

lemma formatDuration_returns: "\<exists>t. formatDuration x = Inr t"
proof (cases "js_ge x (Finite 1000)")
  case True
  obtain t where "toFixed (js_div x (Finite 1000)) 2 = Inr t"
    using toFixed_returns [of 2 "js_div x (Finite 1000)"] by auto
  with True show ?thesis
    by (simp add: formatDuration_def withSuffix_def)
next
  case False
  obtain t where "toFixed x 0 = Inr t"
    using toFixed_returns [of 0 x] by auto
  with False show ?thesis
    by (simp add: formatDuration_def withSuffix_def)
qed

lemma round64_1e21: "round64 (1000000000000000000000) = Finite (1000000000000000000000)"
proof -
  have "roundHalfEven (1000000000000000000000 / 2 ^ 17) = 7629394531250000"
    by (simp add: roundHalfEven_def)
  then show ?thesis
    using round64_scaled_down [of "1000000000000000000000" 17] by simp
qed

lemma round64_2e21: "round64 (2000000000000000000000) = Finite (2000000000000000000000)"
proof -
  have "roundHalfEven (2000000000000000000000 / 2 ^ 18) = 7629394531250000"
    by (simp add: roundHalfEven_def)
  then show ?thesis
    using round64_scaled_down [of "2000000000000000000000" 18] by simp
qed

lemma round64_1e22: "round64 (10000000000000000000000) = Finite (10000000000000000000000)"
proof -
  have "roundHalfEven (10000000000000000000000 / 2 ^ 21) = 4768371582031250"
    by (simp add: roundHalfEven_def)
  then show ?thesis
    using round64_scaled_down [of "10000000000000000000000" 21] by simp
qed

lemma round64_big_ms: "round64 (124999999999999997902848 / 125) = Finite (1000000000000000000000)"
proof -
  have "roundHalfEven (124999999999999997902848 / 125 / 2 ^ 17) = 7629394531250000"
    by (simp add: roundHalfEven_def)
  then show ?thesis
    using round64_scaled_down [of "124999999999999997902848 / 125" 17] by simp
qed

section \<open>Evaluating the formatter\<close>

lemma natToString_999: "natToString 999 = ''999''"
  by (simp add: natToString.simps digitChar_def)

lemma natToString_100: "natToString 100 = ''100''"
  by (simp add: natToString.simps digitChar_def)

lemma natToString_150: "natToString 150 = ''150''"
  by (simp add: natToString.simps digitChar_def)

lemma natToString_1000: "natToString 1000 = ''1000''"
  by (simp add: natToString.simps digitChar_def)

lemma natToString_1e21: "natToString 1000000000000000000000 = ''1000000000000000000000''"
  by (simp add: natToString.simps digitChar_def)

lemma natToString_21: "natToString 21 = ''21''"
  by (simp add: natToString.simps digitChar_def)

lemma natToString_1: "natToString 1 = ''1''"
  by (simp add: natToString.simps digitChar_def)

text \<open>The shortest digits of \<open>10^21\<close>.\<close>

lemma digitsOfLength_1e21: "digitsOfLength 1000000000000000000000 22 1 = Some 1"
  by (simp add: digitsOfLength_def roundTrips_def Let_def round64_1e21 round64_2e21)

lemma numberToStringLarge_1e21: "numberToStringLarge 1000000000000000000000 = ''1e+21''"
proof -
  have n: "length (natToString (nat \<lfloor>1000000000000000000000 :: real\<rfloor>)) = 22"
    by (simp add: natToString_1e21)
  have rt: "\<not> roundTrips 1000000000000000000000 1 22"
    by (simp add: roundTrips_def round64_1e22)
  have "[1..<18] = 1 # [2..<18]"
    by (simp add: upt_conv_Cons)
  then have fd: "firstDigits 1000000000000000000000 22 [1..<18] = Some 1"
    by (simp only: firstDigits.simps digitsOfLength_1e21 option.case)
  have d: "22 - 1 = (21 :: nat)"
    by simp
  show ?thesis
    by (simp only: numberToStringLarge_def n Let_def rt fd d if_False option.case
        natToString_1 natToString_21) simp
qed

text \<open>The two branches of \<open>formatDuration\<close>.\<close>

lemma formatDuration_seconds:
  assumes "1000 \<le> ms" and "round64 (ms / 1000) = Finite q" and "q < 10 ^ 21"
  shows "formatDuration (Finite ms) = Inr (toFixedDigits q 2 @ ''s'')"
proof -
  have "0 \<le> ms / 1000"
    using assms(1) by simp
  then have "0 \<le> q"
    using assms(2) by (rule round64_nonneg)
  then have "toFixed (Finite q) 2 = Inr (toFixedDigits q 2)"
    using assms(3) by (simp add: toFixed_small)
  then show ?thesis
    using assms(1, 2) by (simp add: formatDuration_def js_ge_def withSuffix_def)
qed

lemma formatDuration_scientific:
  assumes "1000 \<le> ms" and "round64 (ms / 1000) = Finite q" and "10 ^ 21 \<le> q"
  shows "formatDuration (Finite ms) = Inr (numberToStringLarge q @ ''s'')"
proof -
  have "toFixed (Finite q) 2 = Inr (numberToStringLarge q)"
    using assms(3) by (simp add: toFixed_large)
  then show ?thesis
    using assms(1, 2) by (simp add: formatDuration_def js_ge_def withSuffix_def)
qed

lemma formatDuration_milliseconds:
  assumes "0 \<le> ms" and "ms < 1000"
  shows "formatDuration (Finite ms) = Inr (toFixedDigits ms 0 @ ''ms'')"
proof -
  have "toFixed (Finite ms) 0 = Inr (toFixedDigits ms 0)"
    using assms by (simp add: toFixed_small)
  then show ?thesis
    using assms(2) by (simp add: formatDuration_def js_ge_def withSuffix_def)
qed

lemma seconds_below_1e21:
  assumes "0 \<le> ms" and "ms \<le> 10 ^ 23"
  shows "\<exists>q. round64 (ms / 1000) = Finite q \<and> q < 10 ^ 21"
proof -
  have "ms / 1000 \<le> 10 ^ 20"
    using assms(2) by simp
  also have "(10 :: real) ^ 20 \<le> 2 ^ 67"
    by simp
  finally have "ms / 1000 \<le> 2 ^ 67" .
  moreover have "0 \<le> ms / 1000"
    using assms(1) by simp
  ultimately have "js_le (round64 (ms / 1000)) (Finite (2 ^ 67))"
    by (intro round64_le_pow2) simp_all
  moreover have "js_le (Finite (real 0)) (round64 (ms / 1000))"
    using \<open>0 \<le> ms / 1000\<close> by (intro round64_ge_nat) simp_all
  ultimately have "\<exists>q. round64 (ms / 1000) = Finite q \<and> q \<le> 2 ^ 67"
    by (cases "round64 (ms / 1000)") (auto simp: js_le_def)
  then obtain q where q: "round64 (ms / 1000) = Finite q" and "q \<le> 2 ^ 67"
    by blast
  moreover have "(2 :: real) ^ 67 < 10 ^ 21"
    by simp
  ultimately show ?thesis
    by (intro exI [of _ q]) simp
qed

lemma formatDuration_999: "formatDuration (Finite 999) = Inr ''999ms''"
proof -
  have "\<lfloor>(999 :: real) + 1 / 2\<rfloor> = 999"
    by (simp add: floor_eq_iff)
  then have "toFixedDigits 999 0 = ''999''"
    by (simp add: toFixedDigits_def natToString_999)
  then show ?thesis
    by (simp add: formatDuration_milliseconds)
qed

lemma toFixedDigits_1: "toFixedDigits 1 2 = ''1.00''"
proof -
  have "\<lfloor>(1 :: real) * 10 ^ 2 + 1 / 2\<rfloor> = 100"
    by (simp add: floor_eq_iff)
  then show ?thesis
    by (simp add: toFixedDigits_def natToString_100)
qed

lemma formatDuration_1000: "formatDuration (Finite 1000) = Inr ''1.00s''"
proof -
  have "round64 (1000 / 1000) = Finite 1"
    using round64_nat [of 1] by simp
  then have "formatDuration (Finite 1000) = Inr (toFixedDigits 1 2 @ ''s'')"
    by (intro formatDuration_seconds) simp_all
  then show ?thesis
    by (simp add: toFixedDigits_1)
qed

lemma toFixedDigits_3_halves: "toFixedDigits (3 / 2) 2 = ''1.50''"
proof -
  have "\<lfloor>(3 / 2 :: real) * 10 ^ 2 + 1 / 2\<rfloor> = 150"
    by (simp add: floor_eq_iff)
  then show ?thesis
    by (simp add: toFixedDigits_def natToString_150)
qed

lemma round64_3_halves: "round64 (3 / 2) = Finite (3 / 2)"
proof -
  have "roundHalfEven (3 / 2 * 2 ^ 52) = 6755399441055744"
    by (simp add: roundHalfEven_def Let_def)
  then show ?thesis
    using round64_scaled_up [of "3 / 2" 52] by simp
qed

lemma formatDuration_1500: "formatDuration (Finite 1500) = Inr ''1.50s''"
proof -
  have "round64 (1500 / 1000) = Finite (3 / 2)"
    using round64_3_halves by simp
  then have "formatDuration (Finite 1500) = Inr (toFixedDigits (3 / 2) 2 @ ''s'')"
    by (intro formatDuration_seconds) simp_all
  then show ?thesis
    by (simp add: toFixedDigits_3_halves)
qed

text \<open>The order of the numbers and the most consistent label.\<close>

lemma js_lt_not_NaN: "js_lt x y \<Longrightarrow> x \<noteq> NaN \<and> y \<noteq> NaN"
  by (cases x; cases y) simp_all

lemma js_lt_trans: "js_lt x y \<Longrightarrow> js_lt y z \<Longrightarrow> js_lt x z"
  by (cases x; cases y; cases z) simp_all

lemma js_lt_le_trans: "js_lt x y \<Longrightarrow> js_le y z \<Longrightarrow> js_lt x z"
  by (cases x; cases y; cases z) (auto simp: js_le_def)

lemma js_not_lt_le: "x \<noteq> NaN \<Longrightarrow> y \<noteq> NaN \<Longrightarrow> \<not> js_lt y x \<Longrightarrow> js_le x y"
  by (cases x; cases y) (auto simp: js_le_def)

text \<open>The reducer of \<open>mostConsistentKey\<close>, and what its fold finds from a start \<open>m\<close> whose
  coefficient is a number.\<close>

lemma foldl_lowest_cv:
  assumes "cv m \<noteq> NaN"
  defines "step \<equiv> \<lambda>min cur. if js_lt (cv cur) (cv min) then cur else min"
  shows "(foldl step m xs = m \<and> (\<forall>q \<in> set xs. cv q = NaN \<or> js_le (cv m) (cv q))) \<or>
         (\<exists>pre post. xs = pre @ foldl step m xs # post \<and>
            js_lt (cv (foldl step m xs)) (cv m) \<and>
            (\<forall>p \<in> set pre. cv p = NaN \<or> js_lt (cv (foldl step m xs)) (cv p)) \<and>
            (\<forall>q \<in> set post. cv q = NaN \<or> js_le (cv (foldl step m xs)) (cv q)))"
    (is "?A xs \<or> ?B xs")
proof (induction xs rule: rev_induct)
  case Nil
  show ?case by simp
next
  case (snoc x xs)
  let ?r = "foldl step m xs"
  have r_num: "cv ?r \<noteq> NaN"
    using snoc assms(1) js_lt_not_NaN by metis
  have r_le_m: "?r = m \<or> js_lt (cv ?r) (cv m)"
    using snoc by blast
  have before: "\<forall>p \<in> set xs. cv p = NaN \<or> js_le (cv ?r) (cv p)"
    using snoc
  proof
    assume "?A xs"
    then show ?thesis by simp
  next
    assume "?B xs"
    then obtain pre post where xs: "xs = pre @ ?r # post"
      and pre: "\<forall>p \<in> set pre. cv p = NaN \<or> js_lt (cv ?r) (cv p)"
      and post: "\<forall>q \<in> set post. cv q = NaN \<or> js_le (cv ?r) (cv q)"
      by blast
    have "\<forall>p \<in> set (pre @ ?r # post). cv p = NaN \<or> js_le (cv ?r) (cv p)"
      using pre post r_num by (auto simp: js_le_def)
    with xs show ?thesis by metis
  qed
  show ?case
  proof (cases "js_lt (cv x) (cv ?r)")
    case True
    then have new: "foldl step m (xs @ [x]) = x"
      by (simp add: step_def)
    have lt_m: "js_lt (cv x) (cv m)"
      using True r_le_m js_lt_trans by metis
    have "\<forall>p \<in> set xs. cv p = NaN \<or> js_lt (cv x) (cv p)"
      using before True js_lt_le_trans by blast
    with lt_m have "?B (xs @ [x])"
      unfolding new by (intro exI [of _ xs] exI [of _ "[]"]) simp
    then show ?thesis ..
  next
    case False
    then have same: "foldl step m (xs @ [x]) = ?r"
      by (simp add: step_def)
    have x: "cv x = NaN \<or> js_le (cv ?r) (cv x)"
      using False r_num js_not_lt_le by blast
    from snoc show ?thesis
    proof
      assume "?A xs"
      with x have "?A (xs @ [x])"
        unfolding same by auto
      then show ?thesis ..
    next
      assume "?B xs"
      then obtain pre post where xs: "xs = pre @ ?r # post"
        and lt: "js_lt (cv ?r) (cv m)"
        and pre: "\<forall>p \<in> set pre. cv p = NaN \<or> js_lt (cv ?r) (cv p)"
        and post: "\<forall>q \<in> set post. cv q = NaN \<or> js_le (cv ?r) (cv q)"
        by blast
      from xs have "xs @ [x] = pre @ ?r # (post @ [x])"
        by simp
      moreover from post x have "\<forall>q \<in> set (post @ [x]). cv q = NaN \<or> js_le (cv ?r) (cv q)"
        by auto
      ultimately have "?B (xs @ [x])"
        unfolding same using lt pre by blast
      then show ?thesis ..
    qed
  qed
qed

lemma mostConsistentKey_empty:
  "filter (\<lambda>(key, _). key \<noteq> ''Total'') es = [] \<Longrightarrow> mostConsistentKey es = ''N/A''"
  by (simp add: mostConsistentKey_def)

lemma mostConsistentKey_first_lowest:
  assumes f: "filter (\<lambda>(key, _). key \<noteq> ''Total'') es = first # rest"
    and num: "cv first \<noteq> NaN"
  shows "\<exists>pre e post. first # rest = pre @ e # post \<and> mostConsistentKey es = fst e \<and>
           cv e \<noteq> NaN \<and>
           (\<forall>p \<in> set pre. cv p = NaN \<or> js_lt (cv e) (cv p)) \<and>
           (\<forall>q \<in> set post. cv q = NaN \<or> js_le (cv e) (cv q))"
proof -
  define step where "step = (\<lambda>min cur. if js_lt (cv cur) (cv min) then cur else min)"
  define r where "r = foldl step first rest"
  have "step first first = first"
    by (simp add: step_def)
  then have key: "mostConsistentKey es = fst r"
    by (simp add: mostConsistentKey_def f step_def [symmetric] r_def)
  from foldl_lowest_cv [OF num, of rest, folded step_def, folded r_def]
  show ?thesis
  proof
    assume "r = first \<and> (\<forall>q \<in> set rest. cv q = NaN \<or> js_le (cv first) (cv q))"
    then have "first # rest = [] @ r # rest" "cv r \<noteq> NaN"
      "\<forall>q \<in> set rest. cv q = NaN \<or> js_le (cv r) (cv q)"
      using num by simp_all
    with key show ?thesis
      by (intro exI [of _ "[]"] exI [of _ r] exI [of _ rest]) simp
  next
    assume "\<exists>pre post. rest = pre @ r # post \<and> js_lt (cv r) (cv first) \<and>
            (\<forall>p \<in> set pre. cv p = NaN \<or> js_lt (cv r) (cv p)) \<and>
            (\<forall>q \<in> set post. cv q = NaN \<or> js_le (cv r) (cv q))"
    then obtain pre post where rest: "rest = pre @ r # post"
      and lt: "js_lt (cv r) (cv first)"
      and pre: "\<forall>p \<in> set pre. cv p = NaN \<or> js_lt (cv r) (cv p)"
      and post: "\<forall>q \<in> set post. cv q = NaN \<or> js_le (cv r) (cv q)"
      by blast
    have "first # rest = (first # pre) @ r # post"
      by (simp add: rest)
    moreover have "cv r \<noteq> NaN"
      using lt js_lt_not_NaN by blast
    moreover have "\<forall>p \<in> set (first # pre). cv p = NaN \<or> js_lt (cv r) (cv p)"
      using lt pre by simp
    ultimately show ?thesis
      using key post by blast
  qed
qed

section \<open>Some binary64 values\<close>

lemma round64_tenth: "round64 (1 / 10) = Finite (3602879701896397 / 36028797018963968)"
proof -
  have "roundHalfEven (1 / 10 * 2 ^ 56) = 7205759403792794"
    by (simp add: roundHalfEven_def)
  then show ?thesis
    using round64_scaled_up [of "1 / 10" 56] by simp
qed

lemma round64_twentieth: "round64 (1 / 20) = Finite (3602879701896397 / 72057594037927936)"
proof -
  have "roundHalfEven (1 / 20 * 2 ^ 57) = 7205759403792794"
    by (simp add: roundHalfEven_def)
  then show ?thesis
    using round64_scaled_up [of "1 / 20" 57] by simp
qed

lemma round64_fifth: "round64 (1 / 5) = Finite (3602879701896397 / 18014398509481984)"
proof -
  have "roundHalfEven (1 / 5 * 2 ^ 55) = 7205759403792794"
    by (simp add: roundHalfEven_def)
  then show ?thesis
    using round64_scaled_up [of "1 / 5" 55] by simp
qed

lemma round64_big_duration: "round64 (999999999999999983222784) = Finite (999999999999999983222784)"
proof -
  have "roundHalfEven (999999999999999983222784 / 2 ^ 27) = 7450580596923828"
    by (simp add: roundHalfEven_def)
  then show ?thesis
    using round64_scaled_down [of "999999999999999983222784" 27] by simp
qed


lemma round64_1005: "round64 (201 / 200) = Finite (1131529406376837 / 1125899906842624)"
proof -
  have "roundHalfEven (201 / 200 * 2 ^ 52) = 4526117625507348"
    by (simp add: roundHalfEven_def)
  then show ?thesis
    using round64_scaled_up [of "201 / 200" 52] by simp
qed

section \<open>Evaluating the insights\<close>

lemma avg_singleton: "n \<le> 2 ^ 53 \<Longrightarrow> avg (calculateStats [Finite (real n)]) = Finite (real n)"
  using constant_integerDurations(1) [of 1 n] by (simp add: integerDurations_def)

lemma sd_singleton: "n \<le> 2 ^ 53 \<Longrightarrow> sd (calculateStats [Finite (real n)]) = Finite 0"
  using constant_integerDurations(2) [of 1 n] by (simp add: integerDurations_def)

lemma avg_1e21: "avg (calculateStats [Finite 1000000000000000000000]) = Finite 1000000000000000000000"
  by (simp add: avg_calculateStats round64_1e21)

lemma avg_10_20_30: "avg (calculateStats (integerDurations [10, 20, 30])) = Finite 20"
  using round64_nat [of 20] by (simp add: avg_integerDurations arithmeticMean_def)

lemma avg_100_200_300: "avg (calculateStats (integerDurations [100, 200, 300])) = Finite 200"
  using round64_nat [of 200] by (simp add: avg_integerDurations arithmeticMean_def)

lemma avg_1000_2000_3000: "avg (calculateStats (integerDurations [1000, 2000, 3000])) = Finite 2000"
  using round64_nat [of 2000] by (simp add: avg_integerDurations arithmeticMean_def)

lemma toFixedDigits_100: "toFixedDigits 100 1 = ''100.0''"
proof -
  have "\<lfloor>(100 :: real) * 10 ^ 1 + 1 / 2\<rfloor> = 1000"
    by (simp add: floor_eq_iff)
  then show ?thesis
    by (simp add: toFixedDigits_def natToString_1000)
qed

lemma insightRatio_fixed:
  assumes "avg (Lightweight stats) = Finite l" and "avg (Heavy stats) = Finite h"
    and "l \<noteq> 0" and "round64 (h / l) = Finite q" and "\<bar>q\<bar> < 10 ^ 21"
  shows "insightRatio stats =
           Inr ((if q < 0 then ''-'' else []) @ toFixedDigits \<bar>q\<bar> 1 @ ''x'')"
proof (cases "q < 0")
  case True
  then have a: "\<bar>q\<bar> = - q"
    by (simp only: abs_of_neg)
  with assms(5) have "- q < 10 ^ 21"
    by (simp only:)
  with True have "toFixed (Finite q) 1 = Inr (''-'' @ toFixedDigits (- q) 1)"
    by (intro toFixed_negative) simp_all
  with True assms(1-4) show ?thesis
    unfolding a by (simp add: insightRatio_def withSuffix_def)
next
  case False
  then have a: "\<bar>q\<bar> = q"
    by (simp only: abs_of_nonneg not_less)
  with assms(5) have "q < 10 ^ 21"
    by (simp only:)
  with False have "toFixed (Finite q) 1 = Inr (toFixedDigits q 1)"
    by (intro toFixed_small) simp_all
  with False assms(1-4) show ?thesis
    unfolding a by (simp add: insightRatio_def withSuffix_def)
qed

lemma ratio_below_1e21:
  assumes "0 \<le> h" and "h \<le> 2 ^ 53" and "1 / 2 ^ 10 \<le> l"
  shows "\<exists>q. round64 (h / l) = Finite q \<and> 0 \<le> q \<and> q < 10 ^ 21"
proof -
  have l: "0 < l"
    using assms(3) by (rule less_le_trans [rotated]) simp
  have "h / l \<le> 2 ^ 53 / (1 / 2 ^ 10)"
    using assms l by (intro frac_le) simp_all
  then have hi: "h / l \<le> 2 ^ 63"
    by simp
  have lo: "0 \<le> h / l"
    using assms(1) l by simp
  have "js_le (round64 (h / l)) (Finite (2 ^ 63))"
    using lo hi by (intro round64_le_pow2) simp_all
  moreover have "js_le (Finite (real 0)) (round64 (h / l))"
    using lo by (intro round64_ge_nat) simp_all
  ultimately have "\<exists>q. round64 (h / l) = Finite q \<and> 0 \<le> q \<and> q \<le> 2 ^ 63"
    by (cases "round64 (h / l)") (auto simp: js_le_def)
  then obtain q where "round64 (h / l) = Finite q" and "0 \<le> q" and "q \<le> 2 ^ 63"
    by blast
  moreover have "(2 :: real) ^ 63 < 10 ^ 21"
    by simp
  ultimately show ?thesis
    by (intro exI [of _ q]) simp
qed

lemma example_ratio:
  "insightRatio \<lparr>Lightweight = calculateStats (integerDurations [10, 20, 30]),
         Medium = calculateStats (integerDurations [100, 200, 300]),
         Heavy = calculateStats (integerDurations [1000, 2000, 3000]),
         Total = calculateStats (integerDurations [1110, 2220, 3330])\<rparr> = Inr ''100.0x''"
proof -
  let ?s = "\<lparr>Lightweight = calculateStats (integerDurations [10, 20, 30]),
         Medium = calculateStats (integerDurations [100, 200, 300]),
         Heavy = calculateStats (integerDurations [1000, 2000, 3000]),
         Total = calculateStats (integerDurations [1110, 2220, 3330])\<rparr>"
  have l: "avg (Lightweight ?s) = Finite 20" and h: "avg (Heavy ?s) = Finite 2000"
    by (simp_all only: BenchStats.simps avg_10_20_30 avg_1000_2000_3000)
  have nz: "(20 :: real) \<noteq> 0"
    by simp
  have q: "round64 (2000 / 20) = Finite 100"
    using round64_nat [of 100] by simp
  have small: "\<bar>100 :: real\<bar> < 10 ^ 21"
    by simp
  have r: "\<bar>100 :: real\<bar> = 100" and neg: "\<not> (100 :: real) < 0"
    by simp_all
  show ?thesis
    unfolding insightRatio_fixed [OF l h nz q small] r toFixedDigits_100
    using neg by simp
qed

lemma example_most_consistent:
  "mostConsistentKey (entries
     \<lparr>Lightweight = \<lparr>avg = Finite 10, min_stat = Finite 9, max_stat = Finite 11, sd = Finite 1\<rparr>,
      Medium = \<lparr>avg = Finite 20, min_stat = Finite 19, max_stat = Finite 21, sd = Finite 1\<rparr>,
      Heavy = \<lparr>avg = Finite 10, min_stat = Finite 8, max_stat = Finite 12, sd = Finite 2\<rparr>,
      Total = \<lparr>avg = Finite 40, min_stat = Finite 36, max_stat = Finite 44, sd = Finite 4\<rparr>\<rparr>)
   = ''Medium''"
  by (simp add: mostConsistentKey_def entries_def cv_def round64_tenth round64_twentieth
      round64_fifth)

section \<open>The statistics of some short sequences\<close>

lemma stats_tenths:
  "avg (calculateStats [Finite (3602879701896397 / 36028797018963968), Finite (3602879701896397 / 36028797018963968), Finite (3602879701896397 / 36028797018963968)]) = Finite (7205759403792795 / 72057594037927936) \<and>
   sd (calculateStats [Finite (3602879701896397 / 36028797018963968), Finite (3602879701896397 / 36028797018963968), Finite (3602879701896397 / 36028797018963968)]) = Finite (1 / 72057594037927936)"
proof -
  have f1: "Finite (real (length [Finite (3602879701896397 / 36028797018963968), Finite (3602879701896397 / 36028797018963968), Finite (3602879701896397 / 36028797018963968)])) = Finite 3"
    by simp
  have f2: "js_add (Finite 0) (Finite (3602879701896397 / 36028797018963968)) = Finite (3602879701896397 / 36028797018963968)"
  proof -
    have "roundHalfEven ((0 + (3602879701896397 / 36028797018963968)) * 2 ^ 56) = 7205759403792794"
      by (simp add: roundHalfEven_def Let_def)
    then show ?thesis
      using round64_scaled_up [of "0 + (3602879701896397 / 36028797018963968)" 56] by (simp add: js_sub_def Math_pow_2 power2_eq_square)
  qed
  have f3: "js_add (Finite (3602879701896397 / 36028797018963968)) (Finite (3602879701896397 / 36028797018963968)) = Finite (3602879701896397 / 18014398509481984)"
  proof -
    have "roundHalfEven (((3602879701896397 / 36028797018963968) + (3602879701896397 / 36028797018963968)) * 2 ^ 55) = 7205759403792794"
      by (simp add: roundHalfEven_def Let_def)
    then show ?thesis
      using round64_scaled_up [of "(3602879701896397 / 36028797018963968) + (3602879701896397 / 36028797018963968)" 55] by (simp add: js_sub_def Math_pow_2 power2_eq_square)
  qed
  have f4: "js_add (Finite (3602879701896397 / 18014398509481984)) (Finite (3602879701896397 / 36028797018963968)) = Finite (1351079888211149 / 4503599627370496)"
  proof -
    have "roundHalfEven (((3602879701896397 / 18014398509481984) + (3602879701896397 / 36028797018963968)) * 2 ^ 54) = 5404319552844596"
      by (simp add: roundHalfEven_def Let_def)
    then show ?thesis
      using round64_scaled_up [of "(3602879701896397 / 18014398509481984) + (3602879701896397 / 36028797018963968)" 54] by (simp add: js_sub_def Math_pow_2 power2_eq_square)
  qed
  have f5: "js_div (Finite (1351079888211149 / 4503599627370496)) (Finite 3) = Finite (7205759403792795 / 72057594037927936)"
  proof -
    have "roundHalfEven (((1351079888211149 / 4503599627370496) / 3) * 2 ^ 56) = 7205759403792795"
      by (simp add: roundHalfEven_def Let_def)
    then show ?thesis
      using round64_scaled_up [of "(1351079888211149 / 4503599627370496) / 3" 56] by (simp add: js_sub_def Math_pow_2 power2_eq_square)
  qed
  have f6: "js_sub (Finite (3602879701896397 / 36028797018963968)) (Finite (7205759403792795 / 72057594037927936)) = Finite (- (1 / 72057594037927936))"
  proof -
    have "roundHalfEven ((- ((3602879701896397 / 36028797018963968) - (7205759403792795 / 72057594037927936))) * 2 ^ 108) = 4503599627370496"
      by (simp add: roundHalfEven_def Let_def)
    then show ?thesis
      using round64_scaled_up [of "- ((3602879701896397 / 36028797018963968) - (7205759403792795 / 72057594037927936))" 108] round64_minus [of "- ((3602879701896397 / 36028797018963968) - (7205759403792795 / 72057594037927936))"] by (simp add: js_sub_def Math_pow_2 power2_eq_square)
  qed
  have f7: "Math_pow (Finite (- (1 / 72057594037927936))) 2 = Finite (1 / 5192296858534827628530496329220096)"
  proof -
    have "roundHalfEven (((- (1 / 72057594037927936)) * (- (1 / 72057594037927936))) * 2 ^ 164) = 4503599627370496"
      by (simp add: roundHalfEven_def Let_def)
    then show ?thesis
      using round64_scaled_up [of "(- (1 / 72057594037927936)) * (- (1 / 72057594037927936))" 164] by (simp add: js_sub_def Math_pow_2 power2_eq_square)
  qed
  have f8: "js_add (Finite 0) (Finite (1 / 5192296858534827628530496329220096)) = Finite (1 / 5192296858534827628530496329220096)"
  proof -
    have "roundHalfEven ((0 + (1 / 5192296858534827628530496329220096)) * 2 ^ 164) = 4503599627370496"
      by (simp add: roundHalfEven_def Let_def)
    then show ?thesis
      using round64_scaled_up [of "0 + (1 / 5192296858534827628530496329220096)" 164] by (simp add: js_sub_def Math_pow_2 power2_eq_square)
  qed
  have f9: "js_add (Finite (1 / 5192296858534827628530496329220096)) (Finite (1 / 5192296858534827628530496329220096)) = Finite (1 / 2596148429267413814265248164610048)"
  proof -
    have "roundHalfEven (((1 / 5192296858534827628530496329220096) + (1 / 5192296858534827628530496329220096)) * 2 ^ 163) = 4503599627370496"
      by (simp add: roundHalfEven_def Let_def)
    then show ?thesis
      using round64_scaled_up [of "(1 / 5192296858534827628530496329220096) + (1 / 5192296858534827628530496329220096)" 163] by (simp add: js_sub_def Math_pow_2 power2_eq_square)
  qed
  have f10: "js_add (Finite (1 / 2596148429267413814265248164610048)) (Finite (1 / 5192296858534827628530496329220096)) = Finite (3 / 5192296858534827628530496329220096)"
  proof -
    have "roundHalfEven (((1 / 2596148429267413814265248164610048) + (1 / 5192296858534827628530496329220096)) * 2 ^ 163) = 6755399441055744"
      by (simp add: roundHalfEven_def Let_def)
    then show ?thesis
      using round64_scaled_up [of "(1 / 2596148429267413814265248164610048) + (1 / 5192296858534827628530496329220096)" 163] by (simp add: js_sub_def Math_pow_2 power2_eq_square)
  qed
  have f11: "js_div (Finite (3 / 5192296858534827628530496329220096)) (Finite 3) = Finite (1 / 5192296858534827628530496329220096)"
  proof -
    have "roundHalfEven (((3 / 5192296858534827628530496329220096) / 3) * 2 ^ 164) = 4503599627370496"
      by (simp add: roundHalfEven_def Let_def)
    then show ?thesis
      using round64_scaled_up [of "(3 / 5192296858534827628530496329220096) / 3" 164] by (simp add: js_sub_def Math_pow_2 power2_eq_square)
  qed
  have f12: "Math_sqrt (Finite (1 / 5192296858534827628530496329220096)) = Finite (1 / 72057594037927936)"
    using round64_sqrt_scaled_up [of "1 / 5192296858534827628530496329220096" 108 4503599627370496] by simp
  have A: "avg (calculateStats [Finite (3602879701896397 / 36028797018963968), Finite (3602879701896397 / 36028797018963968), Finite (3602879701896397 / 36028797018963968)]) = Finite (7205759403792795 / 72057594037927936)"
    unfolding avg_calculateStats by (simp only: foldl_Cons foldl_Nil f1 f2 f3 f4 f5)
  have S: "sd (calculateStats [Finite (3602879701896397 / 36028797018963968), Finite (3602879701896397 / 36028797018963968), Finite (3602879701896397 / 36028797018963968)]) = Finite (1 / 72057594037927936)"
    unfolding sd_calculateStats A by (simp only: foldl_Cons foldl_Nil f1 f6 f7 f8 f9 f10 f11 f12)
  show ?thesis
    by (simp only: A S)
qed





section \<open>The hypotheses in the vocabulary of the specification\<close>









lemma avg_single_numeral:
  "numeral n \<le> (2 ^ 53 :: nat) \<Longrightarrow> avg (calculateStats [Finite (numeral n)]) = Finite (numeral n)"
  using avg_singleton [of "numeral n"] by simp

lemma avg_single_0: "avg (calculateStats [Finite 0]) = Finite 0"
  using avg_singleton [of 0] by simp

lemma avg_single_1: "avg (calculateStats [Finite 1]) = Finite 1"
  using avg_singleton [of 1] by simp

lemma sd_single_0: "sd (calculateStats [Finite 0]) = Finite 0"
  using sd_singleton [of 0] by simp

text \<open>\<open>1005 / 1000\<close> is not a binary64 value: the quotient is below \<open>1.005\<close>.\<close>

lemma formatDuration_1005: "formatDuration (Finite 1005) = Inr ''1.00s''"
proof -
  have q: "round64 (1005 / 1000) = Finite (1131529406376837 / 1125899906842624)"
    using round64_1005 by simp
  have "\<lfloor>(1131529406376837 / 1125899906842624 :: real) * 10 ^ 2 + 1 / 2\<rfloor> = 100"
    by (simp add: floor_eq_iff)
  then have "toFixedDigits (1131529406376837 / 1125899906842624) 2 = ''1.00''"
    by (simp add: toFixedDigits_def natToString_100)
  then show ?thesis
    using formatDuration_seconds [OF _ q] by simp
qed

lemma formatDuration_big:
  "formatDuration (Finite 999999999999999983222784) = Inr ''1e+21s''"
proof -
  have q: "round64 (999999999999999983222784 / 1000) = Finite 1000000000000000000000"
    using round64_big_ms by simp
  show ?thesis
    using formatDuration_scientific [OF _ q] by (simp add: numberToStringLarge_1e21)
qed

lemma not_fixed_1e21: "\<not> hasFixedShape f ''1e+21''"
  by (auto simp: hasFixedShape_def isDigit_def)

section \<open>Two sequences with equal binary64 quotients\<close>

lemma stats_light:
  "avg (calculateStats [Finite 13, Finite 41, Finite 59, Finite 56, Finite 53, Finite 9, Finite 21, Finite 12, Finite 36, Finite 53]) = Finite (2484016669471539 / 70368744177664) \<and>
   sd (calculateStats [Finite 13, Finite 41, Finite 59, Finite 56, Finite 53, Finite 9, Finite 21, Finite 12, Finite 36, Finite 53]) = Finite (5330291864357929 / 281474976710656)"
proof -
  have f1: "Finite (real (length [Finite 13, Finite 41, Finite 59, Finite 56, Finite 53, Finite 9, Finite 21, Finite 12, Finite 36, Finite 53])) = Finite 10"
    by simp
  have f2: "js_add (Finite 0) (Finite 13) = Finite 13"
  proof -
    have "roundHalfEven ((0 + 13) * 2 ^ 49) = 7318349394477056"
      by (simp add: roundHalfEven_def Let_def)
    then show ?thesis
      using round64_scaled_up [of "0 + 13" 49] by (simp add: js_sub_def Math_pow_2 power2_eq_square)
  qed
  have f3: "js_add (Finite 13) (Finite 41) = Finite 54"
  proof -
    have "roundHalfEven ((13 + 41) * 2 ^ 47) = 7599824371187712"
      by (simp add: roundHalfEven_def Let_def)
    then show ?thesis
      using round64_scaled_up [of "13 + 41" 47] by (simp add: js_sub_def Math_pow_2 power2_eq_square)
  qed
  have f4: "js_add (Finite 54) (Finite 59) = Finite 113"
  proof -
    have "roundHalfEven ((54 + 59) * 2 ^ 46) = 7951668092076032"
      by (simp add: roundHalfEven_def Let_def)
    then show ?thesis
      using round64_scaled_up [of "54 + 59" 46] by (simp add: js_sub_def Math_pow_2 power2_eq_square)
  qed
  have f5: "js_add (Finite 113) (Finite 56) = Finite 169"
  proof -
    have "roundHalfEven ((113 + 56) * 2 ^ 45) = 5946158883012608"
      by (simp add: roundHalfEven_def Let_def)
    then show ?thesis
      using round64_scaled_up [of "113 + 56" 45] by (simp add: js_sub_def Math_pow_2 power2_eq_square)
  qed
  have f6: "js_add (Finite 169) (Finite 53) = Finite 222"
  proof -
    have "roundHalfEven ((169 + 53) * 2 ^ 45) = 7810930603720704"
      by (simp add: roundHalfEven_def Let_def)
    then show ?thesis
      using round64_scaled_up [of "169 + 53" 45] by (simp add: js_sub_def Math_pow_2 power2_eq_square)
  qed
  have f7: "js_add (Finite 222) (Finite 9) = Finite 231"
  proof -
    have "roundHalfEven ((222 + 9) * 2 ^ 45) = 8127589952520192"
      by (simp add: roundHalfEven_def Let_def)
    then show ?thesis
      using round64_scaled_up [of "222 + 9" 45] by (simp add: js_sub_def Math_pow_2 power2_eq_square)
  qed
  have f8: "js_add (Finite 231) (Finite 21) = Finite 252"
  proof -
    have "roundHalfEven ((231 + 21) * 2 ^ 45) = 8866461766385664"
      by (simp add: roundHalfEven_def Let_def)
    then show ?thesis
      using round64_scaled_up [of "231 + 21" 45] by (simp add: js_sub_def Math_pow_2 power2_eq_square)
  qed
  have f9: "js_add (Finite 252) (Finite 12) = Finite 264"
  proof -
    have "roundHalfEven ((252 + 12) * 2 ^ 44) = 4644337115725824"
      by (simp add: roundHalfEven_def Let_def)
    then show ?thesis
      using round64_scaled_up [of "252 + 12" 44] by (simp add: js_sub_def Math_pow_2 power2_eq_square)
  qed
  have f10: "js_add (Finite 264) (Finite 36) = Finite 300"
  proof -
    have "roundHalfEven ((264 + 36) * 2 ^ 44) = 5277655813324800"
      by (simp add: roundHalfEven_def Let_def)
    then show ?thesis
      using round64_scaled_up [of "264 + 36" 44] by (simp add: js_sub_def Math_pow_2 power2_eq_square)
  qed
  have f11: "js_add (Finite 300) (Finite 53) = Finite 353"
  proof -
    have "roundHalfEven ((300 + 53) * 2 ^ 44) = 6210041673678848"
      by (simp add: roundHalfEven_def Let_def)
    then show ?thesis
      using round64_scaled_up [of "300 + 53" 44] by (simp add: js_sub_def Math_pow_2 power2_eq_square)
  qed
  have f12: "js_div (Finite 353) (Finite 10) = Finite (2484016669471539 / 70368744177664)"
  proof -
    have "roundHalfEven ((353 / 10) * 2 ^ 47) = 4968033338943078"
      by (simp add: roundHalfEven_def Let_def)
    then show ?thesis
      using round64_scaled_up [of "353 / 10" 47] by (simp add: js_sub_def Math_pow_2 power2_eq_square)
  qed
  have f13: "js_sub (Finite 13) (Finite (2484016669471539 / 70368744177664)) = Finite (- (1569222995161907 / 70368744177664))"
  proof -
    have "roundHalfEven ((- (13 - (2484016669471539 / 70368744177664))) * 2 ^ 48) = 6276891980647628"
      by (simp add: roundHalfEven_def Let_def)
    then show ?thesis
      using round64_scaled_up [of "- (13 - (2484016669471539 / 70368744177664))" 48] round64_minus [of "- (13 - (2484016669471539 / 70368744177664))"] by (simp add: js_sub_def Math_pow_2 power2_eq_square)
  qed
  have f14: "Math_pow (Finite (- (1569222995161907 / 70368744177664))) 2 = Finite (4374209099013815 / 8796093022208)"
  proof -
    have "roundHalfEven (((- (1569222995161907 / 70368744177664)) * (- (1569222995161907 / 70368744177664))) * 2 ^ 44) = 8748418198027630"
      by (simp add: roundHalfEven_def Let_def)
    then show ?thesis
      using round64_scaled_up [of "(- (1569222995161907 / 70368744177664)) * (- (1569222995161907 / 70368744177664))" 44] by (simp add: js_sub_def Math_pow_2 power2_eq_square)
  qed
  have f15: "js_add (Finite 0) (Finite (4374209099013815 / 8796093022208)) = Finite (4374209099013815 / 8796093022208)"
  proof -
    have "roundHalfEven ((0 + (4374209099013815 / 8796093022208)) * 2 ^ 44) = 8748418198027630"
      by (simp add: roundHalfEven_def Let_def)
    then show ?thesis
      using round64_scaled_up [of "0 + (4374209099013815 / 8796093022208)" 44] by (simp add: js_sub_def Math_pow_2 power2_eq_square)
  qed
  have f16: "js_sub (Finite 41) (Finite (2484016669471539 / 70368744177664)) = Finite (401101841812685 / 70368744177664)"
  proof -
    have "roundHalfEven ((41 - (2484016669471539 / 70368744177664)) * 2 ^ 50) = 6417629469002960"
      by (simp add: roundHalfEven_def Let_def)
    then show ?thesis
      using round64_scaled_up [of "41 - (2484016669471539 / 70368744177664)" 50] by (simp add: js_sub_def Math_pow_2 power2_eq_square)
  qed
  have f17: "Math_pow (Finite (401101841812685 / 70368744177664)) 2 = Finite (4572560996664611 / 140737488355328)"
  proof -
    have "roundHalfEven (((401101841812685 / 70368744177664) * (401101841812685 / 70368744177664)) * 2 ^ 47) = 4572560996664611"
      by (simp add: roundHalfEven_def Let_def)
    then show ?thesis
      using round64_scaled_up [of "(401101841812685 / 70368744177664) * (401101841812685 / 70368744177664)" 47] by (simp add: js_sub_def Math_pow_2 power2_eq_square)
  qed
  have f18: "js_add (Finite (4374209099013815 / 8796093022208)) (Finite (4572560996664611 / 140737488355328)) = Finite (4659994161305353 / 8796093022208)"
  proof -
    have "roundHalfEven (((4374209099013815 / 8796093022208) + (4572560996664611 / 140737488355328)) * 2 ^ 43) = 4659994161305353"
      by (simp add: roundHalfEven_def Let_def)
    then show ?thesis
      using round64_scaled_up [of "(4374209099013815 / 8796093022208) + (4572560996664611 / 140737488355328)" 43] by (simp add: js_sub_def Math_pow_2 power2_eq_square)
  qed
  have f19: "js_sub (Finite 59) (Finite (2484016669471539 / 70368744177664)) = Finite (1667739237010637 / 70368744177664)"
  proof -
    have "roundHalfEven ((59 - (2484016669471539 / 70368744177664)) * 2 ^ 48) = 6670956948042548"
      by (simp add: roundHalfEven_def Let_def)
    then show ?thesis
      using round64_scaled_up [of "59 - (2484016669471539 / 70368744177664)" 48] by (simp add: js_sub_def Math_pow_2 power2_eq_square)
  qed
  have f20: "Math_pow (Finite (1667739237010637 / 70368744177664)) 2 = Finite (4940677489644013 / 8796093022208)"
  proof -
    have "roundHalfEven (((1667739237010637 / 70368744177664) * (1667739237010637 / 70368744177664)) * 2 ^ 43) = 4940677489644013"
      by (simp add: roundHalfEven_def Let_def)
    then show ?thesis
      using round64_scaled_up [of "(1667739237010637 / 70368744177664) * (1667739237010637 / 70368744177664)" 43] by (simp add: js_sub_def Math_pow_2 power2_eq_square)
  qed
  have f21: "js_add (Finite (4659994161305353 / 8796093022208)) (Finite (4940677489644013 / 8796093022208)) = Finite (4800335825474683 / 4398046511104)"
  proof -
    have "roundHalfEven (((4659994161305353 / 8796093022208) + (4940677489644013 / 8796093022208)) * 2 ^ 42) = 4800335825474683"
      by (simp add: roundHalfEven_def Let_def)
    then show ?thesis
      using round64_scaled_up [of "(4659994161305353 / 8796093022208) + (4940677489644013 / 8796093022208)" 42] by (simp add: js_sub_def Math_pow_2 power2_eq_square)
  qed
  have f22: "js_sub (Finite 56) (Finite (2484016669471539 / 70368744177664)) = Finite (1456633004477645 / 70368744177664)"
  proof -
    have "roundHalfEven ((56 - (2484016669471539 / 70368744177664)) * 2 ^ 48) = 5826532017910580"
      by (simp add: roundHalfEven_def Let_def)
    then show ?thesis
      using round64_scaled_up [of "56 - (2484016669471539 / 70368744177664)" 48] by (simp add: js_sub_def Math_pow_2 power2_eq_square)
  qed
  have f23: "Math_pow (Finite (1456633004477645 / 70368744177664)) 2 = Finite (3769037899085907 / 8796093022208)"
  proof -
    have "roundHalfEven (((1456633004477645 / 70368744177664) * (1456633004477645 / 70368744177664)) * 2 ^ 44) = 7538075798171814"
      by (simp add: roundHalfEven_def Let_def)
    then show ?thesis
      using round64_scaled_up [of "(1456633004477645 / 70368744177664) * (1456633004477645 / 70368744177664)" 44] by (simp add: js_sub_def Math_pow_2 power2_eq_square)
  qed
  have f24: "js_add (Finite (4800335825474683 / 4398046511104)) (Finite (3769037899085907 / 8796093022208)) = Finite (1671213693754409 / 1099511627776)"
  proof -
    have "roundHalfEven (((4800335825474683 / 4398046511104) + (3769037899085907 / 8796093022208)) * 2 ^ 42) = 6684854775017636"
      by (simp add: roundHalfEven_def Let_def)
    then show ?thesis
      using round64_scaled_up [of "(4800335825474683 / 4398046511104) + (3769037899085907 / 8796093022208)" 42] by (simp add: js_sub_def Math_pow_2 power2_eq_square)
  qed
  have f25: "js_sub (Finite 53) (Finite (2484016669471539 / 70368744177664)) = Finite (1245526771944653 / 70368744177664)"
  proof -
    have "roundHalfEven ((53 - (2484016669471539 / 70368744177664)) * 2 ^ 48) = 4982107087778612"
      by (simp add: roundHalfEven_def Let_def)
    then show ?thesis
      using round64_scaled_up [of "53 - (2484016669471539 / 70368744177664)" 48] by (simp add: js_sub_def Math_pow_2 power2_eq_square)
  qed
  have f26: "Math_pow (Finite (1245526771944653 / 70368744177664)) 2 = Finite (2755727982927545 / 8796093022208)"
  proof -
    have "roundHalfEven (((1245526771944653 / 70368744177664) * (1245526771944653 / 70368744177664)) * 2 ^ 44) = 5511455965855090"
      by (simp add: roundHalfEven_def Let_def)
    then show ?thesis
      using round64_scaled_up [of "(1245526771944653 / 70368744177664) * (1245526771944653 / 70368744177664)" 44] by (simp add: js_sub_def Math_pow_2 power2_eq_square)
  qed
  have f27: "js_add (Finite (1671213693754409 / 1099511627776)) (Finite (2755727982927545 / 8796093022208)) = Finite (7333 / 4)"
  proof -
    have "roundHalfEven (((1671213693754409 / 1099511627776) + (2755727982927545 / 8796093022208)) * 2 ^ 42) = 8062718766481408"
      by (simp add: roundHalfEven_def Let_def)
    then show ?thesis
      using round64_scaled_up [of "(1671213693754409 / 1099511627776) + (2755727982927545 / 8796093022208)" 42] by (simp add: js_sub_def Math_pow_2 power2_eq_square)
  qed
  have f28: "js_sub (Finite 9) (Finite (2484016669471539 / 70368744177664)) = Finite (- (1850697971872563 / 70368744177664))"
  proof -
    have "roundHalfEven ((- (9 - (2484016669471539 / 70368744177664))) * 2 ^ 48) = 7402791887490252"
      by (simp add: roundHalfEven_def Let_def)
    then show ?thesis
      using round64_scaled_up [of "- (9 - (2484016669471539 / 70368744177664))" 48] round64_minus [of "- (9 - (2484016669471539 / 70368744177664))"] by (simp add: js_sub_def Math_pow_2 power2_eq_square)
  qed
  have f29: "Math_pow (Finite (- (1850697971872563 / 70368744177664))) 2 = Finite (3042084791265525 / 4398046511104)"
  proof -
    have "roundHalfEven (((- (1850697971872563 / 70368744177664)) * (- (1850697971872563 / 70368744177664))) * 2 ^ 43) = 6084169582531050"
      by (simp add: roundHalfEven_def Let_def)
    then show ?thesis
      using round64_scaled_up [of "(- (1850697971872563 / 70368744177664)) * (- (1850697971872563 / 70368744177664))" 43] by (simp add: js_sub_def Math_pow_2 power2_eq_square)
  qed
  have f30: "js_add (Finite (7333 / 4)) (Finite (3042084791265525 / 4398046511104)) = Finite (2776200889436733 / 1099511627776)"
  proof -
    have "roundHalfEven (((7333 / 4) + (3042084791265525 / 4398046511104)) * 2 ^ 41) = 5552401778873466"
      by (simp add: roundHalfEven_def Let_def)
    then show ?thesis
      using round64_scaled_up [of "(7333 / 4) + (3042084791265525 / 4398046511104)" 41] by (simp add: js_sub_def Math_pow_2 power2_eq_square)
  qed
  have f31: "js_sub (Finite 21) (Finite (2484016669471539 / 70368744177664)) = Finite (- (1006273041740595 / 70368744177664))"
  proof -
    have "roundHalfEven ((- (21 - (2484016669471539 / 70368744177664))) * 2 ^ 49) = 8050184333924760"
      by (simp add: roundHalfEven_def Let_def)
    then show ?thesis
      using round64_scaled_up [of "- (21 - (2484016669471539 / 70368744177664))" 49] round64_minus [of "- (21 - (2484016669471539 / 70368744177664))"] by (simp add: js_sub_def Math_pow_2 power2_eq_square)
  qed
  have f32: "Math_pow (Finite (- (1006273041740595 / 70368744177664))) 2 = Finite (7194852248445253 / 35184372088832)"
  proof -
    have "roundHalfEven (((- (1006273041740595 / 70368744177664)) * (- (1006273041740595 / 70368744177664))) * 2 ^ 45) = 7194852248445253"
      by (simp add: roundHalfEven_def Let_def)
    then show ?thesis
      using round64_scaled_up [of "(- (1006273041740595 / 70368744177664)) * (- (1006273041740595 / 70368744177664))" 45] by (simp add: js_sub_def Math_pow_2 power2_eq_square)
  qed
  have f33: "js_add (Finite (2776200889436733 / 1099511627776)) (Finite (7194852248445253 / 35184372088832)) = Finite (3001040022200647 / 1099511627776)"
  proof -
    have "roundHalfEven (((2776200889436733 / 1099511627776) + (7194852248445253 / 35184372088832)) * 2 ^ 41) = 6002080044401294"
      by (simp add: roundHalfEven_def Let_def)
    then show ?thesis
      using round64_scaled_up [of "(2776200889436733 / 1099511627776) + (7194852248445253 / 35184372088832)" 41] by (simp add: js_sub_def Math_pow_2 power2_eq_square)
  qed
  have f34: "js_sub (Finite 12) (Finite (2484016669471539 / 70368744177664)) = Finite (- (1639591739339571 / 70368744177664))"
  proof -
    have "roundHalfEven ((- (12 - (2484016669471539 / 70368744177664))) * 2 ^ 48) = 6558366957358284"
      by (simp add: roundHalfEven_def Let_def)
    then show ?thesis
      using round64_scaled_up [of "- (12 - (2484016669471539 / 70368744177664))" 48] round64_minus [of "- (12 - (2484016669471539 / 70368744177664))"] by (simp add: js_sub_def Math_pow_2 power2_eq_square)
  qed
  have f35: "Math_pow (Finite (- (1639591739339571 / 70368744177664))) 2 = Finite (1193827735206625 / 2199023255552)"
  proof -
    have "roundHalfEven (((- (1639591739339571 / 70368744177664)) * (- (1639591739339571 / 70368744177664))) * 2 ^ 43) = 4775310940826500"
      by (simp add: roundHalfEven_def Let_def)
    then show ?thesis
      using round64_scaled_up [of "(- (1639591739339571 / 70368744177664)) * (- (1639591739339571 / 70368744177664))" 43] by (simp add: js_sub_def Math_pow_2 power2_eq_square)
  qed
  have f36: "js_add (Finite (3001040022200647 / 1099511627776)) (Finite (1193827735206625 / 2199023255552)) = Finite (7195907779607919 / 2199023255552)"
  proof -
    have "roundHalfEven (((3001040022200647 / 1099511627776) + (1193827735206625 / 2199023255552)) * 2 ^ 41) = 7195907779607919"
      by (simp add: roundHalfEven_def Let_def)
    then show ?thesis
      using round64_scaled_up [of "(3001040022200647 / 1099511627776) + (1193827735206625 / 2199023255552)" 41] by (simp add: js_sub_def Math_pow_2 power2_eq_square)
  qed
  have f37: "js_sub (Finite 36) (Finite (2484016669471539 / 70368744177664)) = Finite (49258120924365 / 70368744177664)"
  proof -
    have "roundHalfEven ((36 - (2484016669471539 / 70368744177664)) * 2 ^ 53) = 6305039478318720"
      by (simp add: roundHalfEven_def Let_def)
    then show ?thesis
      using round64_scaled_up [of "36 - (2484016669471539 / 70368744177664)" 53] by (simp add: js_sub_def Math_pow_2 power2_eq_square)
  qed
  have f38: "Math_pow (Finite (49258120924365 / 70368744177664)) 2 = Finite (2206763817411561 / 4503599627370496)"
  proof -
    have "roundHalfEven (((49258120924365 / 70368744177664) * (49258120924365 / 70368744177664)) * 2 ^ 54) = 8827055269646244"
      by (simp add: roundHalfEven_def Let_def)
    then show ?thesis
      using round64_scaled_up [of "(49258120924365 / 70368744177664) * (49258120924365 / 70368744177664)" 54] by (simp add: js_sub_def Math_pow_2 power2_eq_square)
  qed
  have f39: "js_add (Finite (7195907779607919 / 2199023255552)) (Finite (2206763817411561 / 4503599627370496)) = Finite (7196985301003139 / 2199023255552)"
  proof -
    have "roundHalfEven (((7195907779607919 / 2199023255552) + (2206763817411561 / 4503599627370496)) * 2 ^ 41) = 7196985301003139"
      by (simp add: roundHalfEven_def Let_def)
    then show ?thesis
      using round64_scaled_up [of "(7195907779607919 / 2199023255552) + (2206763817411561 / 4503599627370496)" 41] by (simp add: js_sub_def Math_pow_2 power2_eq_square)
  qed
  have f40: "js_add (Finite (7196985301003139 / 2199023255552)) (Finite (2755727982927545 / 8796093022208)) = Finite (7885917296735025 / 2199023255552)"
  proof -
    have "roundHalfEven (((7196985301003139 / 2199023255552) + (2755727982927545 / 8796093022208)) * 2 ^ 41) = 7885917296735025"
      by (simp add: roundHalfEven_def Let_def)
    then show ?thesis
      using round64_scaled_up [of "(7196985301003139 / 2199023255552) + (2755727982927545 / 8796093022208)" 41] by (simp add: js_sub_def Math_pow_2 power2_eq_square)
  qed
  have f41: "js_div (Finite (7885917296735025 / 2199023255552)) (Finite 10) = Finite (1577183459347005 / 4398046511104)"
  proof -
    have "roundHalfEven (((7885917296735025 / 2199023255552) / 10) * 2 ^ 44) = 6308733837388020"
      by (simp add: roundHalfEven_def Let_def)
    then show ?thesis
      using round64_scaled_up [of "(7885917296735025 / 2199023255552) / 10" 44] by (simp add: js_sub_def Math_pow_2 power2_eq_square)
  qed
  have f42: "Math_sqrt (Finite (1577183459347005 / 4398046511104)) = Finite (5330291864357929 / 281474976710656)"
    using round64_sqrt_scaled_up [of "1577183459347005 / 4398046511104" 48 5330291864357929] by simp
  have A: "avg (calculateStats [Finite 13, Finite 41, Finite 59, Finite 56, Finite 53, Finite 9, Finite 21, Finite 12, Finite 36, Finite 53]) = Finite (2484016669471539 / 70368744177664)"
    unfolding avg_calculateStats by (simp only: foldl_Cons foldl_Nil f1 f2 f3 f4 f5 f6 f7 f8 f9 f10 f11 f12)
  have S: "sd (calculateStats [Finite 13, Finite 41, Finite 59, Finite 56, Finite 53, Finite 9, Finite 21, Finite 12, Finite 36, Finite 53]) = Finite (5330291864357929 / 281474976710656)"
    unfolding sd_calculateStats A by (simp only: foldl_Cons foldl_Nil f1 f13 f14 f15 f16 f17 f18 f19 f20 f21 f22 f23 f24 f25 f26 f27 f28 f29 f30 f31 f32 f33 f34 f35 f36 f37 f38 f39 f40 f41 f42)
  show ?thesis
    by (simp only: A S)
qed

lemma stats_medium:
  "avg (calculateStats [Finite 143, Finite 451, Finite 649, Finite 616, Finite 583, Finite 99, Finite 231, Finite 132, Finite 396, Finite 583]) = Finite (6831045841046733 / 17592186044416) \<and>
   sd (calculateStats [Finite 143, Finite 451, Finite 649, Finite 616, Finite 583, Finite 99, Finite 231, Finite 132, Finite 396, Finite 583]) = Finite (7329151313492153 / 35184372088832)"
proof -
  have f1: "Finite (real (length [Finite 143, Finite 451, Finite 649, Finite 616, Finite 583, Finite 99, Finite 231, Finite 132, Finite 396, Finite 583])) = Finite 10"
    by simp
  have f2: "js_add (Finite 0) (Finite 143) = Finite 143"
  proof -
    have "roundHalfEven ((0 + 143) * 2 ^ 45) = 5031365208702976"
      by (simp add: roundHalfEven_def Let_def)
    then show ?thesis
      using round64_scaled_up [of "0 + 143" 45] by (simp add: js_sub_def Math_pow_2 power2_eq_square)
  qed
  have f3: "js_add (Finite 143) (Finite 451) = Finite 594"
  proof -
    have "roundHalfEven ((143 + 451) * 2 ^ 43) = 5224879255191552"
      by (simp add: roundHalfEven_def Let_def)
    then show ?thesis
      using round64_scaled_up [of "143 + 451" 43] by (simp add: js_sub_def Math_pow_2 power2_eq_square)
  qed
  have f4: "js_add (Finite 594) (Finite 649) = Finite 1243"
  proof -
    have "roundHalfEven ((594 + 649) * 2 ^ 42) = 5466771813302272"
      by (simp add: roundHalfEven_def Let_def)
    then show ?thesis
      using round64_scaled_up [of "594 + 649" 42] by (simp add: js_sub_def Math_pow_2 power2_eq_square)
  qed
  have f5: "js_add (Finite 1243) (Finite 616) = Finite 1859"
  proof -
    have "roundHalfEven ((1243 + 616) * 2 ^ 42) = 8175968464142336"
      by (simp add: roundHalfEven_def Let_def)
    then show ?thesis
      using round64_scaled_up [of "1243 + 616" 42] by (simp add: js_sub_def Math_pow_2 power2_eq_square)
  qed
  have f6: "js_add (Finite 1859) (Finite 583) = Finite 2442"
  proof -
    have "roundHalfEven ((1859 + 583) * 2 ^ 41) = 5370014790057984"
      by (simp add: roundHalfEven_def Let_def)
    then show ?thesis
      using round64_scaled_up [of "1859 + 583" 41] by (simp add: js_sub_def Math_pow_2 power2_eq_square)
  qed
  have f7: "js_add (Finite 2442) (Finite 99) = Finite 2541"
  proof -
    have "roundHalfEven ((2442 + 99) * 2 ^ 41) = 5587718092357632"
      by (simp add: roundHalfEven_def Let_def)
    then show ?thesis
      using round64_scaled_up [of "2442 + 99" 41] by (simp add: js_sub_def Math_pow_2 power2_eq_square)
  qed
  have f8: "js_add (Finite 2541) (Finite 231) = Finite 2772"
  proof -
    have "roundHalfEven ((2541 + 231) * 2 ^ 41) = 6095692464390144"
      by (simp add: roundHalfEven_def Let_def)
    then show ?thesis
      using round64_scaled_up [of "2541 + 231" 41] by (simp add: js_sub_def Math_pow_2 power2_eq_square)
  qed
  have f9: "js_add (Finite 2772) (Finite 132) = Finite 2904"
  proof -
    have "roundHalfEven ((2772 + 132) * 2 ^ 41) = 6385963534123008"
      by (simp add: roundHalfEven_def Let_def)
    then show ?thesis
      using round64_scaled_up [of "2772 + 132" 41] by (simp add: js_sub_def Math_pow_2 power2_eq_square)
  qed
  have f10: "js_add (Finite 2904) (Finite 396) = Finite 3300"
  proof -
    have "roundHalfEven ((2904 + 396) * 2 ^ 41) = 7256776743321600"
      by (simp add: roundHalfEven_def Let_def)
    then show ?thesis
      using round64_scaled_up [of "2904 + 396" 41] by (simp add: js_sub_def Math_pow_2 power2_eq_square)
  qed
  have f11: "js_add (Finite 3300) (Finite 583) = Finite 3883"
  proof -
    have "roundHalfEven ((3300 + 583) * 2 ^ 41) = 8538807301308416"
      by (simp add: roundHalfEven_def Let_def)
    then show ?thesis
      using round64_scaled_up [of "3300 + 583" 41] by (simp add: js_sub_def Math_pow_2 power2_eq_square)
  qed
  have f12: "js_div (Finite 3883) (Finite 10) = Finite (6831045841046733 / 17592186044416)"
  proof -
    have "roundHalfEven ((3883 / 10) * 2 ^ 44) = 6831045841046733"
      by (simp add: roundHalfEven_def Let_def)
    then show ?thesis
      using round64_scaled_up [of "3883 / 10" 44] by (simp add: js_sub_def Math_pow_2 power2_eq_square)
  qed
  have f13: "js_sub (Finite 143) (Finite (6831045841046733 / 17592186044416)) = Finite (- (4315363236695245 / 17592186044416))"
  proof -
    have "roundHalfEven ((- (143 - (6831045841046733 / 17592186044416))) * 2 ^ 45) = 8630726473390490"
      by (simp add: roundHalfEven_def Let_def)
    then show ?thesis
      using round64_scaled_up [of "- (143 - (6831045841046733 / 17592186044416))" 45] round64_minus [of "- (143 - (6831045841046733 / 17592186044416))"] by (simp add: js_sub_def Math_pow_2 power2_eq_square)
  qed
  have f14: "Math_pow (Finite (- (4315363236695245 / 17592186044416))) 2 = Finite (8269989077822997 / 137438953472)"
  proof -
    have "roundHalfEven (((- (4315363236695245 / 17592186044416)) * (- (4315363236695245 / 17592186044416))) * 2 ^ 37) = 8269989077822997"
      by (simp add: roundHalfEven_def Let_def)
    then show ?thesis
      using round64_scaled_up [of "(- (4315363236695245 / 17592186044416)) * (- (4315363236695245 / 17592186044416))" 37] by (simp add: js_sub_def Math_pow_2 power2_eq_square)
  qed
  have f15: "js_add (Finite 0) (Finite (8269989077822997 / 137438953472)) = Finite (8269989077822997 / 137438953472)"
  proof -
    have "roundHalfEven ((0 + (8269989077822997 / 137438953472)) * 2 ^ 37) = 8269989077822997"
      by (simp add: roundHalfEven_def Let_def)
    then show ?thesis
      using round64_scaled_up [of "0 + (8269989077822997 / 137438953472)" 37] by (simp add: js_sub_def Math_pow_2 power2_eq_square)
  qed
  have f16: "js_sub (Finite 451) (Finite (6831045841046733 / 17592186044416)) = Finite (1103030064984883 / 17592186044416)"
  proof -
    have "roundHalfEven ((451 - (6831045841046733 / 17592186044416)) * 2 ^ 47) = 8824240519879064"
      by (simp add: roundHalfEven_def Let_def)
    then show ?thesis
      using round64_scaled_up [of "451 - (6831045841046733 / 17592186044416)" 47] by (simp add: js_sub_def Math_pow_2 power2_eq_square)
  qed
  have f17: "Math_pow (Finite (1103030064984883 / 17592186044416)) 2 = Finite (8644998134319019 / 2199023255552)"
  proof -
    have "roundHalfEven (((1103030064984883 / 17592186044416) * (1103030064984883 / 17592186044416)) * 2 ^ 41) = 8644998134319019"
      by (simp add: roundHalfEven_def Let_def)
    then show ?thesis
      using round64_scaled_up [of "(1103030064984883 / 17592186044416) * (1103030064984883 / 17592186044416)" 41] by (simp add: js_sub_def Math_pow_2 power2_eq_square)
  qed
  have f18: "js_add (Finite (8269989077822997 / 137438953472)) (Finite (8644998134319019 / 2199023255552)) = Finite (550643841326121 / 8589934592)"
  proof -
    have "roundHalfEven (((8269989077822997 / 137438953472) + (8644998134319019 / 2199023255552)) * 2 ^ 37) = 8810301461217936"
      by (simp add: roundHalfEven_def Let_def)
    then show ?thesis
      using round64_scaled_up [of "(8269989077822997 / 137438953472) + (8644998134319019 / 2199023255552)" 37] by (simp add: js_sub_def Math_pow_2 power2_eq_square)
  qed
  have f19: "js_sub (Finite 649) (Finite (6831045841046733 / 17592186044416)) = Finite (4586282901779251 / 17592186044416)"
  proof -
    have "roundHalfEven ((649 - (6831045841046733 / 17592186044416)) * 2 ^ 44) = 4586282901779251"
      by (simp add: roundHalfEven_def Let_def)
    then show ?thesis
      using round64_scaled_up [of "649 - (6831045841046733 / 17592186044416)" 44] by (simp add: js_sub_def Math_pow_2 power2_eq_square)
  qed
  have f20: "Math_pow (Finite (4586282901779251 / 17592186044416)) 2 = Finite (291905261839319 / 4294967296)"
  proof -
    have "roundHalfEven (((4586282901779251 / 17592186044416) * (4586282901779251 / 17592186044416)) * 2 ^ 36) = 4670484189429104"
      by (simp add: roundHalfEven_def Let_def)
    then show ?thesis
      using round64_scaled_up [of "(4586282901779251 / 17592186044416) * (4586282901779251 / 17592186044416)" 36] by (simp add: js_sub_def Math_pow_2 power2_eq_square)
  qed
  have f21: "js_add (Finite (550643841326121 / 8589934592)) (Finite (291905261839319 / 4294967296)) = Finite (1134454365004759 / 8589934592)"
  proof -
    have "roundHalfEven (((550643841326121 / 8589934592) + (291905261839319 / 4294967296)) * 2 ^ 35) = 4537817460019036"
      by (simp add: roundHalfEven_def Let_def)
    then show ?thesis
      using round64_scaled_up [of "(550643841326121 / 8589934592) + (291905261839319 / 4294967296)" 35] by (simp add: js_sub_def Math_pow_2 power2_eq_square)
  qed
  have f22: "js_sub (Finite 616) (Finite (6831045841046733 / 17592186044416)) = Finite (4005740762313523 / 17592186044416)"
  proof -
    have "roundHalfEven ((616 - (6831045841046733 / 17592186044416)) * 2 ^ 45) = 8011481524627046"
      by (simp add: roundHalfEven_def Let_def)
    then show ?thesis
      using round64_scaled_up [of "616 - (6831045841046733 / 17592186044416)" 45] by (simp add: js_sub_def Math_pow_2 power2_eq_square)
  qed
  have f23: "Math_pow (Finite (4005740762313523 / 17592186044416)) 2 = Finite (3562918638979645 / 68719476736)"
  proof -
    have "roundHalfEven (((4005740762313523 / 17592186044416) * (4005740762313523 / 17592186044416)) * 2 ^ 37) = 7125837277959290"
      by (simp add: roundHalfEven_def Let_def)
    then show ?thesis
      using round64_scaled_up [of "(4005740762313523 / 17592186044416) * (4005740762313523 / 17592186044416)" 37] by (simp add: js_sub_def Math_pow_2 power2_eq_square)
  qed
  have f24: "js_add (Finite (1134454365004759 / 8589934592)) (Finite (3562918638979645 / 68719476736)) = Finite (3159638389754429 / 17179869184)"
  proof -
    have "roundHalfEven (((1134454365004759 / 8589934592) + (3562918638979645 / 68719476736)) * 2 ^ 35) = 6319276779508858"
      by (simp add: roundHalfEven_def Let_def)
    then show ?thesis
      using round64_scaled_up [of "(1134454365004759 / 8589934592) + (3562918638979645 / 68719476736)" 35] by (simp add: js_sub_def Math_pow_2 power2_eq_square)
  qed
  have f25: "js_sub (Finite 583) (Finite (6831045841046733 / 17592186044416)) = Finite (3425198622847795 / 17592186044416)"
  proof -
    have "roundHalfEven ((583 - (6831045841046733 / 17592186044416)) * 2 ^ 45) = 6850397245695590"
      by (simp add: roundHalfEven_def Let_def)
    then show ?thesis
      using round64_scaled_up [of "583 - (6831045841046733 / 17592186044416)" 45] by (simp add: js_sub_def Math_pow_2 power2_eq_square)
  qed
  have f26: "Math_pow (Finite (3425198622847795 / 17592186044416)) 2 = Finite (1302512054430597 / 34359738368)"
  proof -
    have "roundHalfEven (((3425198622847795 / 17592186044416) * (3425198622847795 / 17592186044416)) * 2 ^ 37) = 5210048217722388"
      by (simp add: roundHalfEven_def Let_def)
    then show ?thesis
      using round64_scaled_up [of "(3425198622847795 / 17592186044416) * (3425198622847795 / 17592186044416)" 37] by (simp add: js_sub_def Math_pow_2 power2_eq_square)
  qed
  have f27: "js_add (Finite (3159638389754429 / 17179869184)) (Finite (1302512054430597 / 34359738368)) = Finite (7621788833939455 / 34359738368)"
  proof -
    have "roundHalfEven (((3159638389754429 / 17179869184) + (1302512054430597 / 34359738368)) * 2 ^ 35) = 7621788833939455"
      by (simp add: roundHalfEven_def Let_def)
    then show ?thesis
      using round64_scaled_up [of "(3159638389754429 / 17179869184) + (1302512054430597 / 34359738368)" 35] by (simp add: js_sub_def Math_pow_2 power2_eq_square)
  qed
  have f28: "js_sub (Finite 99) (Finite (6831045841046733 / 17592186044416)) = Finite (- (5089419422649549 / 17592186044416))"
  proof -
    have "roundHalfEven ((- (99 - (6831045841046733 / 17592186044416))) * 2 ^ 44) = 5089419422649549"
      by (simp add: roundHalfEven_def Let_def)
    then show ?thesis
      using round64_scaled_up [of "- (99 - (6831045841046733 / 17592186044416))" 44] round64_minus [of "- (99 - (6831045841046733 / 17592186044416))"] by (simp add: js_sub_def Math_pow_2 power2_eq_square)
  qed
  have f29: "Math_pow (Finite (- (5089419422649549 / 17592186044416))) 2 = Finite (5751441558486385 / 68719476736)"
  proof -
    have "roundHalfEven (((- (5089419422649549 / 17592186044416)) * (- (5089419422649549 / 17592186044416))) * 2 ^ 36) = 5751441558486385"
      by (simp add: roundHalfEven_def Let_def)
    then show ?thesis
      using round64_scaled_up [of "(- (5089419422649549 / 17592186044416)) * (- (5089419422649549 / 17592186044416))" 36] by (simp add: js_sub_def Math_pow_2 power2_eq_square)
  qed
  have f30: "js_add (Finite (7621788833939455 / 34359738368)) (Finite (5751441558486385 / 68719476736)) = Finite (1312188701647831 / 4294967296)"
  proof -
    have "roundHalfEven (((7621788833939455 / 34359738368) + (5751441558486385 / 68719476736)) * 2 ^ 34) = 5248754806591324"
      by (simp add: roundHalfEven_def Let_def)
    then show ?thesis
      using round64_scaled_up [of "(7621788833939455 / 34359738368) + (5751441558486385 / 68719476736)" 34] by (simp add: js_sub_def Math_pow_2 power2_eq_square)
  qed
  have f31: "js_sub (Finite 231) (Finite (6831045841046733 / 17592186044416)) = Finite (- (2767250864786637 / 17592186044416))"
  proof -
    have "roundHalfEven ((- (231 - (6831045841046733 / 17592186044416))) * 2 ^ 45) = 5534501729573274"
      by (simp add: roundHalfEven_def Let_def)
    then show ?thesis
      using round64_scaled_up [of "- (231 - (6831045841046733 / 17592186044416))" 45] round64_minus [of "- (231 - (6831045841046733 / 17592186044416))"] by (simp add: js_sub_def Math_pow_2 power2_eq_square)
  qed
  have f32: "Math_pow (Finite (- (2767250864786637 / 17592186044416))) 2 = Finite (6801383766108407 / 274877906944)"
  proof -
    have "roundHalfEven (((- (2767250864786637 / 17592186044416)) * (- (2767250864786637 / 17592186044416))) * 2 ^ 38) = 6801383766108407"
      by (simp add: roundHalfEven_def Let_def)
    then show ?thesis
      using round64_scaled_up [of "(- (2767250864786637 / 17592186044416)) * (- (2767250864786637 / 17592186044416))" 38] by (simp add: js_sub_def Math_pow_2 power2_eq_square)
  qed
  have f33: "js_add (Finite (1312188701647831 / 4294967296)) (Finite (6801383766108407 / 274877906944)) = Finite (5673841291973099 / 17179869184)"
  proof -
    have "roundHalfEven (((1312188701647831 / 4294967296) + (6801383766108407 / 274877906944)) * 2 ^ 34) = 5673841291973099"
      by (simp add: roundHalfEven_def Let_def)
    then show ?thesis
      using round64_scaled_up [of "(1312188701647831 / 4294967296) + (6801383766108407 / 274877906944)" 34] by (simp add: js_sub_def Math_pow_2 power2_eq_square)
  qed
  have f34: "js_sub (Finite 132) (Finite (6831045841046733 / 17592186044416)) = Finite (- (4508877283183821 / 17592186044416))"
  proof -
    have "roundHalfEven ((- (132 - (6831045841046733 / 17592186044416))) * 2 ^ 44) = 4508877283183821"
      by (simp add: roundHalfEven_def Let_def)
    then show ?thesis
      using round64_scaled_up [of "- (132 - (6831045841046733 / 17592186044416))" 44] round64_minus [of "- (132 - (6831045841046733 / 17592186044416))"] by (simp add: js_sub_def Math_pow_2 power2_eq_square)
  qed
  have f35: "Math_pow (Finite (- (4508877283183821 / 17592186044416))) 2 = Finite (1128540280937513 / 17179869184)"
  proof -
    have "roundHalfEven (((- (4508877283183821 / 17592186044416)) * (- (4508877283183821 / 17592186044416))) * 2 ^ 36) = 4514161123750052"
      by (simp add: roundHalfEven_def Let_def)
    then show ?thesis
      using round64_scaled_up [of "(- (4508877283183821 / 17592186044416)) * (- (4508877283183821 / 17592186044416))" 36] by (simp add: js_sub_def Math_pow_2 power2_eq_square)
  qed
  have f36: "js_add (Finite (5673841291973099 / 17179869184)) (Finite (1128540280937513 / 17179869184)) = Finite (1700595393227653 / 4294967296)"
  proof -
    have "roundHalfEven (((5673841291973099 / 17179869184) + (1128540280937513 / 17179869184)) * 2 ^ 34) = 6802381572910612"
      by (simp add: roundHalfEven_def Let_def)
    then show ?thesis
      using round64_scaled_up [of "(5673841291973099 / 17179869184) + (1128540280937513 / 17179869184)" 34] by (simp add: js_sub_def Math_pow_2 power2_eq_square)
  qed
  have f37: "js_sub (Finite 396) (Finite (6831045841046733 / 17592186044416)) = Finite (135459832542003 / 17592186044416)"
  proof -
    have "roundHalfEven ((396 - (6831045841046733 / 17592186044416)) * 2 ^ 50) = 8669429282688192"
      by (simp add: roundHalfEven_def Let_def)
    then show ?thesis
      using round64_scaled_up [of "396 - (6831045841046733 / 17592186044416)" 50] by (simp add: js_sub_def Math_pow_2 power2_eq_square)
  qed
  have f38: "Math_pow (Finite (135459832542003 / 17592186044416)) 2 = Finite (2086081421146843 / 35184372088832)"
  proof -
    have "roundHalfEven (((135459832542003 / 17592186044416) * (135459832542003 / 17592186044416)) * 2 ^ 47) = 8344325684587372"
      by (simp add: roundHalfEven_def Let_def)
    then show ?thesis
      using round64_scaled_up [of "(135459832542003 / 17592186044416) * (135459832542003 / 17592186044416)" 47] by (simp add: js_sub_def Math_pow_2 power2_eq_square)
  qed
  have f39: "js_add (Finite (1700595393227653 / 4294967296)) (Finite (2086081421146843 / 35184372088832)) = Finite (6803400167354531 / 17179869184)"
  proof -
    have "roundHalfEven (((1700595393227653 / 4294967296) + (2086081421146843 / 35184372088832)) * 2 ^ 34) = 6803400167354531"
      by (simp add: roundHalfEven_def Let_def)
    then show ?thesis
      using round64_scaled_up [of "(1700595393227653 / 4294967296) + (2086081421146843 / 35184372088832)" 34] by (simp add: js_sub_def Math_pow_2 power2_eq_square)
  qed
  have f40: "js_add (Finite (6803400167354531 / 17179869184)) (Finite (1302512054430597 / 34359738368)) = Finite (3727328097284915 / 8589934592)"
  proof -
    have "roundHalfEven (((6803400167354531 / 17179869184) + (1302512054430597 / 34359738368)) * 2 ^ 34) = 7454656194569830"
      by (simp add: roundHalfEven_def Let_def)
    then show ?thesis
      using round64_scaled_up [of "(6803400167354531 / 17179869184) + (1302512054430597 / 34359738368)" 34] by (simp add: js_sub_def Math_pow_2 power2_eq_square)
  qed
  have f41: "js_div (Finite (3727328097284915 / 8589934592)) (Finite 10) = Finite (745465619456983 / 17179869184)"
  proof -
    have "roundHalfEven (((3727328097284915 / 8589934592) / 10) * 2 ^ 37) = 5963724955655864"
      by (simp add: roundHalfEven_def Let_def)
    then show ?thesis
      using round64_scaled_up [of "(3727328097284915 / 8589934592) / 10" 37] by (simp add: js_sub_def Math_pow_2 power2_eq_square)
  qed
  have f42: "Math_sqrt (Finite (745465619456983 / 17179869184)) = Finite (7329151313492153 / 35184372088832)"
    using round64_sqrt_scaled_up [of "745465619456983 / 17179869184" 45 7329151313492153] by simp
  have A: "avg (calculateStats [Finite 143, Finite 451, Finite 649, Finite 616, Finite 583, Finite 99, Finite 231, Finite 132, Finite 396, Finite 583]) = Finite (6831045841046733 / 17592186044416)"
    unfolding avg_calculateStats by (simp only: foldl_Cons foldl_Nil f1 f2 f3 f4 f5 f6 f7 f8 f9 f10 f11 f12)
  have S: "sd (calculateStats [Finite 143, Finite 451, Finite 649, Finite 616, Finite 583, Finite 99, Finite 231, Finite 132, Finite 396, Finite 583]) = Finite (7329151313492153 / 35184372088832)"
    unfolding sd_calculateStats A by (simp only: foldl_Cons foldl_Nil f1 f13 f14 f15 f16 f17 f18 f19 f20 f21 f22 f23 f24 f25 f26 f27 f28 f29 f30 f31 f32 f33 f34 f35 f36 f37 f38 f39 f40 f41 f42)
  show ?thesis
    by (simp only: A S)
qed

lemma equal_quotients:
  "cv (''Lightweight'', calculateStats [Finite 13, Finite 41, Finite 59, Finite 56, Finite 53, Finite 9, Finite 21, Finite 12, Finite 36, Finite 53]) = Finite (603999078114213 / 1125899906842624) \<and>
   cv (''Medium'', calculateStats [Finite 143, Finite 451, Finite 649, Finite 616, Finite 583, Finite 99, Finite 231, Finite 132, Finite 396, Finite 583]) = Finite (603999078114213 / 1125899906842624)"
proof -
  have f1: "js_div (Finite (5330291864357929 / 281474976710656)) (Finite (2484016669471539 / 70368744177664)) = Finite (603999078114213 / 1125899906842624)"
  proof -
    have "roundHalfEven (((5330291864357929 / 281474976710656) / (2484016669471539 / 70368744177664)) * 2 ^ 53) = 4831992624913704"
      by (simp add: roundHalfEven_def Let_def)
    then show ?thesis
      using round64_scaled_up [of "(5330291864357929 / 281474976710656) / (2484016669471539 / 70368744177664)" 53] by (simp add: js_sub_def Math_pow_2 power2_eq_square)
  qed
  have f2: "js_div (Finite (7329151313492153 / 35184372088832)) (Finite (6831045841046733 / 17592186044416)) = Finite (603999078114213 / 1125899906842624)"
  proof -
    have "roundHalfEven (((7329151313492153 / 35184372088832) / (6831045841046733 / 17592186044416)) * 2 ^ 53) = 4831992624913704"
      by (simp add: roundHalfEven_def Let_def)
    then show ?thesis
      using round64_scaled_up [of "(7329151313492153 / 35184372088832) / (6831045841046733 / 17592186044416)" 53] by (simp add: js_sub_def Math_pow_2 power2_eq_square)
  qed
  show ?thesis
    by (simp only: cv_def snd_conv stats_light stats_medium f1 f2)
qed

lemma round64_1e23: "round64 (100000000000000000000000) = Finite (99999999999999991611392)"
proof -
  have "roundHalfEven (100000000000000000000000 / 2 ^ 24) = 5960464477539062"
    by (simp add: roundHalfEven_def)
  then show ?thesis
    using round64_scaled_down [of "100000000000000000000000" 24] by simp
qed

lemma round64_1e26_ms: "round64 (2499999999999999689621504 / 25) = Finite (99999999999999991611392)"
proof -
  have "roundHalfEven (2499999999999999689621504 / 25 / 2 ^ 24) = 5960464477539062"
    by (simp add: roundHalfEven_def)
  then show ?thesis
    using round64_scaled_down [of "2499999999999999689621504 / 25" 24] by simp
qed

section \<open>Equal quotients and a large duration\<close>

text \<open>Two labels whose binary64 quotients are equal although the exact quotient of the
  second is the smaller one: the \<^verbatim>\<open>reduce\<close> keeps the first.\<close>

lemma mostConsistentKey_equal_quotients:
  "mostConsistentKey
     [(''Lightweight'', calculateStats [Finite 13, Finite 41, Finite 59, Finite 56, Finite 53,
         Finite 9, Finite 21, Finite 12, Finite 36, Finite 53]),
      (''Medium'', calculateStats [Finite 143, Finite 451, Finite 649, Finite 616, Finite 583,
         Finite 99, Finite 231, Finite 132, Finite 396, Finite 583])] = ''Lightweight'' \<and>
   (7329151313492153 / 35184372088832 :: real) / (6831045841046733 / 17592186044416)
     < (5330291864357929 / 281474976710656) / (2484016669471539 / 70368744177664)"
  by (simp add: mostConsistentKey_def equal_quotients)

text \<open>A quotient of \<open>10^21\<close> and more whose shortest digits are not its exact digits.\<close>

lemma natToString_1e23:
  "natToString 99999999999999991611392 = ''99999999999999991611392''"
  by (simp add: natToString.simps digitChar_def)

lemma natToString_23: "natToString 23 = ''23''"
  by (simp add: natToString.simps digitChar_def)

lemma numberToStringLarge_1e23: "numberToStringLarge 99999999999999991611392 = ''1e+23''"
proof -
  have n: "length (natToString (nat \<lfloor>99999999999999991611392 :: real\<rfloor>)) = 23"
    by (simp add: natToString_1e23)
  have rt: "roundTrips 99999999999999991611392 1 23"
    by (simp add: roundTrips_def round64_1e23)
  show ?thesis
    by (simp only: numberToStringLarge_def n Let_def rt if_True natToString_23) simp
qed

section \<open>The shortest digits of a large quotient\<close>

text \<open>The shortest digits of the quotient of the binary64 value of \<open>1.2345e24\<close> by \<open>1000\<close>:
  no string of fewer than seventeen digits reads back as the quotient.\<close>

lemma round64_digits_1: "round64 (1000000000000000000000) = Finite (1000000000000000000000)"
proof -
  have "roundHalfEven (1000000000000000000000 / 2 ^ 17) = 7629394531250000"
    by (simp add: roundHalfEven_def)
  then show ?thesis
    using round64_scaled_down [of "1000000000000000000000" 17] by simp
qed

lemma round64_digits_2: "round64 (2000000000000000000000) = Finite (2000000000000000000000)"
proof -
  have "roundHalfEven (2000000000000000000000 / 2 ^ 18) = 7629394531250000"
    by (simp add: roundHalfEven_def)
  then show ?thesis
    using round64_scaled_down [of "2000000000000000000000" 18] by simp
qed

lemma round64_digits_3: "round64 (1200000000000000000000) = Finite (1200000000000000000000)"
proof -
  have "roundHalfEven (1200000000000000000000 / 2 ^ 18) = 4577636718750000"
    by (simp add: roundHalfEven_def)
  then show ?thesis
    using round64_scaled_down [of "1200000000000000000000" 18] by simp
qed

lemma round64_digits_4: "round64 (1300000000000000000000) = Finite (1300000000000000000000)"
proof -
  have "roundHalfEven (1300000000000000000000 / 2 ^ 18) = 4959106445312500"
    by (simp add: roundHalfEven_def)
  then show ?thesis
    using round64_scaled_down [of "1300000000000000000000" 18] by simp
qed

lemma round64_digits_5: "round64 (1230000000000000000000) = Finite (1230000000000000000000)"
proof -
  have "roundHalfEven (1230000000000000000000 / 2 ^ 18) = 4692077636718750"
    by (simp add: roundHalfEven_def)
  then show ?thesis
    using round64_scaled_down [of "1230000000000000000000" 18] by simp
qed

lemma round64_digits_6: "round64 (1240000000000000000000) = Finite (1240000000000000000000)"
proof -
  have "roundHalfEven (1240000000000000000000 / 2 ^ 18) = 4730224609375000"
    by (simp add: roundHalfEven_def)
  then show ?thesis
    using round64_scaled_down [of "1240000000000000000000" 18] by simp
qed

lemma round64_digits_7: "round64 (1234000000000000000000) = Finite (1234000000000000000000)"
proof -
  have "roundHalfEven (1234000000000000000000 / 2 ^ 18) = 4707336425781250"
    by (simp add: roundHalfEven_def)
  then show ?thesis
    using round64_scaled_down [of "1234000000000000000000" 18] by simp
qed

lemma round64_digits_8: "round64 (1235000000000000000000) = Finite (1235000000000000000000)"
proof -
  have "roundHalfEven (1235000000000000000000 / 2 ^ 18) = 4711151123046875"
    by (simp add: roundHalfEven_def)
  then show ?thesis
    using round64_scaled_down [of "1235000000000000000000" 18] by simp
qed

lemma round64_digits_9: "round64 (1234500000000000000000) = Finite (1234499999999999868928)"
proof -
  have "roundHalfEven (1234500000000000000000 / 2 ^ 18) = 4709243774414062"
    by (simp add: roundHalfEven_def)
  then show ?thesis
    using round64_scaled_down [of "1234500000000000000000" 18] by simp
qed

lemma round64_digits_10: "round64 (1234600000000000000000) = Finite (1234600000000000000000)"
proof -
  have "roundHalfEven (1234600000000000000000 / 2 ^ 18) = 4709625244140625"
    by (simp add: roundHalfEven_def)
  then show ?thesis
    using round64_scaled_down [of "1234600000000000000000" 18] by simp
qed

lemma round64_digits_11: "round64 (1234510000000000000000) = Finite (1234510000000000065536)"
proof -
  have "roundHalfEven (1234510000000000000000 / 2 ^ 18) = 4709281921386719"
    by (simp add: roundHalfEven_def)
  then show ?thesis
    using round64_scaled_down [of "1234510000000000000000" 18] by simp
qed

lemma round64_digits_12: "round64 (1234501000000000000000) = Finite (1234500999999999967232)"
proof -
  have "roundHalfEven (1234501000000000000000 / 2 ^ 18) = 4709247589111328"
    by (simp add: roundHalfEven_def)
  then show ?thesis
    using round64_scaled_down [of "1234501000000000000000" 18] by simp
qed

lemma round64_digits_13: "round64 (1234500100000000000000) = Finite (1234500099999999983616)"
proof -
  have "roundHalfEven (1234500100000000000000 / 2 ^ 18) = 4709244155883789"
    by (simp add: roundHalfEven_def)
  then show ?thesis
    using round64_scaled_down [of "1234500100000000000000" 18] by simp
qed

lemma round64_digits_14: "round64 (1234500010000000000000) = Finite (1234500009999999959040)"
proof -
  have "roundHalfEven (1234500010000000000000 / 2 ^ 18) = 4709243812561035"
    by (simp add: roundHalfEven_def)
  then show ?thesis
    using round64_scaled_down [of "1234500010000000000000" 18] by simp
qed

lemma round64_digits_15: "round64 (1234500001000000000000) = Finite (1234500001000000061440)"
proof -
  have "roundHalfEven (1234500001000000000000 / 2 ^ 18) = 4709243778228760"
    by (simp add: roundHalfEven_def)
  then show ?thesis
    using round64_scaled_down [of "1234500001000000000000" 18] by simp
qed

lemma round64_digits_16: "round64 (1234500000100000000000) = Finite (1234500000099999940608)"
proof -
  have "roundHalfEven (1234500000100000000000 / 2 ^ 18) = 4709243774795532"
    by (simp add: roundHalfEven_def)
  then show ?thesis
    using round64_scaled_down [of "1234500000100000000000" 18] by simp
qed

lemma round64_digits_17: "round64 (1234500000010000000000) = Finite (1234500000009999876096)"
proof -
  have "roundHalfEven (1234500000010000000000 / 2 ^ 18) = 4709243774452209"
    by (simp add: roundHalfEven_def)
  then show ?thesis
    using round64_scaled_down [of "1234500000010000000000" 18] by simp
qed

lemma round64_digits_18: "round64 (1234500000001000000000) = Finite (1234500000000999948288)"
proof -
  have "roundHalfEven (1234500000001000000000 / 2 ^ 18) = 4709243774417877"
    by (simp add: roundHalfEven_def)
  then show ?thesis
    using round64_scaled_down [of "1234500000001000000000" 18] by simp
qed

lemma round64_digits_19: "round64 (1234500000000100000000) = Finite (1234500000000100007936)"
proof -
  have "roundHalfEven (1234500000000100000000 / 2 ^ 18) = 4709243774414444"
    by (simp add: roundHalfEven_def)
  then show ?thesis
    using round64_scaled_down [of "1234500000000100000000" 18] by simp
qed

lemma round64_digits_20: "round64 (1234500000000010000000) = Finite (1234500000000010092544)"
proof -
  have "roundHalfEven (1234500000000010000000 / 2 ^ 18) = 4709243774414101"
    by (simp add: roundHalfEven_def)
  then show ?thesis
    using round64_scaled_down [of "1234500000000010000000" 18] by simp
qed

lemma round64_digits_21: "round64 (1234500000000001000000) = Finite (1234500000000000917504)"
proof -
  have "roundHalfEven (1234500000000001000000 / 2 ^ 18) = 4709243774414066"
    by (simp add: roundHalfEven_def)
  then show ?thesis
    using round64_scaled_down [of "1234500000000001000000" 18] by simp
qed

lemma round64_digits_22: "round64 (1234500000000000100000) = Finite (1234500000000000131072)"
proof -
  have "roundHalfEven (1234500000000000100000 / 2 ^ 18) = 4709243774414063"
    by (simp add: roundHalfEven_def)
  then show ?thesis
    using round64_scaled_down [of "1234500000000000100000" 18] by simp
qed

lemma round64_digits_23: "round64 (1234500000000000200000) = Finite (1234500000000000131072)"
proof -
  have "roundHalfEven (1234500000000000200000 / 2 ^ 18) = 4709243774414063"
    by (simp add: roundHalfEven_def)
  then show ?thesis
    using round64_scaled_down [of "1234500000000000200000" 18] by simp
qed

lemma round64_12345_ms: "round64 (154312500000000003014656 / 125) = Finite (1234500000000000131072)"
proof -
  have "roundHalfEven (154312500000000003014656 / 125 / 2 ^ 18) = 4709243774414063"
    by (simp add: roundHalfEven_def)
  then show ?thesis
    using round64_scaled_down [of "154312500000000003014656 / 125" 18] by simp
qed

lemma round64_12345_duration: "round64 (1234500000000000024117248) = Finite (1234500000000000024117248)"
proof -
  have "roundHalfEven (1234500000000000024117248 / 2 ^ 28) = 4598870873451233"
    by (simp add: roundHalfEven_def)
  then show ?thesis
    using round64_scaled_down [of "1234500000000000024117248" 28] by simp
qed

lemma upt_1_18: "[1..<18] = [1, 2, 3, 4, 5, 6, 7, 8, 9, 10, 11, 12, 13, 14, 15, 16, 17 :: nat]"
  by (simp add: upt_conv_Cons)

lemma firstDigits_12345:
  "firstDigits 1234500000000000131072 22 [1..<18] = Some 12345000000000001"
  unfolding upt_1_18
  by (simp add: digitsOfLength_def roundTrips_def Let_def
      round64_digits_1 round64_digits_2 round64_digits_3 round64_digits_4
      round64_digits_5 round64_digits_6 round64_digits_7 round64_digits_8
      round64_digits_9 round64_digits_10 round64_digits_11 round64_digits_12
      round64_digits_13 round64_digits_14 round64_digits_15 round64_digits_16
      round64_digits_17 round64_digits_18 round64_digits_19 round64_digits_20
      round64_digits_21 round64_digits_22 round64_digits_23)

lemma natToString_12345_digits: "natToString 12345000000000001 = ''12345000000000001''"
  by (simp add: natToString.simps digitChar_def)

lemma natToString_12345_value: "natToString 1234500000000000131072 = ''1234500000000000131072''"
  by (simp add: natToString.simps digitChar_def)

lemma round64_1e22_not_12345: "\<not> roundTrips 1234500000000000131072 1 22"
  by (simp add: roundTrips_def round64_1e22)

lemma numberToStringLarge_12345:
  "numberToStringLarge 1234500000000000131072 = ''1.2345000000000001e+21''"
proof -
  have n: "length (natToString (nat \<lfloor>1234500000000000131072 :: real\<rfloor>)) = 22"
    by (simp add: natToString_12345_value)
  have d: "22 - 1 = (21 :: nat)"
    by simp
  show ?thesis
    by (simp only: numberToStringLarge_def n Let_def round64_1e22_not_12345 firstDigits_12345 d
        if_False option.case natToString_12345_digits natToString_21) simp
qed

lemma formatDuration_12345:
  "formatDuration (Finite 1234500000000000024117248) = Inr ''1.2345000000000001e+21s''"
proof -
  have q: "round64 (1234500000000000024117248 / 1000) = Finite 1234500000000000131072"
    using round64_12345_ms by simp
  show ?thesis
    using formatDuration_scientific [OF _ q] by (simp add: numberToStringLarge_12345)
qed

section \<open>More evaluations\<close>

lemma round64_1435: "round64 (287 / 20) = Finite (8078331831595827 / 562949953421312)"
proof -
  have "roundHalfEven (287 / 20 * 2 ^ 49) = 8078331831595827"
    by (simp add: roundHalfEven_def)
  then show ?thesis
    using round64_scaled_up [of "287 / 20" 49] by simp
qed

lemma natToString_143: "natToString 143 = ''143''"
  by (simp add: natToString.simps digitChar_def)

lemma natToString_843: "natToString 843 = ''843''"
  by (simp add: natToString.simps digitChar_def)

lemma toFixedDigits_1435: "toFixedDigits (8078331831595827 / 562949953421312) 1 = ''14.3''"
proof -
  have "\<lfloor>(8078331831595827 / 562949953421312 :: real) * 10 ^ 1 + 1 / 2\<rfloor> = 143"
    by (simp add: floor_eq_iff)
  then show ?thesis
    by (simp add: toFixedDigits_def natToString_143)
qed

lemma formatDuration_842_5: "formatDuration (Finite 842.5) = Inr ''843ms''"
proof -
  have "\<lfloor>(842.5 :: real) + 1 / 2\<rfloor> = 843"
    by (simp add: floor_eq_iff)
  then have "toFixedDigits 842.5 0 = ''843''"
    by (simp add: toFixedDigits_def natToString_843)
  then show ?thesis
    by (simp add: formatDuration_milliseconds)
qed

section \<open>Claims on the statistics calculator\<close>

text \<open>C1, as stated, fails: on the empty sequence \<open>calculateStats\<close> raises nothing and
  returns a record, the quotients \<open>0 / 0\<close> being \<open>NaN\<close> and \<^verbatim>\<open>Math.min()\<close>,
  \<^verbatim>\<open>Math.max()\<close> the two infinities.\<close>

theorem calculateStats_empty_counterexample:
  "calculateStats [] = \<lparr>avg = NaN, min_stat = PosInf, max_stat = NegInf, sd = NaN\<rparr>"
  by (simp add: calculateStats_def Math_min_def Math_max_def)

text \<open>C1 (amended): for every empty sequence of Durations \<open>calculateStats\<close> does not fail;
  it returns the record with average \<open>NaN\<close>, minimum \<open>+Infinity\<close>, maximum \<open>-Infinity\<close>
  and standard deviation \<open>NaN\<close>. The function has no exception to raise: its model is
  a total function into \<open>Stats\<close>.\<close>

theorem calculateStats_empty:
  "length values = 0 \<Longrightarrow>
     calculateStats values = \<lparr>avg = NaN, min_stat = PosInf, max_stat = NegInf, sd = NaN\<rparr>"
  by (simp add: calculateStats_def Math_min_def Math_max_def)

theorem calculateStats_empty_witness:
  "length ([] :: jsnum list) = 0 \<and>
   calculateStats [] = \<lparr>avg = NaN, min_stat = PosInf, max_stat = NegInf, sd = NaN\<rparr>"
  using calculateStats_empty [of "[]"] by simp







text \<open>C7, as stated, fails: on three copies of the binary64 value of \<open>0.1\<close> the sum is
  rounded upward twice and the average returned is the next binary64 value above the
  maximum.\<close>

theorem calculateStats_average_counterexample:
  "round64 (1 / 10) = Finite (3602879701896397 / 36028797018963968) \<and>
   avg (calculateStats [Finite (3602879701896397 / 36028797018963968),
      Finite (3602879701896397 / 36028797018963968),
      Finite (3602879701896397 / 36028797018963968)])
     = Finite (7205759403792795 / 72057594037927936) \<and>
   max_stat (calculateStats [Finite (3602879701896397 / 36028797018963968),
      Finite (3602879701896397 / 36028797018963968),
      Finite (3602879701896397 / 36028797018963968)])
     = Finite (3602879701896397 / 36028797018963968) \<and>
   \<not> js_le (avg (calculateStats [Finite (3602879701896397 / 36028797018963968),
      Finite (3602879701896397 / 36028797018963968),
      Finite (3602879701896397 / 36028797018963968)]))
     (max_stat (calculateStats [Finite (3602879701896397 / 36028797018963968),
      Finite (3602879701896397 / 36028797018963968),
      Finite (3602879701896397 / 36028797018963968)]))"
proof -
  have "max_stat (calculateStats (map Finite [3602879701896397 / 36028797018963968,
      3602879701896397 / 36028797018963968, 3602879701896397 / 36028797018963968]))
     = Finite (3602879701896397 / 36028797018963968)"
    using Math_max_Finite [of "[3602879701896397 / 36028797018963968,
      3602879701896397 / 36028797018963968, 3602879701896397 / 36028797018963968]"]
    by (simp add: max_calculateStats)
  then show ?thesis
    by (simp add: stats_tenths round64_tenth)
qed

text \<open>C7 (amended): for every non-empty sequence of integer Durations whose sum is at
  most \<open>2^53\<close>, the record returned by \<open>calculateStats\<close> has minimum \<open>\<le>\<close> average \<open>\<le>\<close>
  maximum, in the sense of the language's \<^verbatim>\<open><=\<close> (so none of the three is \<open>NaN\<close>).\<close>

theorem calculateStats_average_between:
  "ks \<noteq> [] \<Longrightarrow> sum_list ks \<le> 2 ^ 53 \<Longrightarrow>
     js_le (min_stat (calculateStats (integerDurations ks)))
       (avg (calculateStats (integerDurations ks))) \<and>
     js_le (avg (calculateStats (integerDurations ks)))
       (max_stat (calculateStats (integerDurations ks)))"
proof -
  assume ne: "ks \<noteq> []" and s: "sum_list ks \<le> 2 ^ 53"
  show ?thesis
    unfolding min_integerDurations [OF ne] max_integerDurations [OF ne]
      avg_integerDurations [OF ne s]
    using average_between [OF ne s] by simp
qed

theorem calculateStats_average_between_witness:
  "[3, 9, 6] \<noteq> ([] :: nat list) \<and> sum_list [3, 9, 6 :: nat] \<le> 2 ^ 53 \<and>
   js_le (min_stat (calculateStats (integerDurations [3, 9, 6])))
     (avg (calculateStats (integerDurations [3, 9, 6]))) \<and>
   js_le (avg (calculateStats (integerDurations [3, 9, 6])))
     (max_stat (calculateStats (integerDurations [3, 9, 6])))"
  using calculateStats_average_between [of "[3, 9, 6]"] by simp

text \<open>C8, as stated, fails: on three copies of the binary64 value of \<open>0.1\<close> the average
  returned is the next binary64 value above it, and the standard deviation is \<open>2^-56\<close>,
  not \<open>0\<close>.\<close>

theorem calculateStats_constant_counterexample:
  "avg (calculateStats [Finite (3602879701896397 / 36028797018963968),
      Finite (3602879701896397 / 36028797018963968),
      Finite (3602879701896397 / 36028797018963968)])
     = Finite (7205759403792795 / 72057594037927936) \<and>
   (7205759403792795 / 72057594037927936 :: real) \<noteq> 3602879701896397 / 36028797018963968 \<and>
   sd (calculateStats [Finite (3602879701896397 / 36028797018963968),
      Finite (3602879701896397 / 36028797018963968),
      Finite (3602879701896397 / 36028797018963968)])
     = Finite (1 / 72057594037927936)"
  by (simp add: stats_tenths)

text \<open>C8 (amended): for every non-empty sequence of integer Durations in which every
  value equals some \<open>v\<close>, with \<open>N * v\<close> at most \<open>2^53\<close>, \<open>calculateStats\<close> returns the
  average \<open>v\<close> and the standard deviation \<open>0\<close>.\<close>

theorem calculateStats_constant:
  "ks \<noteq> [] \<Longrightarrow> \<forall>k \<in> set ks. k = v \<Longrightarrow> length ks * v \<le> 2 ^ 53 \<Longrightarrow>
     avg (calculateStats (integerDurations ks)) = Finite (real v) \<and>
     sd (calculateStats (integerDurations ks)) = Finite 0"
proof -
  assume ne: "ks \<noteq> []" and c: "\<forall>k \<in> set ks. k = v" and b: "length ks * v \<le> 2 ^ 53"
  from c have r: "replicate (length ks) v = ks"
    by (rule replicate_length_same)
  from ne have n: "0 < length ks"
    by simp
  from constant_integerDurations [OF n b] show ?thesis
    unfolding r by simp
qed

theorem calculateStats_constant_witness:
  "[7, 7, 7] \<noteq> ([] :: nat list) \<and> list_all (\<lambda>k. k = 7) [7, 7, 7 :: nat] \<and>
   length [7, 7, 7 :: nat] * 7 \<le> 2 ^ 53 \<and>
   avg (calculateStats (integerDurations [7, 7, 7])) = Finite 7 \<and>
   sd (calculateStats (integerDurations [7, 7, 7])) = Finite 0"
  using calculateStats_constant [of "[7, 7, 7]" 7] by simp

section \<open>Claims on the formatting of a duration\<close>

text \<open>C4, as stated, fails at the binary64 value \<open>999999999999999983222784\<close> ms: its
  quotient by \<open>1000\<close> rounds to \<open>10^21\<close>, where \<^verbatim>\<open>toFixed\<close> switches to scientific notation,
  and the result has no two decimal places.\<close>

theorem formatDuration_large_counterexample:
  "round64 999999999999999983222784 = Finite 999999999999999983222784 \<and>
   (1000 :: real) \<le> 999999999999999983222784 \<and>
   formatDuration (Finite 999999999999999983222784) = Inr ''1e+21s'' \<and>
   \<not> hasFixedShape 2 ''1e+21''"
  by (simp add: round64_big_duration formatDuration_big not_fixed_1e21)

text \<open>C4 (amended): \<open>formatDuration\<close> never fails on a non-negative finite Duration. For
  \<open>ms \<ge> 1000\<close> with the binary64 quotient \<open>q = ms / 1000\<close> below \<open>10^21\<close> (every
  \<open>ms \<le> 10^23\<close>) it returns a decimal numeral with exactly two digits after the point,
  within \<open>0.005\<close> of \<open>q\<close>, followed by \<open>s\<close>; for \<open>q \<ge> 10^21\<close> it returns \<open>q\<close> in scientific
  notation followed by \<open>s\<close>; for \<open>ms < 1000\<close> it returns a numeral without a point, within
  \<open>0.5\<close> of \<open>ms\<close>, followed by \<open>ms\<close>; and \<open>formatDuration(999) = "999ms"\<close>,
  \<open>formatDuration(1000) = "1.00s"\<close>, \<open>formatDuration(1500) = "1.50s"\<close>.\<close>

theorem formatDuration_spec:
  "0 \<le> ms \<Longrightarrow>
     (\<exists>t. formatDuration (Finite ms) = Inr t) \<and>
     (1000 \<le> ms \<and> round64 (ms / 1000) = Finite q \<and> q < 10 ^ 21 \<longrightarrow>
        (\<exists>t. formatDuration (Finite ms) = Inr (t @ ''s'') \<and> hasFixedShape 2 t \<and>
             \<bar>fixedValue 2 t - q\<bar> \<le> 1 / 200)) \<and>
     (ms \<le> 10 ^ 23 \<longrightarrow> (\<exists>r. round64 (ms / 1000) = Finite r \<and> r < 10 ^ 21)) \<and>
     (1000 \<le> ms \<and> round64 (ms / 1000) = Finite q \<and> 10 ^ 21 \<le> q \<longrightarrow>
        formatDuration (Finite ms) = Inr (numberToStringLarge q @ ''s'')) \<and>
     (ms < 1000 \<longrightarrow>
        (\<exists>t. formatDuration (Finite ms) = Inr (t @ ''ms'') \<and> hasFixedShape 0 t \<and>
             \<bar>fixedValue 0 t - ms\<bar> \<le> 1 / 2)) \<and>
     formatDuration (Finite 999) = Inr ''999ms'' \<and>
     formatDuration (Finite 1000) = Inr ''1.00s'' \<and>
     formatDuration (Finite 1500) = Inr ''1.50s''"
proof -
  assume nonneg: "0 \<le> ms"
  have total: "\<exists>t. formatDuration (Finite ms) = Inr t"
    by (rule formatDuration_returns)
  have seconds: "\<exists>t. formatDuration (Finite ms) = Inr (t @ ''s'') \<and> hasFixedShape 2 t \<and>
             \<bar>fixedValue 2 t - q\<bar> \<le> 1 / 200"
    if "1000 \<le> ms" and "round64 (ms / 1000) = Finite q" and "q < 10 ^ 21"
  proof -
    have "0 \<le> ms / 1000"
      using nonneg by simp
    then have "0 \<le> q"
      using that(2) by (rule round64_nonneg)
    then have "\<bar>fixedValue 2 (toFixedDigits q 2) - q\<bar> \<le> 1 / (2 * 10 ^ 2)"
      by (rule toFixedDigits_nearest)
    then have "\<bar>fixedValue 2 (toFixedDigits q 2) - q\<bar> \<le> 1 / 200"
      by simp
    with formatDuration_seconds [OF that] toFixedDigits_shape [of 2 q]
    show ?thesis by blast
  qed
  have range: "\<exists>r. round64 (ms / 1000) = Finite r \<and> r < 10 ^ 21" if "ms \<le> 10 ^ 23"
    using nonneg that by (rule seconds_below_1e21)
  have millis: "\<exists>t. formatDuration (Finite ms) = Inr (t @ ''ms'') \<and> hasFixedShape 0 t \<and>
             \<bar>fixedValue 0 t - ms\<bar> \<le> 1 / 2"
    if "ms < 1000"
  proof -
    have "\<bar>fixedValue 0 (toFixedDigits ms 0) - ms\<bar> \<le> 1 / (2 * 10 ^ 0)"
      using nonneg by (rule toFixedDigits_nearest)
    then have "\<bar>fixedValue 0 (toFixedDigits ms 0) - ms\<bar> \<le> 1 / 2"
      by simp
    with formatDuration_milliseconds [OF nonneg that] toFixedDigits_shape [of 0 ms]
    show ?thesis by blast
  qed
  from total seconds range millis formatDuration_scientific [of ms q]
    formatDuration_999 formatDuration_1000 formatDuration_1500
  show ?thesis by blast
qed

theorem formatDuration_spec_witness:
  "(0 :: real) \<le> 1005 \<and> (1000 :: real) \<le> 1005 \<and>
   round64 (1005 / 1000) = Finite (1131529406376837 / 1125899906842624) \<and>
   (1131529406376837 / 1125899906842624 :: real) < 10 ^ 21 \<and>
   (\<exists>t. formatDuration (Finite 1005) = Inr (t @ ''s'') \<and> hasFixedShape 2 t \<and>
        \<bar>fixedValue 2 t - 1131529406376837 / 1125899906842624\<bar> \<le> 1 / 200) \<and>
   formatDuration (Finite 1005) = Inr ''1.00s'' \<and>
   (0 :: real) \<le> 842.5 \<and> (842.5 :: real) < 1000 \<and>
   (\<exists>t. formatDuration (Finite 842.5) = Inr (t @ ''ms'') \<and> hasFixedShape 0 t \<and>
        \<bar>fixedValue 0 t - 842.5\<bar> \<le> 1 / 2) \<and>
   formatDuration (Finite 842.5) = Inr ''843ms'' \<and>
   (0 :: real) \<le> 99999999999999987584860160 \<and>
   (1000 :: real) \<le> 99999999999999987584860160 \<and>
   round64 (99999999999999987584860160 / 1000) = Finite 99999999999999991611392 \<and>
   (10 :: real) ^ 21 \<le> 99999999999999991611392 \<and>
   formatDuration (Finite 99999999999999987584860160)
     = Inr (numberToStringLarge 99999999999999991611392 @ ''s'') \<and>
   numberToStringLarge 99999999999999991611392 = ''1e+23'' \<and>
   round64 1234500000000000024117248 = Finite 1234500000000000024117248 \<and>
   formatDuration (Finite 1234500000000000024117248) = Inr ''1.2345000000000001e+21s''"
proof -
  have a: "(0 :: real) \<le> 1005" and b: "(0 :: real) \<le> 842.5"
    and c: "(0 :: real) \<le> 99999999999999987584860160"
    by simp_all
  have qa: "round64 (1005 / 1000) = Finite (1131529406376837 / 1125899906842624)"
    using round64_1005 by simp
  have qc: "round64 (99999999999999987584860160 / 1000) = Finite 99999999999999991611392"
    using round64_1e26_ms by simp
  from formatDuration_spec [OF a, of "1131529406376837 / 1125899906842624"] qa
  have ta: "\<exists>t. formatDuration (Finite 1005) = Inr (t @ ''s'') \<and> hasFixedShape 2 t \<and>
        \<bar>fixedValue 2 t - 1131529406376837 / 1125899906842624\<bar> \<le> 1 / 200"
    by simp
  from formatDuration_spec [OF b, of 0]
  have tb: "\<exists>t. formatDuration (Finite 842.5) = Inr (t @ ''ms'') \<and> hasFixedShape 0 t \<and>
        \<bar>fixedValue 0 t - 842.5\<bar> \<le> 1 / 2"
    by simp
  from formatDuration_spec [OF c, of 99999999999999991611392] qc
  have tc: "formatDuration (Finite 99999999999999987584860160)
     = Inr (numberToStringLarge 99999999999999991611392 @ ''s'')"
    by simp
  from qa qc ta tb tc formatDuration_1005 formatDuration_842_5 numberToStringLarge_1e23
    round64_12345_duration formatDuration_12345
  show ?thesis
    by simp
qed

text \<open>C10: for every Duration \<open>ms\<close> with \<open>999.5 \<le> ms < 1000\<close>, \<open>formatDuration\<close> returns
  \<open>"1000ms"\<close>, while \<open>formatDuration(1000)\<close> is \<open>"1.00s"\<close>: both outputs exist at the unit
  boundary.\<close>

theorem formatDuration_rounds_up_to_1000ms:
  "999.5 \<le> ms \<Longrightarrow> ms < 1000 \<Longrightarrow>
     formatDuration (Finite ms) = Inr ''1000ms'' \<and> formatDuration (Finite 1000) = Inr ''1.00s''"
proof -
  assume lo: "999.5 \<le> ms" and hi: "ms < 1000"
  have "\<lfloor>ms + 1 / 2\<rfloor> = 1000"
    using lo hi by (simp add: floor_eq_iff)
  then have "toFixedDigits ms 0 = ''1000''"
    by (simp add: toFixedDigits_def natToString_1000)
  moreover have "0 \<le> ms"
    using lo by simp
  ultimately show ?thesis
    using hi by (simp add: formatDuration_milliseconds formatDuration_1000)
qed

theorem formatDuration_rounds_up_to_1000ms_witness:
  "(999.5 :: real) \<le> 999.5 \<and> (999.5 :: real) < 1000 \<and>
   formatDuration (Finite 999.5) = Inr ''1000ms'' \<and> formatDuration (Finite 1000) = Inr ''1.00s''"
  using formatDuration_rounds_up_to_1000ms [of "999.5"] by simp

section \<open>Claims on the insights\<close>

text \<open>C9, as stated, fails when the ratio reaches \<open>10^21\<close>: \<^verbatim>\<open>toFixed(1)\<close> then prints
  scientific notation, without a decimal place.\<close>

theorem insightRatio_large_counterexample:
  "avg (calculateStats [Finite 1]) = Finite 1 \<and>
   avg (calculateStats [Finite (10 ^ 21)]) = Finite (10 ^ 21) \<and>
   insightRatio \<lparr>Lightweight = calculateStats [Finite 1], Medium = calculateStats [Finite 1000],
       Heavy = calculateStats [Finite (10 ^ 21)], Total = calculateStats [Finite (10 ^ 21)]\<rparr>
     = Inr ''1e+21x'' \<and>
   \<not> hasFixedShape 1 ''1e+21''"
  by (simp add: avg_single_1 avg_1e21 insightRatio_def round64_1e21 toFixed_large
      numberToStringLarge_1e21 withSuffix_def not_fixed_1e21)

text \<open>C9 (amended): for every \<open>stats\<close> with finite averages, \<open>Lightweight.avg\<close> nonzero and
  the binary64 quotient \<open>q = Heavy.avg / Lightweight.avg\<close> finite and below \<open>10^21\<close> in
  absolute value (as it is whenever \<open>0 \<le> Heavy.avg \<le> 2^53\<close> and
  \<open>Lightweight.avg \<ge> 2^-10\<close>), the multiplier of the first insight is a decimal numeral
  with exactly one digit after the point, within \<open>0.05\<close> of \<open>\<bar>q\<bar>\<close> (a minus sign in front
  of it for a negative \<open>q\<close>), followed by \<open>x\<close>; with \<open>Lightweight = [10, 20, 30]\<close>,
  \<open>Medium = [100, 200, 300]\<close> and \<open>Heavy = [1000, 2000, 3000]\<close> the averages are \<open>20\<close>,
  \<open>200\<close> and \<open>2000\<close> and the multiplier is \<open>100.0x\<close>.\<close>

theorem insightRatio_spec:
  "avg (Lightweight stats) = Finite l \<Longrightarrow> avg (Heavy stats) = Finite h \<Longrightarrow> l \<noteq> 0 \<Longrightarrow>
     (round64 (h / l) = Finite q \<and> \<bar>q\<bar> < 10 ^ 21 \<longrightarrow>
        (\<exists>t. insightRatio stats = Inr ((if q < 0 then ''-'' else []) @ t @ ''x'') \<and>
             hasFixedShape 1 t \<and> \<bar>fixedValue 1 t - \<bar>q\<bar>\<bar> \<le> 1 / 20)) \<and>
     (0 \<le> h \<and> h \<le> 2 ^ 53 \<and> 1 / 2 ^ 10 \<le> l \<longrightarrow>
        (\<exists>r. round64 (h / l) = Finite r \<and> 0 \<le> r \<and> r < 10 ^ 21)) \<and>
     avg (calculateStats (integerDurations [10, 20, 30])) = Finite 20 \<and>
     avg (calculateStats (integerDurations [100, 200, 300])) = Finite 200 \<and>
     avg (calculateStats (integerDurations [1000, 2000, 3000])) = Finite 2000 \<and>
     insightRatio \<lparr>Lightweight = calculateStats (integerDurations [10, 20, 30]),
         Medium = calculateStats (integerDurations [100, 200, 300]),
         Heavy = calculateStats (integerDurations [1000, 2000, 3000]),
         Total = calculateStats (integerDurations [1110, 2220, 3330])\<rparr> = Inr ''100.0x''"
proof -
  assume l: "avg (Lightweight stats) = Finite l" and h: "avg (Heavy stats) = Finite h"
    and nz: "l \<noteq> 0"
  have general: "\<exists>t. insightRatio stats = Inr ((if q < 0 then ''-'' else []) @ t @ ''x'') \<and>
             hasFixedShape 1 t \<and> \<bar>fixedValue 1 t - \<bar>q\<bar>\<bar> \<le> 1 / 20"
    if q: "round64 (h / l) = Finite q" and small: "\<bar>q\<bar> < 10 ^ 21"
  proof -
    have "\<bar>fixedValue 1 (toFixedDigits \<bar>q\<bar> 1) - \<bar>q\<bar>\<bar> \<le> 1 / (2 * 10 ^ 1)"
      by (rule toFixedDigits_nearest) simp
    then have "\<bar>fixedValue 1 (toFixedDigits \<bar>q\<bar> 1) - \<bar>q\<bar>\<bar> \<le> 1 / 20"
      by simp
    with insightRatio_fixed [OF l h nz q small] toFixedDigits_shape [of 1 "\<bar>q\<bar>"]
    show ?thesis by blast
  qed
  have range: "\<exists>r. round64 (h / l) = Finite r \<and> 0 \<le> r \<and> r < 10 ^ 21"
    if "0 \<le> h" and "h \<le> 2 ^ 53" and "1 / 2 ^ 10 \<le> l"
    using that by (rule ratio_below_1e21)
  from general range avg_10_20_30 avg_100_200_300 avg_1000_2000_3000 example_ratio
  show ?thesis
    by blast
qed

theorem insightRatio_spec_witness:
  "avg (Lightweight \<lparr>Lightweight = calculateStats [Finite 100], Medium = calculateStats [Finite 500],
       Heavy = calculateStats [Finite 1435], Total = calculateStats [Finite 2035]\<rparr>) = Finite 100 \<and>
   avg (Heavy \<lparr>Lightweight = calculateStats [Finite 100], Medium = calculateStats [Finite 500],
       Heavy = calculateStats [Finite 1435], Total = calculateStats [Finite 2035]\<rparr>) = Finite 1435 \<and>
   (100 :: real) \<noteq> 0 \<and>
   round64 (1435 / 100) = Finite (8078331831595827 / 562949953421312) \<and>
   \<bar>8078331831595827 / 562949953421312 :: real\<bar> < 10 ^ 21 \<and>
   (\<exists>t. insightRatio \<lparr>Lightweight = calculateStats [Finite 100], Medium = calculateStats [Finite 500],
       Heavy = calculateStats [Finite 1435], Total = calculateStats [Finite 2035]\<rparr> = Inr (t @ ''x'') \<and>
     hasFixedShape 1 t \<and> \<bar>fixedValue 1 t - 8078331831595827 / 562949953421312\<bar> \<le> 1 / 20) \<and>
   insightRatio \<lparr>Lightweight = calculateStats [Finite 100], Medium = calculateStats [Finite 500],
       Heavy = calculateStats [Finite 1435], Total = calculateStats [Finite 2035]\<rparr> = Inr ''14.3x''"
proof -
  let ?s = "\<lparr>Lightweight = calculateStats [Finite 100], Medium = calculateStats [Finite 500],
       Heavy = calculateStats [Finite 1435], Total = calculateStats [Finite 2035]\<rparr>"
  have l: "avg (Lightweight ?s) = Finite 100" and h: "avg (Heavy ?s) = Finite 1435"
    by (simp_all add: avg_single_numeral)
  have nz: "(100 :: real) \<noteq> 0"
    by simp
  have q: "round64 (1435 / 100) = Finite (8078331831595827 / 562949953421312)"
    using round64_1435 by simp
  have small: "\<bar>8078331831595827 / 562949953421312 :: real\<bar> < 10 ^ 21"
    by simp
  have pos: "\<bar>8078331831595827 / 562949953421312 :: real\<bar> = 8078331831595827 / 562949953421312"
    and nn: "\<not> (8078331831595827 / 562949953421312 :: real) < 0"
    by simp_all
  from insightRatio_spec [OF l h nz, of "8078331831595827 / 562949953421312"] q small
  have "\<exists>t. insightRatio ?s
       = Inr ((if (8078331831595827 / 562949953421312 :: real) < 0 then ''-'' else []) @ t @ ''x'') \<and>
     hasFixedShape 1 t \<and>
     \<bar>fixedValue 1 t - \<bar>8078331831595827 / 562949953421312\<bar>\<bar> \<le> 1 / 20"
    by blast
  then have t: "\<exists>t. insightRatio ?s = Inr (t @ ''x'') \<and> hasFixedShape 1 t \<and>
     \<bar>fixedValue 1 t - 8078331831595827 / 562949953421312\<bar> \<le> 1 / 20"
    unfolding pos using nn by simp
  have e: "insightRatio ?s = Inr ''14.3x''"
    unfolding insightRatio_fixed [OF l h nz q small] pos toFixedDigits_1435
    using nn by simp
  from l h nz q small t e show ?thesis
    by blast
qed

text \<open>C2, as stated, fails: a zero divisor raises nothing. With \<open>Lightweight.avg = 0\<close>
  and \<open>Heavy.avg = 2000\<close> the multiplier is the text \<open>Infinityx\<close>; with \<open>Heavy.avg = 0\<close>
  (and then \<open>Heavy.sd = 0\<close>) the percentage is the text \<open>NaN%\<close>.\<close>

theorem insights_zero_average_counterexample:
  "avg (calculateStats [Finite 0]) = Finite 0 \<and>
   insightRatio \<lparr>Lightweight = calculateStats [Finite 0], Medium = calculateStats [Finite 200],
       Heavy = calculateStats [Finite 2000], Total = calculateStats [Finite 2200]\<rparr>
     = Inr ''Infinityx'' \<and>
   insightHeavyCV \<lparr>Lightweight = calculateStats [Finite 20], Medium = calculateStats [Finite 200],
       Heavy = calculateStats [Finite 0], Total = calculateStats [Finite 220]\<rparr>
     = Inr ''NaN%''"
  by (simp add: avg_single_0 avg_single_numeral sd_single_0 insightRatio_def insightHeavyCV_def
      toFixed_def withSuffix_def js_inf_def)

text \<open>C2 (amended): no insight fails on a zero divisor. When \<open>Lightweight.avg\<close> is zero
  and \<open>Heavy.avg\<close> is finite, the multiplier is \<open>NaNx\<close> for \<open>Heavy.avg = 0\<close>, and
  \<open>Infinityx\<close> (\<open>-Infinityx\<close>) for a positive (negative) \<open>Heavy.avg\<close>; when \<open>Heavy.avg\<close> is
  zero and \<open>Heavy.sd\<close> is finite, the percentage is \<open>NaN%\<close> for \<open>Heavy.sd = 0\<close>, and
  \<open>Infinity%\<close> (\<open>-Infinity%\<close>) for a positive (negative) \<open>Heavy.sd\<close>.\<close>

theorem insights_zero_average:
  "(avg (Lightweight stats) = Finite 0 \<and> avg (Heavy stats) = Finite h \<longrightarrow>
      insightRatio stats =
        Inr (if h = 0 then ''NaNx'' else if h < 0 then ''-Infinityx'' else ''Infinityx'')) \<and>
   (avg (Heavy stats) = Finite 0 \<and> sd (Heavy stats) = Finite s \<longrightarrow>
      insightHeavyCV stats =
        Inr (if s = 0 then ''NaN%'' else if s < 0 then ''-Infinity%'' else ''Infinity%''))"
  by (simp add: insightRatio_def insightHeavyCV_def toFixed_def withSuffix_def js_inf_def)

theorem insights_zero_average_witness:
  "avg (Lightweight \<lparr>Lightweight = calculateStats [Finite 0], Medium = calculateStats [Finite 0],
       Heavy = calculateStats [Finite 0], Total = calculateStats [Finite 0]\<rparr>) = Finite 0 \<and>
   avg (Heavy \<lparr>Lightweight = calculateStats [Finite 0], Medium = calculateStats [Finite 0],
       Heavy = calculateStats [Finite 0], Total = calculateStats [Finite 0]\<rparr>) = Finite 0 \<and>
   sd (Heavy \<lparr>Lightweight = calculateStats [Finite 0], Medium = calculateStats [Finite 0],
       Heavy = calculateStats [Finite 0], Total = calculateStats [Finite 0]\<rparr>) = Finite 0 \<and>
   insightRatio \<lparr>Lightweight = calculateStats [Finite 0], Medium = calculateStats [Finite 0],
       Heavy = calculateStats [Finite 0], Total = calculateStats [Finite 0]\<rparr> = Inr ''NaNx'' \<and>
   insightHeavyCV \<lparr>Lightweight = calculateStats [Finite 0], Medium = calculateStats [Finite 0],
       Heavy = calculateStats [Finite 0], Total = calculateStats [Finite 0]\<rparr> = Inr ''NaN%''"
  using insights_zero_average
    [of "\<lparr>Lightweight = calculateStats [Finite 0], Medium = calculateStats [Finite 0],
       Heavy = calculateStats [Finite 0], Total = calculateStats [Finite 0]\<rparr>" 0 0]
  by (simp add: avg_single_0 sd_single_0)

text \<open>C5, as stated, fails when the first label of the comparison has a zero average: its
  coefficient of variation is \<open>0 / 0 = NaN\<close>, no comparison with \<open>NaN\<close> is true, and the
  \<^verbatim>\<open>reduce\<close> keeps that label although other labels have the coefficients \<open>0.05\<close> and
  \<open>0.2\<close> (their binary64 values).\<close>

theorem mostConsistentKey_zero_average_counterexample:
  "mostConsistentKey (entries
     \<lparr>Lightweight = \<lparr>avg = Finite 0, min_stat = Finite 0, max_stat = Finite 0, sd = Finite 0\<rparr>,
      Medium = \<lparr>avg = Finite 20, min_stat = Finite 19, max_stat = Finite 21, sd = Finite 1\<rparr>,
      Heavy = \<lparr>avg = Finite 10, min_stat = Finite 8, max_stat = Finite 12, sd = Finite 2\<rparr>,
      Total = \<lparr>avg = Finite 30, min_stat = Finite 27, max_stat = Finite 33, sd = Finite 3\<rparr>\<rparr>)
     = ''Lightweight'' \<and>
   cv (''Lightweight'', \<lparr>avg = Finite 0, min_stat = Finite 0, max_stat = Finite 0, sd = Finite 0\<rparr>)
     = NaN \<and>
   cv (''Medium'', \<lparr>avg = Finite 20, min_stat = Finite 19, max_stat = Finite 21, sd = Finite 1\<rparr>)
     = Finite (3602879701896397 / 72057594037927936) \<and>
   cv (''Heavy'', \<lparr>avg = Finite 10, min_stat = Finite 8, max_stat = Finite 12, sd = Finite 2\<rparr>)
     = Finite (3602879701896397 / 18014398509481984)"
  by (simp add: mostConsistentKey_def entries_def cv_def round64_twentieth round64_fifth)

text \<open>C5 (amended): for every mapping from labels to statistics, given by its entries in
  iteration order, \<open>mostConsistentKey\<close> returns \<open>"N/A"\<close> when no label other than \<open>Total\<close>
  is left; and when the first label other than \<open>Total\<close> has a coefficient of variation
  (the binary64 quotient \<open>sd / avg\<close>) that is a number, it returns the label, \<open>Total\<close>
  excluded, whose coefficient is the smallest among those that are numbers, the first
  such label in iteration order (every earlier label has a strictly larger coefficient
  or \<open>NaN\<close>, every later one a coefficient at least as large or \<open>NaN\<close>). For the
  coefficients \<open>0.1\<close>, \<open>0.05\<close>, \<open>0.2\<close> it returns the label with \<open>0.05\<close>.\<close>

theorem mostConsistentKey_spec:
  "(filter (\<lambda>(key, _). key \<noteq> ''Total'') es = [] \<longrightarrow> mostConsistentKey es = ''N/A'') \<and>
   (filter (\<lambda>(key, _). key \<noteq> ''Total'') es = first # rest \<and> cv first \<noteq> NaN \<longrightarrow>
      (\<exists>pre e post. first # rest = pre @ e # post \<and> mostConsistentKey es = fst e \<and>
         cv e \<noteq> NaN \<and>
         (\<forall>p \<in> set pre. cv p = NaN \<or> js_lt (cv e) (cv p)) \<and>
         (\<forall>q \<in> set post. cv q = NaN \<or> js_le (cv e) (cv q)))) \<and>
   mostConsistentKey (entries
     \<lparr>Lightweight = \<lparr>avg = Finite 10, min_stat = Finite 9, max_stat = Finite 11, sd = Finite 1\<rparr>,
      Medium = \<lparr>avg = Finite 20, min_stat = Finite 19, max_stat = Finite 21, sd = Finite 1\<rparr>,
      Heavy = \<lparr>avg = Finite 10, min_stat = Finite 8, max_stat = Finite 12, sd = Finite 2\<rparr>,
      Total = \<lparr>avg = Finite 40, min_stat = Finite 36, max_stat = Finite 44, sd = Finite 4\<rparr>\<rparr>)
     = ''Medium''"
  using mostConsistentKey_empty [of es] mostConsistentKey_first_lowest [of es first rest]
    example_most_consistent
  by blast

theorem mostConsistentKey_spec_witness:
  "filter (\<lambda>(key, _). key \<noteq> ''Total'')
     [(''Lightweight'', \<lparr>avg = Finite 10, min_stat = Finite 9, max_stat = Finite 11, sd = Finite 1\<rparr>),
      (''Medium'', \<lparr>avg = Finite 20, min_stat = Finite 19, max_stat = Finite 21, sd = Finite 1\<rparr>),
      (''Heavy'', \<lparr>avg = Finite 40, min_stat = Finite 38, max_stat = Finite 42, sd = Finite 2\<rparr>),
      (''Total'', \<lparr>avg = Finite 70, min_stat = Finite 66, max_stat = Finite 74, sd = Finite 4\<rparr>)]
     = (''Lightweight'', \<lparr>avg = Finite 10, min_stat = Finite 9, max_stat = Finite 11, sd = Finite 1\<rparr>) #
       [(''Medium'', \<lparr>avg = Finite 20, min_stat = Finite 19, max_stat = Finite 21, sd = Finite 1\<rparr>),
        (''Heavy'', \<lparr>avg = Finite 40, min_stat = Finite 38, max_stat = Finite 42, sd = Finite 2\<rparr>)] \<and>
   cv (''Lightweight'', \<lparr>avg = Finite 10, min_stat = Finite 9, max_stat = Finite 11, sd = Finite 1\<rparr>)
     \<noteq> NaN \<and>
   (\<exists>pre e post.
      (''Lightweight'', \<lparr>avg = Finite 10, min_stat = Finite 9, max_stat = Finite 11, sd = Finite 1\<rparr>) #
       [(''Medium'', \<lparr>avg = Finite 20, min_stat = Finite 19, max_stat = Finite 21, sd = Finite 1\<rparr>),
        (''Heavy'', \<lparr>avg = Finite 40, min_stat = Finite 38, max_stat = Finite 42, sd = Finite 2\<rparr>)]
        = pre @ e # post \<and>
      mostConsistentKey
        [(''Lightweight'', \<lparr>avg = Finite 10, min_stat = Finite 9, max_stat = Finite 11, sd = Finite 1\<rparr>),
         (''Medium'', \<lparr>avg = Finite 20, min_stat = Finite 19, max_stat = Finite 21, sd = Finite 1\<rparr>),
         (''Heavy'', \<lparr>avg = Finite 40, min_stat = Finite 38, max_stat = Finite 42, sd = Finite 2\<rparr>),
         (''Total'', \<lparr>avg = Finite 70, min_stat = Finite 66, max_stat = Finite 74, sd = Finite 4\<rparr>)]
        = fst e \<and>
      cv e \<noteq> NaN \<and>
      (\<forall>p \<in> set pre. cv p = NaN \<or> js_lt (cv e) (cv p)) \<and>
      (\<forall>q \<in> set post. cv q = NaN \<or> js_le (cv e) (cv q))) \<and>
   filter (\<lambda>(key, _). key \<noteq> ''Total'')
     [(''Total'', \<lparr>avg = Finite 70, min_stat = Finite 66, max_stat = Finite 74, sd = Finite 4\<rparr>)] = [] \<and>
   mostConsistentKey
     [(''Total'', \<lparr>avg = Finite 70, min_stat = Finite 66, max_stat = Finite 74, sd = Finite 4\<rparr>)]
     = ''N/A'' \<and>
   mostConsistentKey
     [(''Lightweight'', calculateStats [Finite 13, Finite 41, Finite 59, Finite 56, Finite 53,
         Finite 9, Finite 21, Finite 12, Finite 36, Finite 53]),
      (''Medium'', calculateStats [Finite 143, Finite 451, Finite 649, Finite 616, Finite 583,
         Finite 99, Finite 231, Finite 132, Finite 396, Finite 583])] = ''Lightweight''"
proof -
  let ?L = "(''Lightweight'', \<lparr>avg = Finite 10, min_stat = Finite 9, max_stat = Finite 11, sd = Finite 1\<rparr>)"
  let ?M = "(''Medium'', \<lparr>avg = Finite 20, min_stat = Finite 19, max_stat = Finite 21, sd = Finite 1\<rparr>)"
  let ?H = "(''Heavy'', \<lparr>avg = Finite 40, min_stat = Finite 38, max_stat = Finite 42, sd = Finite 2\<rparr>)"
  let ?T = "(''Total'', \<lparr>avg = Finite 70, min_stat = Finite 66, max_stat = Finite 74, sd = Finite 4\<rparr>)"
  have f: "filter (\<lambda>(key, _). key \<noteq> ''Total'') [?L, ?M, ?H, ?T] = ?L # [?M, ?H]"
    by simp
  have n: "cv ?L \<noteq> NaN"
    by (simp add: cv_def round64_tenth)
  have e: "filter (\<lambda>(key, _). key \<noteq> ''Total'') [?T] = []"
    by simp
  from mostConsistentKey_spec [of "[?L, ?M, ?H, ?T]" ?L "[?M, ?H]"] f n
  have a: "\<exists>pre e post. ?L # [?M, ?H] = pre @ e # post \<and>
      mostConsistentKey [?L, ?M, ?H, ?T] = fst e \<and> cv e \<noteq> NaN \<and>
      (\<forall>p \<in> set pre. cv p = NaN \<or> js_lt (cv e) (cv p)) \<and>
      (\<forall>q \<in> set post. cv q = NaN \<or> js_le (cv e) (cv q))"
    by blast
  from mostConsistentKey_spec [of "[?T]"] e
  have b: "mostConsistentKey [?T] = ''N/A''"
    by blast
  from f n a e b mostConsistentKey_equal_quotients show ?thesis
    by blast
qed

end
